(* ===== verification/Prelude.thy ===== *)
theory Prelude
  imports Complex_Main "HOL-Library.AList" "HOL-Library.Multiset"
begin

section \<open>Prelude: Python values, failures of external calls, shared lemmas\<close>

text \<open>
  What every component of settle shares: the JSON values that travel through the queue
  and the bank API, Python dictionaries with insertion order, the exceptions the code
  raises, the ways a call to an outside service can end, decimal rendering of integers
  (with injectivity, which makes payout references distinct), and generic lemmas on
  lists that the SQL statements and the queue operations need.
\<close>

named_theorems key_simps \<open>facts about the Redis key names\<close>
named_theorems py_simps \<open>unfolding rules for small Python helpers\<close>

subsection \<open>Values and exceptions\<close>

datatype json =
    JNull
  | JBool bool
  | JInt int
  | JFloat real
  | JStr string
  | JList "json list"
  | JObj "(string \<times> json) list"

type_synonym dict = "(string \<times> json) list"

text \<open>
  A Python \<open>str\<close> held in Redis, seen through \<open>json.loads\<close>: either the text of a JSON
  document or some text that is not JSON. Texts are compared as the documents they hold,
  which is what string comparison does on texts that were written by \<open>json.dumps\<close>.
\<close>

datatype payload = Json json | NotJson string

datatype exn =
    BankError string bool
  | PermanentError string
  | OperationalError string
  | PoolTimeout string
  | DBAPIError string
  | RedisError string
  | TransportError string
  | KeyError string
  | TypeError string
  | ValueError string
  | AttributeError string
  | HTTPException int string
  | IndexError string
  | TimeoutExpired string
  | StopIteration

type_synonym 'a res = "exn + 'a"

definition json_dumps :: "json \<Rightarrow> payload" where
  "json_dumps v = Json v"

fun json_loads :: "payload \<Rightarrow> json res" where
  "json_loads (Json v) = Inr v"
| "json_loads (NotJson s) = Inl (ValueError ''Expecting value'')"

lemma json_loads_dumps [simp]: "json_loads (json_dumps v) = Inr v"
  by (simp add: json_dumps_def)

lemma json_dumps_inject [simp]: "json_dumps v = json_dumps v' \<longleftrightarrow> v = v'"
  by (simp add: json_dumps_def)

text \<open>\<open>bool(s)\<close> of a text: only the empty string is false.\<close>

definition payload_truthy :: "payload \<Rightarrow> bool" where
  "payload_truthy t \<longleftrightarrow> t \<noteq> NotJson []"

lemma payload_truthy_dumps [simp]: "payload_truthy (json_dumps v)"
  by (simp add: payload_truthy_def json_dumps_def)

fun py_truth :: "json \<Rightarrow> bool" where
  "py_truth JNull = False"
| "py_truth (JBool b) = b"
| "py_truth (JInt i) = (i \<noteq> 0)"
| "py_truth (JFloat x) = (x \<noteq> 0)"
| "py_truth (JStr s) = (s \<noteq> [])"
| "py_truth (JList xs) = (xs \<noteq> [])"
| "py_truth (JObj kvs) = (kvs \<noteq> [])"

text \<open>\<open>job[k]\<close> raises, \<open>job.get(k, d)\<close> does not, \<open>{**job, k: v}\<close> keeps the position of a key.\<close>

definition dict_item :: "dict \<Rightarrow> string \<Rightarrow> json res" where
  "dict_item d k = (case map_of d k of None \<Rightarrow> Inl (KeyError k) | Some v \<Rightarrow> Inr v)"

definition dict_get :: "dict \<Rightarrow> string \<Rightarrow> json \<Rightarrow> json" where
  "dict_get d k dflt = (case map_of d k of None \<Rightarrow> dflt | Some v \<Rightarrow> v)"

abbreviation dict_set :: "string \<Rightarrow> json \<Rightarrow> dict \<Rightarrow> dict" where
  "dict_set \<equiv> AList.update"

lemma map_of_dict_set [simp]: "map_of (dict_set k v d) = (map_of d)(k \<mapsto> v)"
  by (rule update_conv')

subsection \<open>Outcomes of a call to an outside service\<close>

text \<open>
  A call to Postgres, Redis or the bank is answered, or it fails before it took effect, or
  it takes effect and the answer is lost (a timeout after the commit). The three cases are
  an argument of every definition that makes a call, so a theorem that holds for all replies
  holds for every pattern of failures.
\<close>

datatype reply = Done | Refused exn | Lost exn

text \<open>One atomic call whose body cannot fail by itself (a Redis command or MULTI/EXEC).\<close>

fun perform :: "reply \<Rightarrow> ('s \<Rightarrow> 'a \<times> 's) \<Rightarrow> 's \<Rightarrow> 'a res \<times> 's" where
  "perform Done f s = (let (a, s') = f s in (Inr a, s'))"
| "perform (Refused e) f s = (Inl e, s)"
| "perform (Lost e) f s = (Inl e, snd (f s))"

text \<open>
  \<open>with engine.begin() as conn\<close>: an exception in the body rolls the transaction back.
\<close>

fun transaction :: "reply \<Rightarrow> ('s \<Rightarrow> 'a res \<times> 's) \<Rightarrow> 's \<Rightarrow> 'a res \<times> 's" where
  "transaction Done f s =
     (case f s of (Inl e, _) \<Rightarrow> (Inl e, s) | (Inr a, s') \<Rightarrow> (Inr a, s'))"
| "transaction (Refused e) f s = (Inl e, s)"
| "transaction (Lost e) f s =
     (case f s of (Inl e', _) \<Rightarrow> (Inl e', s) | (Inr a, s') \<Rightarrow> (Inl e, s'))"

lemma perform_cases:
  "snd (perform rep f s) = s \<or> snd (perform rep f s) = snd (f s)"
  by (cases rep) (auto split: prod.splits)

lemma perform_ok: "perform rep f s = (Inr a, s') \<Longrightarrow> rep = Done \<and> f s = (a, s')"
  by (cases rep) (auto split: prod.splits)

lemma transaction_cases:
  "snd (transaction rep f s) = s \<or> (\<exists>a. f s = (Inr a, snd (transaction rep f s)))"
  by (cases rep) (auto split: prod.splits sum.splits)

lemma transaction_state:
  "snd (transaction rep f s) = s \<or> snd (transaction rep f s) = snd (f s)"
  by (cases rep) (auto split: prod.splits sum.splits)

lemma transaction_ok:
  "transaction rep f s = (Inr a, s') \<Longrightarrow> rep = Done \<and> f s = (Inr a, s')"
  by (cases rep) (auto split: prod.splits sum.splits)

subsection \<open>Decimal rendering\<close>

definition digit_char :: "nat \<Rightarrow> char" where
  "digit_char n = char_of (48 + n)"

fun str_nat :: "nat \<Rightarrow> string" where
  "str_nat n = (if n < 10 then [digit_char n] else str_nat (n div 10) @ [digit_char (n mod 10)])"

declare str_nat.simps [simp del]

definition str_int :: "int \<Rightarrow> string" where
  "str_int i = (if i < 0 then CHR ''-'' # str_nat (nat (- i)) else str_nat (nat i))"

definition digits_val :: "string \<Rightarrow> nat" where
  "digits_val s = foldl (\<lambda>a c. 10 * a + (of_char c - 48)) 0 s"

lemma of_char_digit: "n < 10 \<Longrightarrow> of_char (digit_char n) = 48 + n"
  by (simp add: digit_char_def)

lemma digits_val_str_nat: "digits_val (str_nat n) = n"
proof (induction n rule: str_nat.induct)
  case (1 n)
  show ?case
  proof (cases "n < 10")
    case True
    then show ?thesis by (simp add: str_nat.simps [of n] digits_val_def of_char_digit)
  next
    case False
    with 1 have "digits_val (str_nat (n div 10)) = n div 10" by blast
    with False show ?thesis
      by (simp add: str_nat.simps [of n] digits_val_def of_char_digit)
  qed
qed

lemma str_nat_inject [simp]: "str_nat m = str_nat n \<longleftrightarrow> m = n"
  by (metis digits_val_str_nat)

lemma str_nat_digits: "c \<in> set (str_nat n) \<Longrightarrow> of_char c \<in> {48..57::nat}"
proof (induction n rule: str_nat.induct)
  case (1 n)
  then show ?case
    by (auto simp: str_nat.simps [of n] of_char_digit split: if_splits)
qed

lemma str_nat_nonempty [simp]: "str_nat n \<noteq> []"
  by (subst str_nat.simps) simp

lemma str_nat_no_minus: "CHR ''-'' # s \<noteq> str_nat n"
  using str_nat_digits [of "CHR ''-''" n] by (auto dest: sym)

lemma str_int_inject [simp]: "str_int i = str_int j \<longleftrightarrow> i = j"
proof
  assume eq: "str_int i = str_int j"
  show "i = j"
  proof (cases "(i < 0) = (j < 0)")
    case True
    with eq show ?thesis by (auto simp: str_int_def split: if_splits)
  next
    case False
    with eq show ?thesis
      using str_nat_no_minus by (metis str_int_def)
  qed
qed simp

text \<open>\<open>str.strip()\<close> on ASCII text, and \<open>int(s)\<close>: one optional sign, digits, single underscores
  between digits, surrounding white space ignored, anything else a \<open>ValueError\<close>.\<close>

definition py_space :: "char \<Rightarrow> bool" where
  "py_space c \<longleftrightarrow> (let n = (of_char c :: nat) in 9 \<le> n \<and> n \<le> 13 \<or> 28 \<le> n \<and> n \<le> 32)"

definition lstrip :: "string \<Rightarrow> string" where
  "lstrip s = dropWhile py_space s"

definition strip :: "string \<Rightarrow> string" where
  "strip s = rev (lstrip (rev (lstrip s)))"

text \<open>\<open>t.startswith(s)\<close> and \<open>s in t\<close>.\<close>

fun prefix_of :: "string \<Rightarrow> string \<Rightarrow> bool" where
  "prefix_of [] t = True"
| "prefix_of (c # s) [] = False"
| "prefix_of (c # s) (d # t) = (c = d \<and> prefix_of s t)"

fun occurs_in :: "string \<Rightarrow> string \<Rightarrow> bool" where
  "occurs_in s [] = (s = [])"
| "occurs_in s (c # t) = (prefix_of s (c # t) \<or> occurs_in s t)"

lemma prefix_of_append [simp]: "prefix_of s (s @ t)"
  by (induction s) simp_all

lemma prefix_of_iff: "prefix_of s t \<longleftrightarrow> (\<exists>u. t = s @ u)"
  by (induction s t rule: prefix_of.induct) auto

lemma prefix_of_long: "length s \<le> length t \<Longrightarrow> prefix_of s (t @ u) = prefix_of s t"
  by (induction s t rule: prefix_of.induct) auto

text \<open>\<^verbatim>\<open>f"{s:<k}"\<close> and \<^verbatim>\<open>f"{s:>k}"\<close>.\<close>

definition ljust :: "nat \<Rightarrow> string \<Rightarrow> string" where
  "ljust k s = s @ replicate (k - length s) (CHR '' '')"

definition rjust :: "nat \<Rightarrow> string \<Rightarrow> string" where
  "rjust k s = replicate (k - length s) (CHR '' '') @ s"

definition is_digit :: "char \<Rightarrow> bool" where
  "is_digit c \<longleftrightarrow> (let n = (of_char c :: nat) in 48 \<le> n \<and> n \<le> 57)"

fun scan_digits :: "bool \<Rightarrow> nat \<Rightarrow> string \<Rightarrow> nat option" where
  "scan_digits after_digit acc [] = (if after_digit then Some acc else None)"
| "scan_digits after_digit acc (c # cs) =
     (if is_digit c then scan_digits True (10 * acc + (of_char c - 48)) cs
      else if c = CHR ''_'' \<and> after_digit then scan_digits False acc cs
      else None)"

definition py_int :: "string \<Rightarrow> int res" where
  "py_int s =
     (let t = strip s;
          neg = (case t of c # _ \<Rightarrow> c = CHR ''-'' | [] \<Rightarrow> False);
          u = (case t of c # u \<Rightarrow> if c = CHR ''-'' \<or> c = CHR ''+'' then u else t | [] \<Rightarrow> [])
      in case scan_digits False 0 u of
           None \<Rightarrow> Inl (ValueError ''invalid literal for int()'')
         | Some n \<Rightarrow> Inr (if neg then - int n else int n))"

lemma scan_digits_all:
  "\<forall>c \<in> set s. is_digit c \<Longrightarrow> b \<or> s \<noteq> [] \<Longrightarrow>
   scan_digits b a s = Some (foldl (\<lambda>a c. 10 * a + (of_char c - 48)) a s)"
  by (induction s arbitrary: a b) auto

lemma str_nat_is_digit: "c \<in> set (str_nat n) \<Longrightarrow> is_digit c"
  using str_nat_digits [of c n] by (simp add: is_digit_def)

lemma scan_digits_str_nat: "scan_digits False 0 (str_nat n) = Some n"
  using scan_digits_all [of "str_nat n" False 0] digits_val_str_nat [of n]
  by (simp add: str_nat_is_digit digits_val_def)

lemma dropWhile_none: "\<forall>c \<in> set s. \<not> P c \<Longrightarrow> dropWhile P s = s"
  by (cases s) auto

lemma strip_id: "\<forall>c \<in> set s. \<not> py_space c \<Longrightarrow> strip s = s"
  by (simp add: strip_def lstrip_def dropWhile_none)

lemma str_int_no_space: "c \<in> set (str_int i) \<Longrightarrow> \<not> py_space c"
  using str_nat_digits by (fastforce simp: str_int_def py_space_def split: if_splits)

lemma py_int_str_int: "py_int (str_int i) = Inr i"
proof -
  have "strip (str_int i) = str_int i" by (simp add: strip_id str_int_no_space)
  moreover obtain c u where cu: "str_nat (nat i) = c # u" by (cases "str_nat (nat i)") auto
  moreover from cu have "is_digit c" by (metis list.set_intros(1) str_nat_is_digit)
  ultimately show ?thesis
    using scan_digits_str_nat [of "nat i"] scan_digits_str_nat [of "nat (- i)"]
    by (auto simp: py_int_def str_int_def is_digit_def Let_def)
qed

text \<open>\<open>int(x)\<close> of a float.\<close>

definition py_trunc :: "real \<Rightarrow> int" where
  "py_trunc x = (if x \<ge> 0 then \<lfloor>x\<rfloor> else \<lceil>x\<rceil>)"

text \<open>\<open>int(v)\<close> of a JSON value.\<close>

fun json_int :: "json \<Rightarrow> int res" where
  "json_int (JInt i) = Inr i"
| "json_int (JBool b) = Inr (if b then 1 else 0)"
| "json_int (JFloat x) = Inr (py_trunc x)"
| "json_int (JStr s) = py_int s"
| "json_int _ = Inl (TypeError ''int() argument must be a string or a real number'')"

subsection \<open>Sequencing of fallible computations\<close>

fun bind_res :: "'a res \<Rightarrow> ('a \<Rightarrow> 'b res) \<Rightarrow> 'b res" where
  "bind_res (Inl e) f = Inl e"
| "bind_res (Inr a) f = f a"

text \<open>A fallible function on every element of a list, in order, until the first error.\<close>

fun map_res :: "('a \<Rightarrow> 'b res) \<Rightarrow> 'a list \<Rightarrow> 'b list res" where
  "map_res f [] = Inr []"
| "map_res f (x # xs) = bind_res (f x) (\<lambda>y. bind_res (map_res f xs) (\<lambda>ys. Inr (y # ys)))"

lemma map_res_map: "list_all (\<lambda>x. f (g x) = Inr (h x)) xs \<Longrightarrow> map_res f (map g xs) = Inr (map h xs)"
  by (induction xs) simp_all

lemma bind_res_Inr: "bind_res m f = Inr b \<longleftrightarrow> (\<exists>a. m = Inr a \<and> f a = Inr b)"
  by (cases m) auto

lemma bind_res_Inl: "bind_res m f = Inl e \<longleftrightarrow> m = Inl e \<or> (\<exists>a. m = Inr a \<and> f a = Inl e)"
  by (cases m) auto

subsection \<open>SQL on tables held as lists of rows\<close>

text \<open>
  \<open>UPDATE t SET .. WHERE P RETURNING *\<close> gives the updated rows and the new table.
\<close>

definition sql_update :: "('row \<Rightarrow> bool) \<Rightarrow> ('row \<Rightarrow> 'row) \<Rightarrow> 'row list \<Rightarrow> 'row list \<times> 'row list" where
  "sql_update P f t = (map f (filter P t), map (\<lambda>r. if P r then f r else r) t)"

definition first_row :: "'a list \<Rightarrow> 'a option" where
  "first_row rows = (case rows of [] \<Rightarrow> None | r # _ \<Rightarrow> Some r)"

lemma first_row_simps [simp]:
  "first_row [] = None" "first_row (r # rs) = Some r"
  by (simp_all add: first_row_def)

lemma first_row_filter: "first_row (filter P xs) = find P xs"
  by (induction xs) (simp_all)

lemma first_row_map: "first_row (map f xs) = map_option f (first_row xs)"
  by (cases xs) simp_all

lemma map_key_update: "(\<And>r. P r \<Longrightarrow> key (f r) = key r) \<Longrightarrow>
   map key (map (\<lambda>r. if P r then f r else r) t) = map key t"
  by (induction t) auto

lemma find_unique_key:
  "distinct (map key t) \<Longrightarrow> r \<in> set t \<Longrightarrow> find (\<lambda>x. key x = key r) t = Some r"
  by (induction t) (auto simp: image_iff)

lemma find_some_mem: "find P xs = Some x \<Longrightarrow> x \<in> set xs \<and> P x"
  by (auto simp: find_Some_iff)

lemma distinct_key_eq:
  "distinct (map key t) \<Longrightarrow> r \<in> set t \<Longrightarrow> r' \<in> set t \<Longrightarrow> key r = key r' \<Longrightarrow> r = r'"
  by (induction t) (auto simp: image_iff)

text \<open>The values of a nullable column that are not NULL.\<close>

definition non_nulls :: "('row \<Rightarrow> 'v option) \<Rightarrow> 'row list \<Rightarrow> 'v list" where
  "non_nulls col t = map the (filter (\<lambda>v. v \<noteq> None) (map col t))"

lemma non_nulls_simps [simp]:
  "non_nulls col [] = []"
  "non_nulls col (r # t) = (case col r of None \<Rightarrow> non_nulls col t | Some v \<Rightarrow> v # non_nulls col t)"
  "non_nulls col (t @ u) = non_nulls col t @ non_nulls col u"
  by (auto simp: non_nulls_def split: option.splits)

lemma set_non_nulls: "set (non_nulls col t) = {v. \<exists>r \<in> set t. col r = Some v}"
  by (induction t) (auto split: option.splits)

lemma distinct_non_nulls_eq:
  assumes "distinct (non_nulls col t)" and "r \<in> set t" and "r' \<in> set t"
    and "col r = Some v" and "col r' = Some v"
  shows "r = r'"
  using assms
  by (induction t) (auto simp: set_non_nulls split: option.splits if_splits)

subsection \<open>Removing the first occurrence from a list\<close>

lemma sort_key_map: "sort_key f (map h xs) = map h (sort_key (\<lambda>x. f (h x)) xs)"
proof -
  have "insort_key f (h x) (map h ys) = map h (insort_key (\<lambda>x. f (h x)) x ys)" for x ys by (induction ys) simp_all
  then show ?thesis by (induction xs) simp_all
qed

lemma set_remove1_other: "x \<noteq> y \<Longrightarrow> x \<in> set (remove1 y xs) \<longleftrightarrow> x \<in> set xs"
  by (induction xs) auto

end
