(* ===== verification/Store.thy ===== *)
theory Store
  imports Prelude
begin

section \<open>The database: tables of settlements and payouts\<close>

text \<open>
  The tables of \<^verbatim>\<open>migrations/0007\<close> and \<^verbatim>\<open>0008\<close> that settle 1.9 reads and writes, as
  lists of rows, with the constraints that Postgres enforces on them (primary keys, the
  unique index on \<open>bank_idempotency_key\<close> of \<^verbatim>\<open>0009\<close>, \<open>UNIQUE (merchant_id,
  settlement_date)\<close>, the \<open>CHECK\<close> on the amount, foreign keys, \<open>char(3)\<close>). The SQL
  statements themselves belong to the components that execute them. Dates are day
  ordinals. Values drawn from sequences and \<open>now()\<close> are arguments of the statements.
\<close>

record settlement =
  s_id :: int
  s_merchant :: int
  s_date :: int
  s_amount :: int
  s_currency :: string
  s_status :: string

record payout =
  p_id :: int
  p_settlement :: int
  p_merchant :: int
  p_amount :: int
  p_currency :: string
  p_state :: string
  p_key :: "string option"
  p_bank_ref :: "string option"
  p_created_at :: real

record db =
  merchants :: "int list"
  settlements :: "settlement list"
  payouts :: "payout list"

definition payout_row :: "db \<Rightarrow> int \<Rightarrow> payout option" where
  "payout_row d pid = find (\<lambda>p. p_id p = pid) (payouts d)"

definition settlement_row :: "db \<Rightarrow> int \<Rightarrow> settlement option" where
  "settlement_row d sid = find (\<lambda>s. s_id s = sid) (settlements d)"

subsection \<open>Constraints\<close>

definition bigint :: "int \<Rightarrow> bool" where
  "bigint i \<longleftrightarrow> - (2 ^ 63) \<le> i \<and> i < 2 ^ 63"

text \<open>\<open>char(3)\<close>: shorter values are padded with blanks, longer ones rejected.\<close>

definition char3 :: "string \<Rightarrow> string option" where
  "char3 c = (if length c \<le> 3 then Some (c @ replicate (3 - length c) CHR '' '') else None)"

definition unique_keys :: "payout list \<Rightarrow> bool" where
  "unique_keys t \<longleftrightarrow> distinct (non_nulls p_key t)"

definition insert_settlement :: "settlement \<Rightarrow> db \<Rightarrow> int res \<times> db" where
  "insert_settlement s d =
     (if \<not> (bigint (s_merchant s) \<and> bigint (s_amount s)) then (Inl (DBAPIError ''bigint out of range''), d)
      else case char3 (s_currency s) of
        None \<Rightarrow> (Inl (DBAPIError ''value too long for type character(3)''), d)
      | Some c \<Rightarrow>
          if s_amount s < 0 then (Inl (DBAPIError ''violates check constraint''), d)
          else if \<exists>t \<in> set (settlements d). s_id t = s_id s then (Inl (DBAPIError ''duplicate key: id''), d)
          else if \<exists>t \<in> set (settlements d). s_merchant t = s_merchant s \<and> s_date t = s_date s
            then (Inl (DBAPIError ''duplicate key: merchant_id, settlement_date''), d)
          else if s_merchant s \<notin> set (merchants d) then (Inl (DBAPIError ''violates foreign key''), d)
          else (Inr (s_id s), d\<lparr>settlements := settlements d @ [s\<lparr>s_currency := c\<rparr>]\<rparr>))"

definition insert_payout :: "payout \<Rightarrow> db \<Rightarrow> int res \<times> db" where
  "insert_payout p d =
     (if \<exists>q \<in> set (payouts d). p_id q = p_id p then (Inl (DBAPIError ''duplicate key: id''), d)
      else if settlement_row d (p_settlement p) = None \<or> p_merchant p \<notin> set (merchants d)
        then (Inl (DBAPIError ''violates foreign key''), d)
      else (Inr (p_id p), d\<lparr>payouts := payouts d @ [p]\<rparr>))"

text \<open>An \<open>UPDATE\<close> of the payouts that the unique index on the idempotency key may refuse.\<close>

definition update_payouts :: "(payout \<Rightarrow> bool) \<Rightarrow> (payout \<Rightarrow> payout) \<Rightarrow> db \<Rightarrow> payout list res \<times> db" where
  "update_payouts P f d =
     (let (rows, t) = sql_update P f (payouts d)
      in if unique_keys t then (Inr rows, d\<lparr>payouts := t\<rparr>)
         else (Inl (DBAPIError ''duplicate key: bank_idempotency_key''), d))"

subsection \<open>The invariant of the tables\<close>

text \<open>
  Life of a payout: queued without a key, sending with a key, paid with a key. A payout is
  made from exactly one executing settlement and carries its merchant, amount and currency;
  no settlement has two payouts; no two payouts share an idempotency key.
\<close>

definition payout_ok :: "payout \<Rightarrow> bool" where
  "payout_ok p \<longleftrightarrow>
     p_state p = ''queued'' \<and> p_key p = None \<and> p_bank_ref p = None
   \<or> p_state p = ''sending'' \<and> p_key p \<noteq> None \<and> p_bank_ref p = None
   \<or> p_state p = ''paid'' \<and> p_key p \<noteq> None"

definition from_settlement :: "settlement \<Rightarrow> payout \<Rightarrow> bool" where
  "from_settlement s p \<longleftrightarrow>
     s_id s = p_settlement p \<and> s_status s = ''executing'' \<and> s_merchant s = p_merchant p
   \<and> s_amount s = p_amount p \<and> s_currency s = p_currency p"

definition db_ok :: "db \<Rightarrow> bool" where
  "db_ok d \<longleftrightarrow>
     distinct (map s_id (settlements d)) \<and> distinct (map p_id (payouts d))
   \<and> distinct (map p_settlement (payouts d)) \<and> unique_keys (payouts d)
   \<and> (\<forall>p \<in> set (payouts d). payout_ok p)
   \<and> (\<forall>p \<in> set (payouts d). \<exists>s \<in> set (settlements d). from_settlement s p)
   \<and> (\<forall>s \<in> set (settlements d). 0 \<le> s_amount s)"

definition empty_db :: "int list \<Rightarrow> db" where
  "empty_db ms = \<lparr>merchants = ms, settlements = [], payouts = []\<rparr>"

lemma payouts_empty_db: "payouts (empty_db ms) = []"
  by (simp add: empty_db_def)

lemma db_ok_empty: "db_ok (empty_db ms)"
  by (simp add: db_ok_def empty_db_def unique_keys_def)

lemma payout_row_some: "payout_row d pid = Some p \<Longrightarrow> p \<in> set (payouts d) \<and> p_id p = pid"
  by (auto simp: payout_row_def dest: find_some_mem)

lemma payout_row_mem: "db_ok d \<Longrightarrow> p \<in> set (payouts d) \<Longrightarrow> payout_row d (p_id p) = Some p"
  by (simp add: payout_row_def db_ok_def find_unique_key)

lemma payout_row_none: "payout_row d pid = None \<longleftrightarrow> (\<forall>p \<in> set (payouts d). p_id p \<noteq> pid)"
  by (auto simp: payout_row_def find_None_iff)

lemma db_ok_same_key:
  assumes "db_ok d" and "p \<in> set (payouts d)" and "q \<in> set (payouts d)"
    and "p_key p = Some k" and "p_key q = Some k"
  shows "p = q"
  using assms distinct_non_nulls_eq [of p_key "payouts d"] by (auto simp: db_ok_def unique_keys_def)

text \<open>
  An update that keeps every column but the state, the key and the bank reference, and
  keeps the rows well formed, keeps the whole invariant: the index has refused the rest.
\<close>

definition keeps_identity :: "(payout \<Rightarrow> payout) \<Rightarrow> bool" where
  "keeps_identity f \<longleftrightarrow> (\<forall>p. p_id (f p) = p_id p \<and> p_settlement (f p) = p_settlement p
     \<and> p_merchant (f p) = p_merchant p \<and> p_amount (f p) = p_amount p \<and> p_currency (f p) = p_currency p)"

lemma update_payouts_ok:
  assumes ok: "db_ok d" and id: "keeps_identity f"
    and rows: "\<And>p. p \<in> set (payouts d) \<Longrightarrow> P p \<Longrightarrow> payout_ok p \<Longrightarrow> payout_ok (f p)"
  shows "db_ok (snd (update_payouts P f d))"
proof (cases "unique_keys (snd (sql_update P f (payouts d)))")
  case True
  let ?t = "map (\<lambda>r. if P r then f r else r) (payouts d)"
  have "map p_id ?t = map p_id (payouts d)"
    by (rule map_key_update) (use id in \<open>simp add: keeps_identity_def\<close>)
  with ok have "distinct (map p_id ?t)" unfolding db_ok_def by (simp only:)
  moreover have "map p_settlement ?t = map p_settlement (payouts d)"
    by (rule map_key_update) (use id in \<open>simp add: keeps_identity_def\<close>)
  with ok have "distinct (map p_settlement ?t)" unfolding db_ok_def by (simp only:)
  moreover have "\<forall>p \<in> set ?t. payout_ok p"
    using ok rows by (auto simp: db_ok_def)
  moreover have "from_settlement s (f p) = from_settlement s p" for s p
    using id by (simp add: keeps_identity_def from_settlement_def)
  then have "\<forall>p \<in> set ?t. \<exists>s \<in> set (settlements d). from_settlement s p"
    using ok by (auto simp: db_ok_def)
  moreover have "snd (update_payouts P f d) = d\<lparr>payouts := ?t\<rparr>"
    using True by (simp add: update_payouts_def sql_update_def)
  ultimately show ?thesis
    using ok True by (simp add: db_ok_def sql_update_def)
next
  case False
  with ok show ?thesis by (simp add: update_payouts_def split_def)
qed

lemma insert_settlement_ok:
  assumes "db_ok d" shows "db_ok (snd (insert_settlement s d))"
  using assms
  by (auto simp: insert_settlement_def db_ok_def split: option.splits)

lemma insert_payout_ok:
  assumes ok: "db_ok d" and new: "payout_ok p" "p_key p = None"
    and s: "s \<in> set (settlements d)" "from_settlement s p"
    and once: "\<forall>q \<in> set (payouts d). p_settlement q \<noteq> p_settlement p"
  shows "db_ok (snd (insert_payout p d))"
  using assms
  by (auto simp: insert_payout_def db_ok_def unique_keys_def image_iff)

lemma insert_payout_result:
  "insert_payout p d = (Inr pid, d') \<Longrightarrow>
     pid = p_id p \<and> d' = d\<lparr>payouts := payouts d @ [p]\<rparr> \<and> payout_row d pid = None"
  by (auto simp: insert_payout_def payout_row_none split: if_splits)

end
