(* ===== verification/Queue.thy ===== *)
theory Queue
  imports Prelude "HOL-Library.Sublist"
begin

section \<open>The job queue: key names of queue.py and the Redis interface\<close>

text \<open>
  The key names of \<^verbatim>\<open>app/settle/queue.py\<close> and the contract of the Redis service. Redis
  is not part of the repository: the commands the code uses are the fields of the record
  \<open>redis_api\<close>, an argument of every definition that talks to Redis, and the locale
  \<open>redis_service\<close> states their documented behaviour on the keys the code uses them with.
  The commands are read through three views, \<open>lrange\<close> (the whole list, \<open>LRANGE k 0 -1\<close>),
  \<open>zscores\<close> (the members of a sorted set with their scores) and \<open>expiry\<close> (the instant
  a key with a TTL expires). An in-memory store satisfies the contract.
\<close>

subsection \<open>Key names\<close>

definition JOBS :: string where "JOBS = ''settle:jobs''"
definition RETRY :: string where "RETRY = ''settle:retry''"
definition DEAD :: string where "DEAD = ''settle:dead''"
definition PROCESSING_PREFIX :: string where "PROCESSING_PREFIX = ''settle:processing:''"
definition HEARTBEAT_PREFIX :: string where "HEARTBEAT_PREFIX = ''settle:worker:''"

definition processing_key :: "string \<Rightarrow> string" where
  "processing_key worker_id = PROCESSING_PREFIX @ worker_id"

definition heartbeat_key :: "string \<Rightarrow> string" where
  "heartbeat_key worker_id = HEARTBEAT_PREFIX @ worker_id @ '':alive''"

text \<open>\<open>ping\<close>: whether the server answers; only a Redis error is caught.\<close>

definition redis_ping :: "bool res \<Rightarrow> bool res" where
  "redis_ping answer = (case answer of Inl (RedisError m) \<Rightarrow> Inr False | _ \<Rightarrow> answer)"

lemmas key_defs = JOBS_def RETRY_def DEAD_def PROCESSING_PREFIX_def HEARTBEAT_PREFIX_def
  processing_key_def heartbeat_key_def

text \<open>The type of value each key holds; Redis rejects a list command on another type.\<close>

definition list_key :: "string \<Rightarrow> bool" where
  "list_key k \<longleftrightarrow> k = JOBS \<or> k = DEAD \<or> prefix PROCESSING_PREFIX k"

definition zset_key :: "string \<Rightarrow> bool" where
  "zset_key k \<longleftrightarrow> k = RETRY"

definition lease_key :: "string \<Rightarrow> bool" where
  "lease_key k \<longleftrightarrow> prefix HEARTBEAT_PREFIX k"

lemma processing_key_inject [simp]: "processing_key a = processing_key b \<longleftrightarrow> a = b"
  by (simp add: processing_key_def)

lemma heartbeat_key_inject [simp]: "heartbeat_key a = heartbeat_key b \<longleftrightarrow> a = b"
  by (simp add: heartbeat_key_def)

lemma key_kinds [simp]:
  "list_key JOBS" "list_key DEAD" "list_key (processing_key w)" "zset_key RETRY"
  "lease_key (heartbeat_key w)"
  by (simp_all add: list_key_def zset_key_def lease_key_def processing_key_def heartbeat_key_def)

lemma keys_distinct [simp]:
  "JOBS \<noteq> DEAD" "DEAD \<noteq> JOBS" "processing_key w \<noteq> JOBS" "JOBS \<noteq> processing_key w"
  "processing_key w \<noteq> DEAD" "DEAD \<noteq> processing_key w"
  by (simp_all add: key_defs)

lemma prefixed_key: "prefix PROCESSING_PREFIX k \<Longrightarrow> k = processing_key (drop (length PROCESSING_PREFIX) k)"
  by (auto simp: processing_key_def prefix_def)

lemma list_key_cases: "list_key k \<longleftrightarrow> k = JOBS \<or> k = DEAD \<or> (\<exists>w. k = processing_key w)"
  by (auto simp: list_key_def processing_key_def prefix_def)

subsection \<open>The commands\<close>

datatype side = LEFT | RIGHT

record 'r redis_api =
  lpush :: "string \<Rightarrow> payload \<Rightarrow> 'r \<Rightarrow> 'r"
  rpush :: "string \<Rightarrow> payload \<Rightarrow> 'r \<Rightarrow> 'r"
  lrem1 :: "string \<Rightarrow> payload \<Rightarrow> 'r \<Rightarrow> 'r"
  lmove :: "string \<Rightarrow> string \<Rightarrow> side \<Rightarrow> side \<Rightarrow> 'r \<Rightarrow> payload option \<times> 'r"
  zadd :: "string \<Rightarrow> payload \<Rightarrow> real \<Rightarrow> 'r \<Rightarrow> 'r"
  zrem :: "string \<Rightarrow> payload \<Rightarrow> 'r \<Rightarrow> 'r"
  zcard :: "string \<Rightarrow> 'r \<Rightarrow> nat"
  zrangebyscore :: "string \<Rightarrow> real \<Rightarrow> nat \<Rightarrow> 'r \<Rightarrow> payload list"
  set_ex :: "string \<Rightarrow> string \<Rightarrow> real \<Rightarrow> int \<Rightarrow> 'r \<Rightarrow> 'r"
  delete_key :: "string \<Rightarrow> 'r \<Rightarrow> 'r"
  exists_key :: "string \<Rightarrow> real \<Rightarrow> 'r \<Rightarrow> bool"
  scan_prefix :: "string \<Rightarrow> 'r \<Rightarrow> string list"
  lrange :: "'r \<Rightarrow> string \<Rightarrow> payload list"
  zscores :: "'r \<Rightarrow> string \<Rightarrow> payload \<Rightarrow> real option"
  expiry :: "'r \<Rightarrow> string \<Rightarrow> real option"

text \<open>\<open>LMOVE\<close> takes an element from one end of the source and puts it at one end of the target.\<close>

fun taken :: "side \<Rightarrow> 'a list \<Rightarrow> 'a" where
  "taken LEFT xs = hd xs"
| "taken RIGHT xs = last xs"

fun remaining :: "side \<Rightarrow> 'a list \<Rightarrow> 'a list" where
  "remaining LEFT xs = tl xs"
| "remaining RIGHT xs = butlast xs"

fun put_at :: "side \<Rightarrow> 'a \<Rightarrow> 'a list \<Rightarrow> 'a list" where
  "put_at LEFT x xs = x # xs"
| "put_at RIGHT x xs = xs @ [x]"

definition moved :: "string \<Rightarrow> string \<Rightarrow> side \<Rightarrow> side \<Rightarrow> (string \<Rightarrow> 'a list) \<Rightarrow> string \<Rightarrow> 'a list" where
  "moved src dst a b ls =
     (let x = taken a (ls src); ls' = ls(src := remaining a (ls src)) in ls'(dst := put_at b x (ls' dst)))"

locale redis_service =
  fixes R :: "'r redis_api"
  assumes lpush_list [simp]: "list_key k \<Longrightarrow> lrange R (lpush R k x r) = (lrange R r)(k := x # lrange R r k)"
    and lpush_zset [simp]: "list_key k \<Longrightarrow> zscores R (lpush R k x r) = zscores R r"
    and lpush_lease [simp]: "list_key k \<Longrightarrow> expiry R (lpush R k x r) = expiry R r"
    and rpush_list [simp]: "list_key k \<Longrightarrow> lrange R (rpush R k x r) = (lrange R r)(k := lrange R r k @ [x])"
    and rpush_zset [simp]: "list_key k \<Longrightarrow> zscores R (rpush R k x r) = zscores R r"
    and rpush_lease [simp]: "list_key k \<Longrightarrow> expiry R (rpush R k x r) = expiry R r"
    and lrem_list [simp]: "list_key k \<Longrightarrow> lrange R (lrem1 R k x r) = (lrange R r)(k := remove1 x (lrange R r k))"
    and lrem_zset [simp]: "list_key k \<Longrightarrow> zscores R (lrem1 R k x r) = zscores R r"
    and lrem_lease [simp]: "list_key k \<Longrightarrow> expiry R (lrem1 R k x r) = expiry R r"
    and lmove_empty [simp]:
      "list_key k \<Longrightarrow> list_key k' \<Longrightarrow> lrange R r k = [] \<Longrightarrow> lmove R k k' a b r = (None, r)"
    and lmove_reply: "list_key k \<Longrightarrow> list_key k' \<Longrightarrow> lrange R r k \<noteq> [] \<Longrightarrow>
        fst (lmove R k k' a b r) = Some (taken a (lrange R r k))"
    and lmove_list: "list_key k \<Longrightarrow> list_key k' \<Longrightarrow> lrange R r k \<noteq> [] \<Longrightarrow>
        lrange R (snd (lmove R k k' a b r)) = moved k k' a b (lrange R r)"
    and lmove_zset [simp]: "list_key k \<Longrightarrow> list_key k' \<Longrightarrow> zscores R (snd (lmove R k k' a b r)) = zscores R r"
    and lmove_lease [simp]: "list_key k \<Longrightarrow> list_key k' \<Longrightarrow> expiry R (snd (lmove R k k' a b r)) = expiry R r"
    and zadd_list [simp]: "zset_key z \<Longrightarrow> lrange R (zadd R z x s r) = lrange R r"
    and zadd_zset [simp]: "zset_key z \<Longrightarrow>
        zscores R (zadd R z x s r) = (zscores R r)(z := (zscores R r z)(x \<mapsto> s))"
    and zadd_lease [simp]: "zset_key z \<Longrightarrow> expiry R (zadd R z x s r) = expiry R r"
    and zrem_list [simp]: "zset_key z \<Longrightarrow> lrange R (zrem R z x r) = lrange R r"
    and zrem_zset [simp]: "zset_key z \<Longrightarrow>
        zscores R (zrem R z x r) = (zscores R r)(z := (zscores R r z)(x := None))"
    and zrem_lease [simp]: "zset_key z \<Longrightarrow> expiry R (zrem R z x r) = expiry R r"
    and zset_finite [simp]: "zset_key z \<Longrightarrow> finite (dom (zscores R r z))"
    and zcard_card: "zset_key z \<Longrightarrow> zcard R z r = card (dom (zscores R r z))"
    and zrange_due: "zset_key z \<Longrightarrow> x \<in> set (zrangebyscore R z hi n r) \<Longrightarrow>
        \<exists>s. zscores R r z x = Some s \<and> s \<le> hi"
    and zrange_distinct: "zset_key z \<Longrightarrow> distinct (zrangebyscore R z hi n r)"
    and zrange_length: "zset_key z \<Longrightarrow>
        length (zrangebyscore R z hi n r) = min n (card {x. \<exists>s. zscores R r z x = Some s \<and> s \<le> hi})"
    and set_ex_list [simp]: "lease_key h \<Longrightarrow> lrange R (set_ex R h v now ttl r) = lrange R r"
    and set_ex_zset [simp]: "lease_key h \<Longrightarrow> zscores R (set_ex R h v now ttl r) = zscores R r"
    and set_ex_lease [simp]: "lease_key h \<Longrightarrow>
        expiry R (set_ex R h v now ttl r) = (expiry R r)(h \<mapsto> now + real_of_int ttl)"
    and delete_list [simp]: "lease_key h \<Longrightarrow> lrange R (delete_key R h r) = lrange R r"
    and delete_zset [simp]: "lease_key h \<Longrightarrow> zscores R (delete_key R h r) = zscores R r"
    and delete_lease [simp]: "lease_key h \<Longrightarrow> expiry R (delete_key R h r) = (expiry R r)(h := None)"
    and exists_iff: "lease_key h \<Longrightarrow>
        exists_key R h now r \<longleftrightarrow> (\<exists>t. expiry R r h = Some t \<and> now < t)"
    and scan_prefixed: "k \<in> set (scan_prefix R p r) \<Longrightarrow> prefix p k"
    and scan_complete: "list_key k \<Longrightarrow> prefix p k \<Longrightarrow> lrange R r k \<noteq> [] \<Longrightarrow> k \<in> set (scan_prefix R p r)"
begin

lemma zrange_all_due:
  assumes "zset_key z" and "length (zrangebyscore R z hi n r) < n"
  shows "set (zrangebyscore R z hi n r) = {x. \<exists>s. zscores R r z x = Some s \<and> s \<le> hi}"
proof (rule card_subset_eq)
  show "finite {x. \<exists>s. zscores R r z x = Some s \<and> s \<le> hi}"
    by (rule finite_subset [OF _ zset_finite [OF assms(1), of r]]) auto
  show "set (zrangebyscore R z hi n r) \<subseteq> {x. \<exists>s. zscores R r z x = Some s \<and> s \<le> hi}"
    using zrange_due [OF assms(1)] by blast
  have "card (set (zrangebyscore R z hi n r)) = length (zrangebyscore R z hi n r)"
    by (rule distinct_card [OF zrange_distinct [OF assms(1)]])
  with zrange_length [OF assms(1), of hi n r] assms(2)
  show "card (set (zrangebyscore R z hi n r)) = card {x. \<exists>s. zscores R r z x = Some s \<and> s \<le> hi}"
    by linarith
qed

lemma lmove_right_left:
  assumes "list_key k" "list_key k'" "k \<noteq> k'" "lrange R r k = xs @ [x]"
  shows "fst (lmove R k k' RIGHT LEFT r) = Some x"
    and "lrange R (snd (lmove R k k' RIGHT LEFT r)) = (lrange R r)(k := xs, k' := x # lrange R r k')"
  using assms lmove_reply [of k k' r RIGHT LEFT] lmove_list [of k k' r RIGHT LEFT]
  by (auto simp: moved_def)

lemma lmove_right_right:
  assumes "list_key k" "list_key k'" "k \<noteq> k'" "lrange R r k = xs @ [x]"
  shows "fst (lmove R k k' RIGHT RIGHT r) = Some x"
    and "lrange R (snd (lmove R k k' RIGHT RIGHT r)) = (lrange R r)(k := xs, k' := lrange R r k' @ [x])"
  using assms lmove_reply [of k k' r RIGHT RIGHT] lmove_list [of k k' r RIGHT RIGHT]
  by (auto simp: moved_def)

text \<open>
  \<open>LPUSH\<close> at one end and \<open>BLMOVE .. RIGHT LEFT\<close> from the other make a FIFO queue: the
  element handed out is the oldest one.
\<close>

lemma fifo_fetch:
  assumes "list_key k'" "k' \<noteq> JOBS"
  shows "fst (lmove R JOBS k' RIGHT LEFT r) = (if lrange R r JOBS = [] then None else Some (last (lrange R r JOBS)))"
    and "lrange R (snd (lmove R JOBS k' RIGHT LEFT r)) JOBS = butlast (lrange R r JOBS)"
  using assms lmove_reply [of JOBS k' r RIGHT LEFT] lmove_list [of JOBS k' r RIGHT LEFT]
  by (cases "lrange R r JOBS = []"; simp add: moved_def)+

end

subsection \<open>An in-memory store that satisfies the contract\<close>

record mem =
  m_lists :: "(string \<times> payload list) list"
  m_zsets :: "(string \<times> (payload \<times> real) list) list"
  m_leases :: "(string \<times> real) list"

definition m_list :: "mem \<Rightarrow> string \<Rightarrow> payload list" where
  "m_list r k = (case map_of (m_lists r) k of None \<Rightarrow> [] | Some xs \<Rightarrow> xs)"

definition m_zset :: "mem \<Rightarrow> string \<Rightarrow> (payload \<times> real) list" where
  "m_zset r z = (case map_of (m_zsets r) z of None \<Rightarrow> [] | Some xs \<Rightarrow> xs)"

definition m_put :: "string \<Rightarrow> payload list \<Rightarrow> mem \<Rightarrow> mem" where
  "m_put k xs r = r\<lparr>m_lists := AList.update k xs (m_lists r)\<rparr>"

definition m_zput :: "string \<Rightarrow> (payload \<times> real) list \<Rightarrow> mem \<Rightarrow> mem" where
  "m_zput z xs r = r\<lparr>m_zsets := AList.update z xs (m_zsets r)\<rparr>"

definition m_due :: "string \<Rightarrow> real \<Rightarrow> mem \<Rightarrow> (payload \<times> real) list" where
  "m_due z hi r = sort_key snd (filter (\<lambda>p. snd p \<le> hi) (AList.clearjunk (m_zset r z)))"

definition m_move :: "string \<Rightarrow> string \<Rightarrow> side \<Rightarrow> side \<Rightarrow> mem \<Rightarrow> payload option \<times> mem" where
  "m_move k k' a b r =
     (if m_list r k = [] then (None, r)
      else let x = taken a (m_list r k); r' = m_put k (remaining a (m_list r k)) r
           in (Some x, m_put k' (put_at b x (m_list r' k')) r'))"

definition mem_redis :: "mem redis_api" where
  "mem_redis =
     \<lparr>lpush = (\<lambda>k x r. m_put k (x # m_list r k) r),
      rpush = (\<lambda>k x r. m_put k (m_list r k @ [x]) r),
      lrem1 = (\<lambda>k x r. m_put k (remove1 x (m_list r k)) r),
      lmove = m_move,
      zadd = (\<lambda>z x s r. m_zput z (AList.update x s (m_zset r z)) r),
      zrem = (\<lambda>z x r. m_zput z (AList.delete x (m_zset r z)) r),
      zcard = (\<lambda>z r. length (AList.clearjunk (m_zset r z))),
      zrangebyscore = (\<lambda>z hi n r. take n (map fst (m_due z hi r))),
      set_ex = (\<lambda>h v now ttl r. r\<lparr>m_leases := AList.update h (now + real_of_int ttl) (m_leases r)\<rparr>),
      delete_key = (\<lambda>h r. r\<lparr>m_leases := AList.delete h (m_leases r)\<rparr>),
      exists_key = (\<lambda>h now r. case map_of (m_leases r) h of None \<Rightarrow> False | Some t \<Rightarrow> now < t),
      scan_prefix = (\<lambda>p r. filter (prefix p) (map fst (m_lists r))),
      lrange = m_list,
      zscores = (\<lambda>r z. map_of (m_zset r z)),
      expiry = (\<lambda>r. map_of (m_leases r))\<rparr>"

lemma m_list_put [simp]: "m_list (m_put k xs r) = (m_list r)(k := xs)"
  by (auto simp: m_list_def m_put_def update_conv' fun_eq_iff)

lemma m_zset_zput [simp]: "m_zset (m_zput z xs r) = (m_zset r)(z := xs)"
  by (auto simp: m_zset_def m_zput_def update_conv' fun_eq_iff)

lemma m_frames [simp]:
  "m_zset (m_put k xs r) = m_zset r" "m_leases (m_put k xs r) = m_leases r"
  "m_list (m_zput z ys r) = m_list r" "m_leases (m_zput z ys r) = m_leases r"
  "m_zset (r\<lparr>m_leases := l\<rparr>) = m_zset r" "m_list (r\<lparr>m_leases := l\<rparr>) = m_list r"
  by (auto simp: m_put_def m_zput_def m_zset_def m_list_def fun_eq_iff)

lemma m_due_set: "set (map fst (m_due z hi r)) = {x. \<exists>s. map_of (m_zset r z) x = Some s \<and> s \<le> hi}"
proof -
  have "distinct (map fst (AList.clearjunk (m_zset r z)))" by (rule distinct_clearjunk)
  then have "(x, s) \<in> set (AList.clearjunk (m_zset r z)) \<longleftrightarrow> map_of (m_zset r z) x = Some s" for x s
    by (metis map_of_clearjunk map_of_eq_Some_iff)
  then show ?thesis by (force simp: m_due_def)
qed

lemma m_due_distinct: "distinct (map fst (m_due z hi r))"
proof -
  have "distinct (map fst (filter (\<lambda>p. snd p \<le> hi) (AList.clearjunk (m_zset r z))))"
    by (rule distinct_map_filter [OF distinct_clearjunk])
  then show ?thesis
    unfolding m_due_def by (metis distinct_map distinct_sort set_sort)
qed

lemma scan_keys: "m_list r k \<noteq> [] \<Longrightarrow> k \<in> fst ` set (m_lists r)"
  by (auto simp: m_list_def split: option.splits dest!: map_of_SomeD intro: rev_image_eqI)

interpretation mem: redis_service mem_redis
proof unfold_locales
  fix z hi n r assume "zset_key z"
  show "length (zrangebyscore mem_redis z hi n r) =
      min n (card {x. \<exists>s. zscores mem_redis r z x = Some s \<and> s \<le> hi})"
    using distinct_card [OF m_due_distinct, of z hi r]
    by (simp add: mem_redis_def flip: m_due_set)
next
  fix z r assume "zset_key z"
  show "zcard mem_redis z r = card (dom (zscores mem_redis r z))"
    by (simp add: mem_redis_def length_clearjunk dom_map_of_conv_image_fst)
       (metis clearjunk_keys_set distinct_card distinct_clearjunk length_map list.set_map)
next
  fix z x hi n r assume "zset_key z" "x \<in> set (zrangebyscore mem_redis z hi n r)"
  then show "\<exists>s. zscores mem_redis r z x = Some s \<and> s \<le> hi"
    using m_due_set [of z hi r] by (auto simp: mem_redis_def dest!: in_set_takeD)
qed (auto simp: mem_redis_def m_move_def moved_def update_conv' delete_conv' m_due_distinct
       finite_dom_map_of scan_keys fun_eq_iff Let_def split: option.splits)

end
