(* ===== verification/Numbers.thy ===== *)
theory Numbers
  imports Prelude
begin

section \<open>Numbers and dates as texts: float(), repr(), fixed-point formats, isoformat()\<close>

text \<open>
  Python's floating point numbers are reals here, with the two infinities and the value that is
  not a number as separate constructors. \<open>py_float\<close> is the parser \<open>float(s)\<close>, \<open>fixed\<close> the format
  \<^verbatim>\<open>f"{x:.3f}"\<close> of a number that was rounded, and \<open>repr_float\<close> the text of \<open>repr\<close> for numbers
  with at most sixteen decimals; reading back what was written gives the number.
\<close>

datatype pyf = Fin real | PosInf | NegInf | NotANumber

text \<open>\<open>x <= b\<close>, \<open>x - y\<close> and \<open>x == 0\<close>: no comparison with a value that is not a number holds.\<close>

fun pyf_le :: "pyf \<Rightarrow> real \<Rightarrow> bool" where
  "pyf_le (Fin x) b = (x \<le> b)"
| "pyf_le NegInf b = True"
| "pyf_le _ b = False"

fun pyf_sub :: "pyf \<Rightarrow> pyf \<Rightarrow> pyf" where
  "pyf_sub (Fin x) (Fin y) = Fin (x - y)"
| "pyf_sub (Fin x) PosInf = NegInf"
| "pyf_sub (Fin x) NegInf = PosInf"
| "pyf_sub PosInf (Fin y) = PosInf"
| "pyf_sub PosInf NegInf = PosInf"
| "pyf_sub NegInf (Fin y) = NegInf"
| "pyf_sub NegInf PosInf = NegInf"
| "pyf_sub _ _ = NotANumber"

subsection \<open>Rounding\<close>

text \<open>\<open>round(x, n)\<close>: half to even.\<close>

definition py_round_int :: "real \<Rightarrow> int" where
  "py_round_int x =
     (let f = \<lfloor>x\<rfloor>; r = x - of_int f
      in if r < 1 / 2 then f else if r > 1 / 2 then f + 1 else if even f then f else f + 1)"

definition py_round :: "real \<Rightarrow> nat \<Rightarrow> real" where
  "py_round x n = of_int (py_round_int (x * 10 ^ n)) / 10 ^ n"

lemma round_int_high:
  assumes "x \<le> of_int m"
  shows "py_round_int x \<le> m"
proof (cases "\<lfloor>x\<rfloor> < m")
  case True
  then show ?thesis by (auto simp: py_round_int_def Let_def)
next
  case False
  then have "x = of_int m" using assms by linarith
  then show ?thesis by (simp add: py_round_int_def Let_def)
qed

lemma round_int_low: "of_int m \<le> x \<Longrightarrow> m \<le> py_round_int x"
  using le_floor_iff [of m x] by (auto simp: py_round_int_def Let_def)

subsection \<open>Reading a float\<close>

definition lower_char :: "char \<Rightarrow> char" where
  "lower_char c = (let n = (of_char c :: nat) in if 65 \<le> n \<and> n \<le> 90 then char_of (n + 32) else c)"

text \<open>An optional sign; a part of digits, with its value and the number of its digits.\<close>

definition split_sign :: "string \<Rightarrow> bool \<times> string" where
  "split_sign s =
     (case s of c # u \<Rightarrow> if c = CHR ''-'' then (True, u) else if c = CHR ''+'' then (False, u) else (False, s)
      | [] \<Rightarrow> (False, []))"

definition digit_part :: "string \<Rightarrow> (nat \<times> nat) option" where
  "digit_part s = map_option (\<lambda>n. (n, length (filter is_digit s))) (scan_digits False 0 s)"

text \<open>The text before the first character with \<open>P\<close>, and the text after it if there is one.\<close>

definition split_first :: "(char \<Rightarrow> bool) \<Rightarrow> string \<Rightarrow> string \<times> string option" where
  "split_first P s =
     (case dropWhile (\<lambda>c. \<not> P c) s of
        [] \<Rightarrow> (s, None) | c # rest \<Rightarrow> (takeWhile (\<lambda>c. \<not> P c) s, Some rest))"

definition mantissa :: "string \<Rightarrow> real option" where
  "mantissa s =
     (case split_first (\<lambda>c. c = CHR ''.'') s of
        (ip, None) \<Rightarrow> map_option (\<lambda>(n, k). real n) (digit_part ip)
      | (ip, Some fp) \<Rightarrow>
          (if ip = [] then map_option (\<lambda>(n, k). real n / 10 ^ k) (digit_part fp)
           else if fp = [] then map_option (\<lambda>(n, k). real n) (digit_part ip)
           else (case (digit_part ip, digit_part fp) of
                   (Some (n, _), Some (m, k)) \<Rightarrow> Some (real n + real m / 10 ^ k)
                 | _ \<Rightarrow> None)))"

definition exponent :: "string \<Rightarrow> int option" where
  "exponent s =
     (let (neg, u) = split_sign s
      in map_option (\<lambda>(n, k). if neg then - int n else int n) (digit_part u))"

definition unsigned_float :: "string \<Rightarrow> real option" where
  "unsigned_float s =
     (case split_first (\<lambda>c. lower_char c = CHR ''e'') s of
        (m, None) \<Rightarrow> mantissa m
      | (m, Some e) \<Rightarrow>
          (case (mantissa m, exponent e) of
             (Some x, Some i) \<Rightarrow> Some (x * 10 powi i)
           | _ \<Rightarrow> None))"

definition py_float :: "string \<Rightarrow> pyf res" where
  "py_float s =
     (let (neg, u) = split_sign (strip s); l = map lower_char u
      in if l = ''inf'' \<or> l = ''infinity'' then Inr (if neg then NegInf else PosInf)
         else if l = ''nan'' then Inr NotANumber
         else (case unsigned_float u of
                 None \<Rightarrow> Inl (ValueError ''could not convert string to float'')
               | Some x \<Rightarrow> Inr (Fin (if neg then - x else x))))"

text \<open>\<open>float(v)\<close> of a JSON value.\<close>

fun json_float :: "json \<Rightarrow> pyf res" where
  "json_float (JStr s) = py_float s"
| "json_float (JInt i) = Inr (Fin (of_int i))"
| "json_float (JBool b) = Inr (Fin (if b then 1 else 0))"
| "json_float (JFloat x) = Inr (Fin x)"
| "json_float _ = Inl (TypeError ''float() argument must be a string or a real number'')"

subsection \<open>Writing a number\<close>

text \<open>A non-negative number with leading zeros; \<open>m / 10 ^ k\<close> with \<open>k\<close> decimals.\<close>

definition padded :: "nat \<Rightarrow> int \<Rightarrow> string" where
  "padded k n = (let s = str_nat (nat n) in replicate (k - length s) (CHR ''0'') @ s)"

definition fixed_nat :: "nat \<Rightarrow> int \<Rightarrow> string" where
  "fixed_nat k m =
     (if k = 0 then str_nat (nat m)
      else str_nat (nat (m div 10 ^ k)) @ ''.'' @ padded k (m mod 10 ^ k))"

text \<open>\<^verbatim>\<open>f"{x:.kf}"\<close>: the sign is kept when the digits round to zero.\<close>

definition fixed :: "nat \<Rightarrow> real \<Rightarrow> string" where
  "fixed k x = (if x < 0 then ''-'' else '''') @ fixed_nat k (py_round_int (\<bar>x\<bar> * 10 ^ k))"

fun fixed_pyf :: "nat \<Rightarrow> real \<Rightarrow> pyf \<Rightarrow> string" where
  "fixed_pyf k scale (Fin x) = fixed k (scale * x)"
| "fixed_pyf k scale PosInf = ''inf''"
| "fixed_pyf k scale NegInf = ''-inf''"
| "fixed_pyf k scale NotANumber = ''nan''"

text \<open>The least number of decimals (at least one) that gives \<open>x\<close> exactly; sixteen if there is none.\<close>

definition decimals :: "real \<Rightarrow> nat" where
  "decimals x =
     (case find (\<lambda>k. of_int \<lfloor>\<bar>x\<bar> * 10 ^ k\<rfloor> = \<bar>x\<bar> * 10 ^ k) [1..<16] of None \<Rightarrow> 16 | Some k \<Rightarrow> k)"

definition repr_float :: "real \<Rightarrow> string" where
  "repr_float x = (if x < 0 then ''-'' else '''') @ fixed_nat (decimals x) \<lfloor>\<bar>x\<bar> * 10 ^ decimals x\<rfloor>"

subsection \<open>Dates\<close>

text \<open>
  A date is its ordinal in the Gregorian calendar, as in \<open>date.toordinal()\<close> (1 January of year 1
  is day 1); \<open>date_iso\<close> is \<open>isoformat()\<close>.
\<close>

definition leap :: "int \<Rightarrow> bool" where
  "leap y \<longleftrightarrow> y mod 4 = 0 \<and> (y mod 100 \<noteq> 0 \<or> y mod 400 = 0)"

definition month_lengths :: "int \<Rightarrow> int list" where
  "month_lengths y = [31, if leap y then 29 else 28, 31, 30, 31, 30, 31, 31, 30, 31, 30, 31]"

fun month_and_day :: "int list \<Rightarrow> int \<Rightarrow> int \<Rightarrow> int \<times> int" where
  "month_and_day (l # ls) m n = (if n < l \<or> ls = [] then (m, n + 1) else month_and_day ls (m + 1) (n - l))"
| "month_and_day [] m n = (m, n + 1)"

definition date_of_ordinal :: "int \<Rightarrow> int \<times> int \<times> int" where
  "date_of_ordinal ordinal =
     (let n = ordinal - 1; n400 = n div 146097; n = n mod 146097;
          n100 = min 3 (n div 36524); n = n - n100 * 36524;
          n4 = n div 1461; n = n mod 1461;
          n1 = min 3 (n div 365); n = n - n1 * 365;
          y = n400 * 400 + n100 * 100 + n4 * 4 + n1 + 1
      in (y, month_and_day (month_lengths y) 1 n))"

definition date_iso :: "int \<Rightarrow> string" where
  "date_iso ordinal =
     (case date_of_ordinal ordinal of (y, m, d) \<Rightarrow> padded 4 y @ ''-'' @ padded 2 m @ ''-'' @ padded 2 d)"

subsection \<open>Digits\<close>

lemma str_nat_all_digits: "list_all is_digit (str_nat n)"
  by (simp add: list_all_iff str_nat_is_digit)

lemma padded_all_digits: "list_all is_digit (padded k n)"
proof -
  have "is_digit (CHR ''0'')" by (simp add: is_digit_def)
  with str_nat_all_digits [of "nat n"] show ?thesis by (auto simp: padded_def Let_def list_all_iff)
qed

lemma padded_nonempty: "padded k n \<noteq> []"
  by (simp add: padded_def Let_def)

lemma str_nat_length: "n < 10 ^ k \<Longrightarrow> 0 < k \<Longrightarrow> length (str_nat n) \<le> k"
proof (induction k arbitrary: n)
  case (Suc k)
  show ?case
  proof (cases "n < 10")
    case True
    then show ?thesis by (simp add: str_nat.simps [of n])
  next
    case False
    with Suc.prems have "n div 10 < 10 ^ k" "0 < k" by (auto intro: gr0I simp: div_less_iff_less_mult)
    from Suc.IH [OF this] False show ?thesis by (simp add: str_nat.simps [of n])
  qed
qed simp

lemma length_padded: "0 \<le> n \<Longrightarrow> n < 10 ^ k \<Longrightarrow> 0 < k \<Longrightarrow> length (padded k n) = k"
  using str_nat_length [of "nat n" k] by (simp add: padded_def Let_def nat_less_iff)

definition value_from :: "nat \<Rightarrow> string \<Rightarrow> nat" where
  "value_from a s = foldl (\<lambda>a c. 10 * a + (of_char c - 48)) a s"

lemma value_from_zeros: "value_from 0 (replicate k (CHR ''0'') @ s) = value_from 0 s"
  by (induction k) (simp_all add: value_from_def)

lemma scan_all: "list_all is_digit s \<Longrightarrow> s \<noteq> [] \<Longrightarrow> scan_digits False 0 s = Some (value_from 0 s)"
  using scan_digits_all [of s False 0] by (simp add: list_all_iff value_from_def)

lemma value_from_padded: "0 \<le> n \<Longrightarrow> value_from 0 (padded k n) = nat n"
  using digits_val_str_nat [of "nat n"] value_from_zeros
  by (simp add: padded_def Let_def digits_val_def) (simp add: value_from_def)

lemma digit_part_digits:
  "list_all is_digit s \<Longrightarrow> s \<noteq> [] \<Longrightarrow> digit_part s = Some (value_from 0 s, length s)"
  by (simp add: digit_part_def scan_all list_all_iff filter_id_conv)

lemma digit_part_str_nat: "digit_part (str_nat n) = Some (n, length (str_nat n))"
  using digit_part_digits [OF str_nat_all_digits, of n] digits_val_str_nat [of n]
  by (simp add: value_from_def digits_val_def)

lemma digit_part_padded: "0 \<le> n \<Longrightarrow> digit_part (padded k n) = Some (nat n, length (padded k n))"
  using digit_part_digits [OF padded_all_digits padded_nonempty] by (simp add: value_from_padded)

subsection \<open>Reading back what was written\<close>

lemma split_first_none: "list_all (\<lambda>c. \<not> P c) s \<Longrightarrow> split_first P s = (s, None)" (is "_ \<Longrightarrow> ?thesis")
proof -
  assume "list_all (\<lambda>c. \<not> P c) s"
  then have "dropWhile (\<lambda>c. \<not> P c) s = []" by (simp add: list_all_iff)
  then show ?thesis unfolding split_first_def by (simp only: list.case)
qed

lemma split_first_some: "list_all (\<lambda>c. \<not> P c) s \<Longrightarrow> P c \<Longrightarrow> split_first P (s @ c # t) = (s, Some t)"
  by (simp add: split_first_def list_all_iff dropWhile_append takeWhile_append takeWhile_eq_all_conv)

lemma digit_not:
  "list_all is_digit s \<Longrightarrow> list_all (\<lambda>c. \<not> c = CHR ''.'') s"
  by (auto simp: list_all_iff is_digit_def)

lemma mantissa_fixed_nat:
  assumes "0 \<le> m"
  shows "mantissa (fixed_nat k m) = Some (of_int m / 10 ^ k)"
proof (cases "k = 0")
  case True
  then show ?thesis
    using split_first_none [of "\<lambda>c. c = CHR ''.''" "str_nat (nat m)"] digit_not [OF str_nat_all_digits] assms
    by (simp add: mantissa_def fixed_nat_def digit_part_str_nat)
next
  case False
  let ?ip = "str_nat (nat (m div 10 ^ k))" and ?fp = "padded k (m mod 10 ^ k)"
  have sp: "split_first (\<lambda>c. c = CHR ''.'') (?ip @ ''.'' @ ?fp) = (?ip, Some ?fp)"
    using split_first_some [of "\<lambda>c. c = CHR ''.''" ?ip "CHR ''.''" ?fp] digit_not [OF str_nat_all_digits] by simp
  have len: "length ?fp = k" using False by (intro length_padded) simp_all
  have "of_int m = (of_int (m div 10 ^ k) * 10 ^ k + of_int (m mod 10 ^ k) :: real)"
    by (simp only: div_mult_mod_eq flip: of_int_numeral [where 'a = real] of_int_power of_int_mult of_int_add)
  moreover have "0 \<le> m div 10 ^ k" using assms by (simp add: pos_imp_zdiv_nonneg_iff)
  ultimately have "real (nat (m div 10 ^ k)) + real (nat (m mod 10 ^ k)) / 10 ^ k = of_int m / 10 ^ k"
    by (simp add: add_divide_distrib)
  with False sp len show ?thesis
    by (simp add: mantissa_def fixed_nat_def digit_part_str_nat digit_part_padded padded_nonempty)
qed

lemma fixed_nat_chars: "c \<in> set (fixed_nat k m) \<Longrightarrow> is_digit c \<or> c = CHR ''.''"
  using str_nat_all_digits padded_all_digits by (fastforce simp: fixed_nat_def list_all_iff split: if_splits)

lemma fixed_nat_head: "\<exists>c u. fixed_nat k m = c # u \<and> is_digit c"
proof -
  have "\<exists>c u. str_nat n = c # u \<and> is_digit c" for n
    using str_nat_all_digits [of n] str_nat_nonempty [of n] by (cases "str_nat n") auto
  from this [of "nat m"] this [of "nat (m div 10 ^ k)"] show ?thesis by (auto simp: fixed_nat_def)
qed

lemma lower_char_digit: "is_digit c \<Longrightarrow> lower_char c = c"
  by (simp add: lower_char_def is_digit_def Let_def)

lemma unsigned_fixed_nat: "0 \<le> m \<Longrightarrow> unsigned_float (fixed_nat k m) = Some (of_int m / 10 ^ k)"
proof -
  have ne: "\<not> lower_char c = CHR ''e''" if "is_digit c \<or> c = CHR ''.''" for c
  proof -
    have dot: "lower_char (CHR ''.'') = CHR ''.''" by (simp add: lower_char_def)
    have "\<not> is_digit (CHR ''e'')" by (simp add: is_digit_def)
    from that show ?thesis
    proof
      assume c: "is_digit c"
      with \<open>\<not> is_digit (CHR ''e'')\<close> have "c \<noteq> CHR ''e''" by blast
      with lower_char_digit [OF c] show ?thesis by simp
    next
      assume "c = CHR ''.''"
      with dot show ?thesis by simp
    qed
  qed
  have "list_all (\<lambda>c. \<not> lower_char c = CHR ''e'') (fixed_nat k m)"
    unfolding list_all_iff by (intro ballI ne) (rule fixed_nat_chars)
  then show "0 \<le> m \<Longrightarrow> ?thesis" by (simp add: unsigned_float_def split_first_none mantissa_fixed_nat)
qed

lemma py_float_fixed_nat:
  assumes "0 \<le> m" and "sg = '''' \<or> sg = ''-''"
  shows "py_float (sg @ fixed_nat k m) = Inr (Fin (if sg = ''-'' then - (of_int m / 10 ^ k) else of_int m / 10 ^ k))"
proof -
  obtain c u where f: "fixed_nat k m = c # u" "is_digit c" using fixed_nat_head by blast
  have "\<not> py_space c" if "c \<in> set (sg @ fixed_nat k m)" for c
    using that assms(2) fixed_nat_chars [of c k m] by (auto simp: py_space_def is_digit_def Let_def)
  then have st: "strip (sg @ fixed_nat k m) = sg @ fixed_nat k m" by (intro strip_id) blast
  have sg: "split_sign (sg @ fixed_nat k m) = (sg = ''-'', fixed_nat k m)"
    using assms(2) f by (auto simp: split_sign_def is_digit_def)
  have "lower_char c = c" using f(2) by (rule lower_char_digit)
  then have "map lower_char (fixed_nat k m) \<noteq> ''inf''" "map lower_char (fixed_nat k m) \<noteq> ''infinity''"
      "map lower_char (fixed_nat k m) \<noteq> ''nan''"
    using f by (auto simp: is_digit_def)
  with assms(1) show ?thesis by (simp add: py_float_def st sg unsigned_fixed_nat Let_def)
qed

lemma decimals_exact:
  assumes "x * 10 ^ k = of_int m" and "0 < k" and "k < 16"
  shows "of_int \<lfloor>\<bar>x\<bar> * 10 ^ decimals x\<rfloor> = \<bar>x\<bar> * 10 ^ decimals x"
proof -
  have ex: "of_int \<lfloor>\<bar>x\<bar> * 10 ^ k\<rfloor> = \<bar>x\<bar> * 10 ^ k"
  proof -
    have "\<bar>x\<bar> * 10 ^ k = of_int \<bar>m\<bar>" using assms(1) by (simp flip: abs_mult) (metis abs_mult abs_numeral power_abs)
    then show ?thesis by simp
  qed
  then obtain j where "find (\<lambda>k. of_int \<lfloor>\<bar>x\<bar> * 10 ^ k\<rfloor> = \<bar>x\<bar> * 10 ^ k) [1..<16] = Some j"
    using assms(2,3) by (cases "find (\<lambda>k. of_int \<lfloor>\<bar>x\<bar> * 10 ^ k\<rfloor> = \<bar>x\<bar> * 10 ^ k) [1..<16]") (auto simp: find_None_iff)
  then show ?thesis by (auto simp: decimals_def dest: find_some_mem)
qed

lemma py_float_repr:
  assumes "x * 10 ^ k = of_int m" and "0 < k" and "k < 16"
  shows "py_float (repr_float x) = Inr (Fin x)"
proof -
  let ?m = "\<lfloor>\<bar>x\<bar> * 10 ^ decimals x\<rfloor>" and ?sg = "if x < 0 then ''-'' else ''''"
  have "of_int ?m / 10 ^ decimals x = \<bar>x\<bar>" by (subst decimals_exact [OF assms]) simp
  moreover have "0 \<le> ?m" by simp
  moreover have "?sg = '''' \<or> ?sg = ''-''" by simp
  ultimately show ?thesis
    using py_float_fixed_nat [of ?m ?sg "decimals x"] by (simp add: repr_float_def)
qed

lemma py_float_round: "0 < k \<Longrightarrow> k < 16 \<Longrightarrow> py_float (repr_float (py_round x k)) = Inr (Fin (py_round x k))"
  by (rule py_float_repr) (simp_all add: py_round_def)

lemma py_float_int: "py_float (str_int i) = Inr (Fin (of_int i))"
proof -
  have "str_int i = (if i < 0 then ''-'' else '''') @ fixed_nat 0 \<bar>i\<bar>"
    by (simp add: str_int_def fixed_nat_def)
  then show ?thesis using py_float_fixed_nat [of "\<bar>i\<bar>" "if i < 0 then ''-'' else ''''" 0] by simp
qed

subsection \<open>Numbers of at most fifteen decimals\<close>

text \<open>The floats that the program writes; their texts are read back.\<close>

definition decimal :: "real \<Rightarrow> bool" where
  "decimal x \<longleftrightarrow> (\<exists>k m. 0 < k \<and> k < 16 \<and> x * 10 ^ k = of_int m)"

lemma decimal_round: "0 < k \<Longrightarrow> k < 16 \<Longrightarrow> decimal (py_round x k)"
  unfolding decimal_def py_round_def by (intro exI [of _ k]) simp

lemma decimal_thousandth: "x * 1000 = of_int m \<Longrightarrow> decimal x"
  unfolding decimal_def by (intro exI [of _ 3] exI [of _ m]) simp

lemma decimal_int: "decimal (of_int m)"
  by (rule decimal_thousandth [of _ "1000 * m"]) simp

lemma py_float_decimal: "decimal x \<Longrightarrow> py_float (repr_float x) = Inr (Fin x)"
  unfolding decimal_def using py_float_repr by blast

lemma decimals_positive: "0 < decimals x"
proof -
  have "0 < k" if "find P [1..<16::nat] = Some k" for P k using find_some_mem [OF that] by auto
  then show ?thesis by (auto simp: decimals_def split: option.split)
qed

end
