(* ===== verification/Config.thy ===== *)
theory Config
  imports Numbers
begin

section \<open>Settings read from the environment: config.py\<close>

text \<open>
  \<^verbatim>\<open>app/settle/config.py\<close>: every setting is an environment variable with a default. The
  environment is a partial map. A float setting that is infinite or not a number, which the
  program would accept, is refused here.
\<close>

record config =
  DATABASE_URL :: string
  REDIS_URL :: string
  BANK_API_URL :: string
  DB_POOL_SIZE :: int
  DB_MAX_OVERFLOW :: int
  DB_POOL_TIMEOUT :: real
  DB_POOL_RECYCLE :: int
  DB_CONNECT_TIMEOUT :: int
  DB_STATEMENT_TIMEOUT_MS :: int
  REPORT_STATEMENT_TIMEOUT_MS :: int
  DB_LOCK_TIMEOUT_MS :: int
  LOG_LEVEL :: string
  WORKER_CONCURRENCY :: int
  WORKER_ID :: string
  WORKER_LEASE_SECONDS :: int
  WORKER_SHUTDOWN_TIMEOUT :: int
  WORKER_MAX_ATTEMPTS :: int
  WORKER_RETRY_BASE_SECONDS :: real
  WORKER_RETRY_MAX_SECONDS :: real
  WORKER_METRICS_PORT :: int
  BANK_TIMEOUT_SECONDS :: real
  RECONCILE_INTERVAL_SECONDS :: int
  REPORT_SIMULATED_COST_SECONDS :: real

type_synonym environ = "string \<rightharpoonup> string"

definition getenv :: "environ \<Rightarrow> string \<Rightarrow> string \<Rightarrow> string" where
  "getenv env name dflt = (case env name of None \<Rightarrow> dflt | Some s \<Rightarrow> s)"

definition int_setting :: "environ \<Rightarrow> string \<Rightarrow> int \<Rightarrow> int res" where
  "int_setting env name dflt = py_int (getenv env name (str_int dflt))"

definition finite_float :: "string \<Rightarrow> real res" where
  "finite_float s =
     bind_res (py_float s) (\<lambda>f. case f of Fin x \<Rightarrow> Inr x | _ \<Rightarrow> Inl (ValueError ''setting is not finite''))"

definition float_setting :: "environ \<Rightarrow> string \<Rightarrow> real \<Rightarrow> real res" where
  "float_setting env name dflt =
     (case env name of None \<Rightarrow> Inr dflt | Some s \<Rightarrow> finite_float s)"

text \<open>\<open>os.getenv("WORKER_ID") or os.getenv("HOSTNAME", "worker-local")\<close>: an empty id is no id.\<close>

definition worker_id_setting :: "environ \<Rightarrow> string" where
  "worker_id_setting env =
     (case env ''WORKER_ID'' of
        Some w \<Rightarrow> if w \<noteq> [] then w else getenv env ''HOSTNAME'' ''worker-local''
      | None \<Rightarrow> getenv env ''HOSTNAME'' ''worker-local'')"

definition load_config :: "environ \<Rightarrow> config res" where
  "load_config env =
     bind_res (int_setting env ''DB_POOL_SIZE'' 2) (\<lambda>pool_size.
     bind_res (int_setting env ''DB_MAX_OVERFLOW'' 0) (\<lambda>overflow.
     bind_res (float_setting env ''DB_POOL_TIMEOUT'' 2) (\<lambda>pool_timeout.
     bind_res (int_setting env ''DB_POOL_RECYCLE'' 1800) (\<lambda>recycle.
     bind_res (int_setting env ''DB_CONNECT_TIMEOUT'' 3) (\<lambda>connect_timeout.
     bind_res (int_setting env ''DB_STATEMENT_TIMEOUT_MS'' 5000) (\<lambda>stmt_timeout.
     bind_res (int_setting env ''REPORT_STATEMENT_TIMEOUT_MS'' 15000) (\<lambda>report_timeout.
     bind_res (int_setting env ''DB_LOCK_TIMEOUT_MS'' 2000) (\<lambda>lock_timeout.
     bind_res (int_setting env ''WORKER_CONCURRENCY'' 4) (\<lambda>concurrency.
     bind_res (int_setting env ''WORKER_LEASE_SECONDS'' 30) (\<lambda>lease.
     bind_res (int_setting env ''WORKER_SHUTDOWN_TIMEOUT'' 45) (\<lambda>shutdown.
     bind_res (int_setting env ''WORKER_MAX_ATTEMPTS'' 8) (\<lambda>attempts.
     bind_res (float_setting env ''WORKER_RETRY_BASE_SECONDS'' 2) (\<lambda>base.
     bind_res (float_setting env ''WORKER_RETRY_MAX_SECONDS'' 300) (\<lambda>retry_max.
     bind_res (int_setting env ''WORKER_METRICS_PORT'' 9100) (\<lambda>metrics_port.
     bind_res (float_setting env ''BANK_TIMEOUT_SECONDS'' 10) (\<lambda>bank_timeout.
     bind_res (int_setting env ''RECONCILE_INTERVAL_SECONDS'' 60) (\<lambda>reconcile.
     bind_res (float_setting env ''REPORT_SIMULATED_COST_SECONDS'' 0) (\<lambda>cost.
     Inr \<lparr>DATABASE_URL = getenv env ''DATABASE_URL'' ''postgresql+psycopg://settle@localhost:5432/settle'',
          REDIS_URL = getenv env ''REDIS_URL'' ''redis://localhost:6379/0'',
          BANK_API_URL = getenv env ''BANK_API_URL'' ''http://bankmock:8080'',
          DB_POOL_SIZE = pool_size, DB_MAX_OVERFLOW = overflow, DB_POOL_TIMEOUT = pool_timeout,
          DB_POOL_RECYCLE = recycle, DB_CONNECT_TIMEOUT = connect_timeout,
          DB_STATEMENT_TIMEOUT_MS = stmt_timeout, REPORT_STATEMENT_TIMEOUT_MS = report_timeout,
          DB_LOCK_TIMEOUT_MS = lock_timeout, LOG_LEVEL = getenv env ''LOG_LEVEL'' ''INFO'',
          WORKER_CONCURRENCY = concurrency,
          WORKER_ID = worker_id_setting env, WORKER_LEASE_SECONDS = lease,
          WORKER_SHUTDOWN_TIMEOUT = shutdown, WORKER_MAX_ATTEMPTS = attempts,
          WORKER_RETRY_BASE_SECONDS = base, WORKER_RETRY_MAX_SECONDS = retry_max, WORKER_METRICS_PORT = metrics_port,
          BANK_TIMEOUT_SECONDS = bank_timeout, RECONCILE_INTERVAL_SECONDS = reconcile,
          REPORT_SIMULATED_COST_SECONDS = cost\<rparr>))))))))))))))))))"

definition default_config :: config where
  "default_config =
     \<lparr>DATABASE_URL = ''postgresql+psycopg://settle@localhost:5432/settle'',
      REDIS_URL = ''redis://localhost:6379/0'', BANK_API_URL = ''http://bankmock:8080'',
      DB_POOL_SIZE = 2, DB_MAX_OVERFLOW = 0, DB_POOL_TIMEOUT = 2, DB_POOL_RECYCLE = 1800,
      DB_CONNECT_TIMEOUT = 3, DB_STATEMENT_TIMEOUT_MS = 5000, REPORT_STATEMENT_TIMEOUT_MS = 15000,
      DB_LOCK_TIMEOUT_MS = 2000, LOG_LEVEL = ''INFO'', WORKER_CONCURRENCY = 4, WORKER_ID = ''worker-local'',
      WORKER_LEASE_SECONDS = 30, WORKER_SHUTDOWN_TIMEOUT = 45, WORKER_MAX_ATTEMPTS = 8,
      WORKER_RETRY_BASE_SECONDS = 2, WORKER_RETRY_MAX_SECONDS = 300, WORKER_METRICS_PORT = 9100, BANK_TIMEOUT_SECONDS = 10,
      RECONCILE_INTERVAL_SECONDS = 60, REPORT_SIMULATED_COST_SECONDS = 0\<rparr>"

lemma int_setting_default: "env name = None \<Longrightarrow> int_setting env name d = Inr d"
  by (simp add: int_setting_def getenv_def py_int_str_int)

text \<open>A variable that is not an integer stops the program at import time.\<close>

lemma load_config_bad_attempts:
  assumes "env ''WORKER_MAX_ATTEMPTS'' = Some s" and "py_int s = Inl e"
  shows "\<exists>e'. load_config env = Inl e'"
proof (cases "load_config env")
  case (Inr c)
  with assms show ?thesis
    by (auto simp: load_config_def bind_res_Inr int_setting_def getenv_def)
qed simp

lemma load_config_defaults: "load_config Map.empty = Inr default_config"
  by (simp add: load_config_def default_config_def int_setting_default float_setting_def
      worker_id_setting_def getenv_def)

section \<open>Property of the settings\<close>

text \<open>The environment that sets every variable to the text of a given configuration.\<close>

definition environ_of :: "config \<Rightarrow> environ" where
  "environ_of c = map_of
    [
     (''DATABASE_URL'', DATABASE_URL c), (''REDIS_URL'', REDIS_URL c),
     (''BANK_API_URL'', BANK_API_URL c), (''LOG_LEVEL'', LOG_LEVEL c),
     (''WORKER_ID'', WORKER_ID c), (''DB_POOL_SIZE'', str_int (DB_POOL_SIZE c)),
     (''DB_MAX_OVERFLOW'', str_int (DB_MAX_OVERFLOW c)), (''DB_POOL_RECYCLE'', str_int (DB_POOL_RECYCLE c)),
     (''DB_CONNECT_TIMEOUT'', str_int (DB_CONNECT_TIMEOUT c)), (''DB_STATEMENT_TIMEOUT_MS'', str_int (DB_STATEMENT_TIMEOUT_MS c)),
     (''REPORT_STATEMENT_TIMEOUT_MS'', str_int (REPORT_STATEMENT_TIMEOUT_MS c)), (''DB_LOCK_TIMEOUT_MS'', str_int (DB_LOCK_TIMEOUT_MS c)),
     (''WORKER_CONCURRENCY'', str_int (WORKER_CONCURRENCY c)), (''WORKER_LEASE_SECONDS'', str_int (WORKER_LEASE_SECONDS c)),
     (''WORKER_SHUTDOWN_TIMEOUT'', str_int (WORKER_SHUTDOWN_TIMEOUT c)), (''WORKER_MAX_ATTEMPTS'', str_int (WORKER_MAX_ATTEMPTS c)),
     (''WORKER_METRICS_PORT'', str_int (WORKER_METRICS_PORT c)), (''RECONCILE_INTERVAL_SECONDS'', str_int (RECONCILE_INTERVAL_SECONDS c)),
     (''DB_POOL_TIMEOUT'', repr_float (DB_POOL_TIMEOUT c)), (''WORKER_RETRY_BASE_SECONDS'', repr_float (WORKER_RETRY_BASE_SECONDS c)),
     (''WORKER_RETRY_MAX_SECONDS'', repr_float (WORKER_RETRY_MAX_SECONDS c)), (''BANK_TIMEOUT_SECONDS'', repr_float (BANK_TIMEOUT_SECONDS c)),
     (''REPORT_SIMULATED_COST_SECONDS'', repr_float (REPORT_SIMULATED_COST_SECONDS c))
    ]"

text \<open>C26. Settings round trip through the environment: a configuration with a non-empty worker id and
  floats of at most fifteen decimals, rendered variable by variable with \<open>str\<close> and \<open>repr\<close>, is what
  the module loads; and the empty environment gives the documented defaults.\<close>

theorem settings_roundtrip:
  assumes "WORKER_ID c \<noteq> []"
    and "decimal (DB_POOL_TIMEOUT c)" "decimal (WORKER_RETRY_BASE_SECONDS c)" "decimal (WORKER_RETRY_MAX_SECONDS c)"
      "decimal (BANK_TIMEOUT_SECONDS c)" "decimal (REPORT_SIMULATED_COST_SECONDS c)"
  shows "load_config (environ_of c) = Inr c \<and> load_config Map.empty = Inr default_config"
proof -
  have "finite_float (repr_float x) = Inr x" if "decimal x" for x
    using py_float_decimal [OF that] by (simp add: finite_float_def)
  note floats = this [OF assms(2)] this [OF assms(3)] this [OF assms(4)] this [OF assms(5)] this [OF assms(6)]
  have "load_config (environ_of c) = Inr c"
    using assms(1)
    by (simp add: load_config_def environ_of_def int_setting_def float_setting_def getenv_def worker_id_setting_def py_int_str_int floats)
  then show ?thesis using load_config_defaults by simp
qed

theorem settings_roundtrip_witness:
  "load_config (environ_of (default_config\<lparr>BANK_TIMEOUT_SECONDS := 2.5\<rparr>)) = Inr (default_config\<lparr>BANK_TIMEOUT_SECONDS := 2.5\<rparr>)"
  by (rule settings_roundtrip [THEN conjunct1])
    (use decimal_int [of 2] decimal_int [of 300] decimal_int [of 0] decimal_thousandth [of "5 / 2" 2500] in \<open>simp_all add: default_config_def\<close>)

end
