(* ===== verification/Bank.thy ===== *)
theory Bank
  imports Config
begin

section \<open>The bank client: bank.py\<close>

text \<open>
  \<^verbatim>\<open>app/settle/bank.py\<close>. The HTTP library and the bank behind it are an argument
  \<open>post\<close>: it takes the request and the state of the outside world and gives a response or
  an exception (\<open>TransportError\<close> for \<open>httpx.TransportError\<close>) with the new state. A response
  is its status code, its text, and what \<open>resp.json()\<close> makes of the text.
\<close>

record http_request =
  rq_url :: string
  rq_body :: json
  rq_headers :: "(string \<times> string) list"
  rq_timeout :: real

record http_response =
  rs_status :: int
  rs_text :: string
  rs_json :: "json res"

type_synonym 'b post = "http_request \<Rightarrow> 'b \<Rightarrow> http_response res \<times> 'b"

definition pay_request :: "config \<Rightarrow> json \<Rightarrow> json \<Rightarrow> json \<Rightarrow> string \<Rightarrow> string \<Rightarrow> json \<Rightarrow> http_request res" where
  "pay_request c merchant_id amount_minor currency reference idempotency_key request_id =
     (let req = (\<lambda>more. \<lparr>rq_url = BANK_API_URL c @ ''/v1/payouts'',
            rq_body = JObj [(''merchant_id'', merchant_id), (''amount_minor'', amount_minor),
                            (''currency'', currency), (''reference'', JStr reference)],
            rq_headers = (''Idempotency-Key'', idempotency_key) # more,
            rq_timeout = BANK_TIMEOUT_SECONDS c\<rparr>)
      in if \<not> py_truth request_id then Inr (req [])
         else case request_id of
           JStr rid \<Rightarrow> Inr (req [(''X-Request-ID'', rid)])
         | _ \<Rightarrow> Inl (TypeError ''Header value must be str or bytes''))"

definition interpret_response :: "http_response \<Rightarrow> json res" where
  "interpret_response resp =
     (if rs_status resp \<ge> 500 \<or> rs_status resp = 429
        then Inl (BankError (''bank returned '' @ str_int (rs_status resp)) True)
      else if rs_status resp \<ge> 400
        then Inl (BankError (''bank rejected payout: '' @ str_int (rs_status resp) @ '' '' @ take 200 (rs_text resp)) False)
      else rs_json resp)"

definition pay :: "config \<Rightarrow> 'b post \<Rightarrow> json \<Rightarrow> json \<Rightarrow> json \<Rightarrow> string \<Rightarrow> string \<Rightarrow> json \<Rightarrow> 'b \<Rightarrow> json res \<times> 'b" where
  "pay c post merchant_id amount_minor currency reference idempotency_key request_id b =
     (case pay_request c merchant_id amount_minor currency reference idempotency_key request_id of
        Inl e \<Rightarrow> (Inl e, b)
      | Inr req \<Rightarrow>
          (case post req b of
             (Inl (TransportError m), b') \<Rightarrow> (Inl (BankError (''bank unreachable: '' @ m) True), b')
           | (Inl e, b') \<Rightarrow> (Inl e, b')
           | (Inr resp, b') \<Rightarrow> (interpret_response resp, b')))"

text \<open>
  What the caller may rely on: an outcome that may still have moved the money (no answer,
  a 5xx, a 429) is marked retryable, a 4xx is final, and a result is returned for 1xx to
  3xx only.
\<close>

lemma interpret_response_cases:
  "interpret_response resp = Inl (BankError m True) \<Longrightarrow> rs_json resp \<noteq> Inl (BankError m True) \<Longrightarrow>
     rs_status resp \<ge> 500 \<or> rs_status resp = 429"
  "interpret_response resp = Inl (BankError m False) \<Longrightarrow> rs_json resp \<noteq> Inl (BankError m False) \<Longrightarrow>
     400 \<le> rs_status resp \<and> rs_status resp < 500 \<and> rs_status resp \<noteq> 429"
  "interpret_response resp = Inr v \<Longrightarrow> rs_status resp < 400 \<and> rs_json resp = Inr v"
  by (auto simp: interpret_response_def split: if_splits)

lemma pay_transport:
  assumes "pay_request c m a cur ref key rid = Inr req" and "post req b = (Inl (TransportError t), b')"
  shows "pay c post m a cur ref key rid b = (Inl (BankError (''bank unreachable: '' @ t) True), b')"
  using assms by (simp add: pay_def)

lemma pay_answered:
  assumes "pay_request c m a cur ref key rid = Inr req" and "post req b = (Inr resp, b')"
  shows "pay c post m a cur ref key rid b = (interpret_response resp, b')"
  using assms by (simp add: pay_def)

lemma pay_request_header:
  "pay_request c m a cur ref key rid = Inr req \<Longrightarrow> map_of (rq_headers req) ''Idempotency-Key'' = Some key"
  "pay_request c m a cur ref key rid = Inr req \<Longrightarrow>
     rq_body req = JObj [(''merchant_id'', m), (''amount_minor'', a), (''currency'', cur), (''reference'', JStr ref)]"
  by (auto simp: pay_request_def Let_def split: if_splits json.splits)

text \<open>The state of the bank changes only through one posted request.\<close>

lemma pay_state:
  "snd (pay c post m a cur ref key rid b) = b
   \<or> (\<exists>req. pay_request c m a cur ref key rid = Inr req
        \<and> snd (pay c post m a cur ref key rid b) = snd (post req b))"
  by (auto simp: pay_def split: sum.splits prod.splits exn.splits)

lemma pay_result:
  assumes "pay c post m a cur ref key rid b = (Inr v, b')"
  shows "\<exists>req resp. pay_request c m a cur ref key rid = Inr req \<and> post req b = (Inr resp, b')
    \<and> rs_status resp < 400 \<and> rs_json resp = Inr v"
  using assms
  by (auto simp: pay_def split: sum.splits prod.splits exn.splits dest: interpret_response_cases(3))

section \<open>Property of the bank client\<close>

text \<open>C19. The outcome of a payment request is classified by whether money may have moved: the request
  carries the idempotency key; no answer, a 5xx and a 429 give a retryable \<open>BankError\<close>; the
  other statuses from 400 up give a final one; a result is returned for a status below 400 only,
  and is what the response holds.\<close>

theorem pay_outcomes:
  assumes "pay_request c m a cur ref key rid = Inr req" and "pay c post m a cur ref key rid b = (out, b')"
  shows "map_of (rq_headers req) ''Idempotency-Key'' = Some key \<and> b' = snd (post req b) \<and>
    (case fst (post req b) of
       Inl (TransportError t) \<Rightarrow> out = Inl (BankError (''bank unreachable: '' @ t) True)
     | Inl e \<Rightarrow> out = Inl e
     | Inr resp \<Rightarrow>
         if rs_status resp < 400 then out = rs_json resp
         else \<exists>msg. out = Inl (BankError msg (rs_status resp \<ge> 500 \<or> rs_status resp = 429)))"
proof -
  obtain res b2 where p: "post req b = (res, b2)" by fastforce
  have "b' = b2 \<and> (case res of
       Inl (TransportError t) \<Rightarrow> out = Inl (BankError (''bank unreachable: '' @ t) True)
     | Inl e \<Rightarrow> out = Inl e
     | Inr resp \<Rightarrow> out = interpret_response resp)"
    using assms p by (auto simp: pay_def split: sum.splits exn.splits)
  with pay_request_header(1) [OF assms(1)] p show ?thesis
    by (auto simp: interpret_response_def split: sum.splits exn.splits)
qed

theorem pay_outcomes_witness:
  "\<exists>msg. fst (pay default_config (\<lambda>req n. (Inr \<lparr>rs_status = 503, rs_text = [], rs_json = Inr JNull\<rparr>, Suc n))
     (JInt 7) (JInt 250) (JStr ''EUR'') ''payout-5'' ''K1'' JNull (0::nat)) = Inl (BankError msg True)"
proof -
  let ?post = "\<lambda>req n. (Inr \<lparr>rs_status = 503, rs_text = [], rs_json = Inr JNull\<rparr>, Suc n) :: http_response res \<times> nat"
  obtain req where r: "pay_request default_config (JInt 7) (JInt 250) (JStr ''EUR'') ''payout-5'' ''K1'' JNull = Inr req"
    by (auto simp: pay_request_def)
  obtain out n where p: "pay default_config ?post (JInt 7) (JInt 250) (JStr ''EUR'') ''payout-5'' ''K1'' JNull 0 = (out, n)"
    by fastforce
  from pay_outcomes [OF r p] p show ?thesis by auto
qed

end
