(* ===== verification/Bankmock.thy ===== *)
theory Bankmock
  imports Bank
begin

section \<open>The bank's payout API: bankmock/main.py\<close>

text \<open>
  \<^verbatim>\<open>app/bankmock/main.py\<close>: the ledger, the table of idempotency keys, the endpoints that
  read and write them. The random latency has no effect on the state; the random failure,
  the fresh bank reference and the clock are arguments. The body of \<open>with _lock\<close> is one
  atomic step. The locale \<open>idempotent_bank\<close> is the promise settle relies on (ADR-006): a
  key that is booked is never booked again; the mock is proved to keep it.
\<close>

record entry =
  e_bank_ref :: string
  e_merchant :: int
  e_amount :: int
  e_currency :: string
  e_reference :: string
  e_ts :: real

record bank =
  ledger :: "entry list"
  by_key :: "(string \<times> entry) list"

record payout_in =
  i_merchant :: int
  i_amount :: int
  i_currency :: string
  i_reference :: string

definition booked :: "bank \<Rightarrow> string \<Rightarrow> entry option" where
  "booked b = map_of (by_key b)"

definition new_entry :: "payout_in \<Rightarrow> string \<Rightarrow> real \<Rightarrow> entry" where
  "new_entry body uuid now =
     \<lparr>e_bank_ref = ''BNK-'' @ uuid, e_merchant = i_merchant body, e_amount = i_amount body,
      e_currency = i_currency body, e_reference = i_reference body, e_ts = now\<rparr>"

text \<open>The entry that answers the request, and whether it was replayed.\<close>

definition create_payout ::
  "payout_in \<Rightarrow> string option \<Rightarrow> bool \<Rightarrow> string \<Rightarrow> real \<Rightarrow> bank \<Rightarrow> (entry \<times> bool) res \<times> bank" where
  "create_payout body idempotency_key fails uuid now b =
     (if fails then (Inl (HTTPException 503 ''bank temporarily unavailable''), b)
      else let key = (case idempotency_key of None \<Rightarrow> [] | Some k \<Rightarrow> k)
        in case (if key \<noteq> [] then booked b key else None) of
             Some e \<Rightarrow> (Inr (e, True), b)
           | None \<Rightarrow>
               let e = new_entry body uuid now;
                   b' = b\<lparr>ledger := ledger b @ [e]\<rparr>
               in (Inr (e, False), if key \<noteq> [] then b'\<lparr>by_key := AList.update key e (by_key b')\<rparr> else b'))"

definition list_payouts :: "real \<Rightarrow> bank \<Rightarrow> entry list" where
  "list_payouts since b = filter (\<lambda>e. e_ts e \<ge> since) (ledger b)"

text \<open>\<open>Counter\<close> keeps the order in which the references first occur.\<close>

definition first_occurrences :: "'a list \<Rightarrow> 'a list" where
  "first_occurrences xs = rev (remdups (rev xs))"

definition duplicates :: "bank \<Rightarrow> (string \<times> nat) list" where
  "duplicates b =
     (let refs = map e_reference (ledger b)
      in filter (\<lambda>(ref, n). n > 1) (map (\<lambda>ref. (ref, count_list refs ref)) (first_occurrences refs)))"

subsection \<open>The HTTP endpoint\<close>

text \<open>
  \<open>PayoutIn\<close> validates the body: the four fields with their types. A body that does not
  validate is answered with 422 and changes nothing.
\<close>

definition payout_in_of :: "json \<Rightarrow> payout_in option" where
  "payout_in_of body =
     (case body of
        JObj d \<Rightarrow>
          (case (map_of d ''merchant_id'', map_of d ''amount_minor'', map_of d ''currency'', map_of d ''reference'') of
             (Some (JInt m), Some (JInt a), Some (JStr c), Some (JStr r)) \<Rightarrow>
               Some \<lparr>i_merchant = m, i_amount = a, i_currency = c, i_reference = r\<rparr>
           | _ \<Rightarrow> None)
      | _ \<Rightarrow> None)"

definition entry_json :: "entry \<Rightarrow> bool \<Rightarrow> json" where
  "entry_json e replayed =
     JObj [(''bank_ref'', JStr (e_bank_ref e)), (''merchant_id'', JInt (e_merchant e)),
           (''amount_minor'', JInt (e_amount e)), (''currency'', JStr (e_currency e)),
           (''reference'', JStr (e_reference e)), (''ts'', JFloat (e_ts e)), (''replayed'', JBool replayed)]"

definition json_response :: "int \<Rightarrow> json \<Rightarrow> http_response" where
  "json_response st v = \<lparr>rs_status = st, rs_text = [], rs_json = Inr v\<rparr>"

definition bank_endpoint :: "bool \<Rightarrow> string \<Rightarrow> real \<Rightarrow> http_request \<Rightarrow> bank \<Rightarrow> http_response \<times> bank" where
  "bank_endpoint fails uuid now req b =
     (case payout_in_of (rq_body req) of
        None \<Rightarrow> (json_response 422 (JObj [(''detail'', JStr ''validation error'')]), b)
      | Some body \<Rightarrow>
          (case create_payout body (map_of (rq_headers req) ''Idempotency-Key'') fails uuid now b of
             (Inl (HTTPException st detail), b') \<Rightarrow> (json_response st (JObj [(''detail'', JStr detail)]), b')
           | (Inl e, b') \<Rightarrow> (json_response 500 JNull, b')
           | (Inr (e, replayed), b') \<Rightarrow> (json_response 200 (entry_json e replayed), b')))"

text \<open>The network between the worker and the bank: a request or its answer may be lost.\<close>

definition bank_post :: "reply \<Rightarrow> bool \<Rightarrow> string \<Rightarrow> real \<Rightarrow> bank post" where
  "bank_post net fails uuid now req b = perform net (bank_endpoint fails uuid now req) b"

subsection \<open>The promise of idempotency\<close>

locale idempotent_bank =
  fixes charge :: "'i \<Rightarrow> string \<Rightarrow> 'n \<Rightarrow> 'b \<Rightarrow> 'e \<times> 'b"
    and charges :: "'b \<Rightarrow> 'e list"
    and account :: "'b \<Rightarrow> string \<Rightarrow> 'e option"
  assumes charge_new: "k \<noteq> [] \<Longrightarrow> account b k = None \<Longrightarrow>
        charges (snd (charge i k n b)) = charges b @ [fst (charge i k n b)]
      \<and> account (snd (charge i k n b)) = (account b)(k \<mapsto> fst (charge i k n b))"
    and charge_replay: "k \<noteq> [] \<Longrightarrow> account b k = Some e \<Longrightarrow> charge i k n b = (e, b)"
begin

fun charge_all :: "('i \<times> string \<times> 'n) list \<Rightarrow> 'b \<Rightarrow> 'b" where
  "charge_all [] b = b"
| "charge_all ((i, k, n) # reqs) b = charge_all reqs (snd (charge i k n b))"

lemma charge_twice:
  "k \<noteq> [] \<Longrightarrow> charge i' k n' (snd (charge i k n b)) = (fst (charge i k n b), snd (charge i k n b))"
  using charge_new [of k b i n] charge_replay [of k _ _ i' n']
  by (cases "account b k") (simp_all add: charge_replay)

lemma account_charge:
  "k \<noteq> [] \<Longrightarrow> account (snd (charge i k n b)) = (case account b k of
      None \<Rightarrow> (account b)(k \<mapsto> fst (charge i k n b)) | Some e \<Rightarrow> account b)"
  using charge_new [of k b i n] charge_replay [of k b _ i n] by (auto split: option.splits)

text \<open>However often requests are repeated and interleaved, each new key is charged once.\<close>

lemma charge_all_once:
  assumes "\<forall>(i, k, n) \<in> set reqs. k \<noteq> []"
  shows "length (charges (charge_all reqs b)) =
      length (charges b) + card {k \<in> (fst \<circ> snd) ` set reqs. account b k = None}"
  using assms
proof (induction reqs arbitrary: b)
  case (Cons r reqs)
  obtain i k n where r: "r = (i, k, n)" by (cases r)
  with Cons.prems have k: "k \<noteq> []" by auto
  let ?b = "snd (charge i k n b)"
  have IH: "length (charges (charge_all reqs ?b)) =
      length (charges ?b) + card {k \<in> (fst \<circ> snd) ` set reqs. account ?b k = None}"
    using Cons.prems by (intro Cons.IH) auto
  show ?case
  proof (cases "account b k")
    case None
    let ?new = "{k' \<in> (fst \<circ> snd) ` set reqs. account b k' = None}"
    from None have "{k' \<in> (fst \<circ> snd) ` set (r # reqs). account b k' = None} = insert k ?new"
      using r by auto
    moreover have "card (insert k ?new) = Suc (card (?new - {k}))"
      by (rule card.insert_remove) simp
    moreover from charge_new [OF k None, of i n]
    have "{k' \<in> (fst \<circ> snd) ` set reqs. account ?b k' = None} = ?new - {k}" by auto
    ultimately show ?thesis using IH charge_new [OF k None, of i n] r by (simp del: o_apply)
  next
    case (Some e)
    then have "{k' \<in> (fst \<circ> snd) ` set (r # reqs). account b k' = None} =
        {k' \<in> (fst \<circ> snd) ` set reqs. account b k' = None}" using r by auto
    with IH charge_replay [OF k Some] r show ?thesis by simp
  qed
qed simp

end

definition bank_charge :: "payout_in \<Rightarrow> string \<Rightarrow> string \<times> real \<Rightarrow> bank \<Rightarrow> entry \<times> bank" where
  "bank_charge body key n b =
     (case create_payout body (Some key) False (fst n) (snd n) b of
        (Inr (e, _), b') \<Rightarrow> (e, b')
      | (Inl _, b') \<Rightarrow> (new_entry body (fst n) (snd n), b'))"

lemma booked_update [simp]: "booked (b\<lparr>by_key := AList.update k e (by_key b)\<rparr>) = (booked b)(k \<mapsto> e)"
  by (simp add: booked_def update_conv')

lemma booked_ledger [simp]: "booked (b\<lparr>ledger := l\<rparr>) = booked b"
  by (simp add: booked_def)

interpretation mock: idempotent_bank bank_charge ledger booked
proof unfold_locales
  fix k b and body and n
  assume "k \<noteq> []" "booked b k = None"
  then show "ledger (snd (bank_charge body k n b)) = ledger b @ [fst (bank_charge body k n b)]
      \<and> booked (snd (bank_charge body k n b)) = (booked b)(k \<mapsto> fst (bank_charge body k n b))"
    by (simp add: bank_charge_def create_payout_def Let_def booked_def update_conv')
qed (simp add: bank_charge_def create_payout_def)

lemma create_payout_charge:
  "key \<noteq> [] \<Longrightarrow> create_payout body (Some key) False uuid now b =
     (Inr (fst (bank_charge body key (uuid, now) b), booked b key \<noteq> None), snd (bank_charge body key (uuid, now) b))"
  by (auto simp: bank_charge_def create_payout_def Let_def split: option.splits)

lemma create_payout_fails: "create_payout body k True uuid now b = (Inl (HTTPException 503 ''bank temporarily unavailable''), b)"
  by (simp add: create_payout_def)

subsection \<open>Duplicates in the ledger\<close>

lemma set_first_occurrences [simp]: "set (first_occurrences xs) = set xs"
  by (simp add: first_occurrences_def)

lemma distinct_first_occurrences [simp]: "distinct (first_occurrences xs)"
  by (simp add: first_occurrences_def)

lemma count_list_distinct: "distinct xs \<longleftrightarrow> (\<forall>x. count_list xs x \<le> 1)"
  by (induction xs) (auto simp: count_list_0_iff intro: le_SucI dest: count_notin)

lemma counted_mem:
  "(ref, n) \<in> set (filter (\<lambda>(ref, n). n > 1) (map (\<lambda>ref. (ref, count_list refs ref)) (first_occurrences refs)))
     \<longleftrightarrow> ref \<in> set refs \<and> n = count_list refs ref \<and> n > 1"
  by auto

lemma duplicates_mem: "(ref, n) \<in> set (duplicates b) \<longleftrightarrow>
    n = count_list (map e_reference (ledger b)) ref \<and> n > 1"
proof -
  let ?refs = "map e_reference (ledger b)"
  have "(ref, n) \<in> set (duplicates b) \<longleftrightarrow> ref \<in> set ?refs \<and> n = count_list ?refs ref \<and> n > 1"
    unfolding duplicates_def Let_def by (rule counted_mem)
  moreover have "n = count_list ?refs ref \<and> n > 1 \<Longrightarrow> ref \<in> set ?refs"
    using count_list_0_iff [of ?refs ref] by linarith
  ultimately show ?thesis by blast
qed

lemma duplicates_none: "duplicates b = [] \<longleftrightarrow> distinct (map e_reference (ledger b))"
proof -
  have "duplicates b = [] \<longleftrightarrow> (\<forall>ref. \<not> count_list (map e_reference (ledger b)) ref > 1)"
    using duplicates_mem [of _ _ b] by (metis (no_types, lifting) empty_iff list.set(1) list.set_intros(1) neq_Nil_conv surj_pair)
  then show ?thesis by (simp add: count_list_distinct not_less)
qed

text \<open>Without a key every accepted request moves money: what happened on 14 August.\<close>

lemma create_payout_no_key:
  "ledger (snd (create_payout body None False uuid now b)) = ledger b @ [new_entry body uuid now]"
  by (simp add: create_payout_def Let_def)

section \<open>Properties of the bank\<close>

definition charge_requests :: "(payout_in \<times> string \<times> bool \<times> string \<times> real) list \<Rightarrow> bank \<Rightarrow> bank" where
  "charge_requests reqs b =
     fold (\<lambda>(body, key, fails, uuid, now) b. snd (create_payout body (Some key) fails uuid now b)) reqs b"

lemma charge_requests_all:
  assumes "\<forall>(body, key, fails, uuid, now) \<in> set reqs. key \<noteq> []"
  shows "charge_requests reqs b =
    mock.charge_all (map (\<lambda>(body, key, fails, uuid, now). (body, key, (uuid, now))) (filter (\<lambda>(body, key, fails, uuid, now). \<not> fails) reqs)) b"
  using assms
proof (induction reqs arbitrary: b)
  case (Cons r reqs)
  obtain body key fails uuid now where r: "r = (body, key, fails, uuid, now)" by (cases r)
  with Cons.prems have "key \<noteq> []" by auto
  with Cons r show ?case
    by (cases fails) (simp_all add: charge_requests_def create_payout_fails create_payout_charge)
qed (simp add: charge_requests_def)

text \<open>C18. However often requests are repeated, interleaved with others and hit by the bank's own
  failures, the ledger grows by one entry for each key that was not booked before and whose
  request the bank accepted at least once.\<close>

theorem repeated_requests_charge_once:
  assumes "\<forall>(body, key, fails, uuid, now) \<in> set reqs. key \<noteq> []"
  shows "length (ledger (charge_requests reqs b)) = length (ledger b)
    + card {key. booked b key = None \<and> (\<exists>body uuid now. (body, key, False, uuid, now) \<in> set reqs)}"
proof -
  let ?reqs = "map (\<lambda>(body, key, fails, uuid, now). (body, key, (uuid, now))) (filter (\<lambda>(body, key, fails, uuid, now). \<not> fails) reqs)"
  have "\<forall>(body, key, n) \<in> set ?reqs. key \<noteq> []" using assms by auto
  from mock.charge_all_once [OF this, of b]
  have "length (ledger (charge_requests reqs b)) =
      length (ledger b) + card {k \<in> (fst \<circ> snd) ` set ?reqs. booked b k = None}"
    unfolding charge_requests_all [OF assms] .
  moreover have "{k \<in> (fst \<circ> snd) ` set ?reqs. booked b k = None} =
      {key. booked b key = None \<and> (\<exists>body uuid now. (body, key, False, uuid, now) \<in> set reqs)}"
    by force
  ultimately show ?thesis by simp
qed

theorem repeated_requests_charge_once_witness:
  "length (ledger (charge_requests
      [(\<lparr>i_merchant = 7, i_amount = 250, i_currency = ''EUR'', i_reference = ''payout-5''\<rparr>, ''K1'', True, ''B0'', 1),
       (\<lparr>i_merchant = 7, i_amount = 250, i_currency = ''EUR'', i_reference = ''payout-5''\<rparr>, ''K1'', False, ''B1'', 2),
       (\<lparr>i_merchant = 7, i_amount = 250, i_currency = ''EUR'', i_reference = ''payout-5''\<rparr>, ''K1'', False, ''B2'', 3)]
      \<lparr>ledger = [], by_key = []\<rparr>)) = 1"
proof -
  let ?body = "\<lparr>i_merchant = 7, i_amount = 250, i_currency = ''EUR'', i_reference = ''payout-5''\<rparr>"
  let ?reqs = "[(?body, ''K1'', True, ''B0'', 1), (?body, ''K1'', False, ''B1'', 2), (?body, ''K1'', False, ''B2'', 3)]"
  have keys: "{key. booked \<lparr>ledger = [], by_key = []\<rparr> key = None
      \<and> (\<exists>body uuid now. (body, key, False, uuid, now) \<in> set ?reqs)} = {''K1''}"
    by (auto simp: booked_def)
  have "\<forall>(body, key, fails, uuid, now) \<in> set ?reqs. key \<noteq> []" by simp
  from repeated_requests_charge_once [OF this, of "\<lparr>ledger = [], by_key = []\<rparr>"] show ?thesis
    unfolding keys by simp
qed

end
