(* ===== verification/Metrics.thy ===== *)
theory Metrics
  imports Numbers
begin

section \<open>Metrics: counters, gauges and histograms of metrics.py\<close>

text \<open>
  The metric families of \<^verbatim>\<open>app/settle/metrics.py\<close> as the state they keep: a counter and a
  gauge per family and label, the observations of each histogram. Families are named as in
  the source; rendering and the multi-process registry belong to the Prometheus client.
\<close>

record metrics =
  counters :: "string \<Rightarrow> string \<Rightarrow> nat"
  gauges :: "string \<Rightarrow> string \<Rightarrow> pyf"
  observed :: "string \<Rightarrow> real list"

definition no_metrics :: metrics where
  "no_metrics = \<lparr>counters = (\<lambda>_ _. 0), gauges = (\<lambda>_ _. Fin 0), observed = (\<lambda>_. [])\<rparr>"

definition inc_by :: "string \<Rightarrow> string \<Rightarrow> nat \<Rightarrow> metrics \<Rightarrow> metrics" where
  "inc_by fam label n m =
     m\<lparr>counters := (counters m)(fam := (counters m fam)(label := counters m fam label + n))\<rparr>"

abbreviation inc :: "string \<Rightarrow> string \<Rightarrow> metrics \<Rightarrow> metrics" where
  "inc fam label \<equiv> inc_by fam label 1"

definition set_gauge :: "string \<Rightarrow> string \<Rightarrow> pyf \<Rightarrow> metrics \<Rightarrow> metrics" where
  "set_gauge fam label x m = m\<lparr>gauges := (gauges m)(fam := (gauges m fam)(label := x))\<rparr>"

definition observe :: "string \<Rightarrow> real \<Rightarrow> metrics \<Rightarrow> metrics" where
  "observe fam x m = m\<lparr>observed := (observed m)(fam := observed m fam @ [x])\<rparr>"

lemma metrics_simps [simp]:
  "counters (inc_by f l n m) = (counters m)(f := (counters m f)(l := counters m f l + n))"
  "gauges (inc_by f l n m) = gauges m" "observed (inc_by f l n m) = observed m"
  "counters (set_gauge f l g m) = counters m" "observed (set_gauge f l g m) = observed m"
  "gauges (set_gauge f l g m) = (gauges m)(f := (gauges m f)(l := g))"
  "counters (observe f x m) = counters m" "gauges (observe f x m) = gauges m"
  "observed (observe f x m) = (observed m)(f := observed m f @ [x])"
  by (simp_all add: inc_by_def set_gauge_def observe_def)

text \<open>The families, named as in the source.\<close>

definition HTTP_REQUESTS :: string where "HTTP_REQUESTS = ''settle_http_requests_total''"
definition HTTP_LATENCY :: string where "HTTP_LATENCY = ''settle_http_request_duration_seconds''"
definition JOBS_TOTAL :: string where "JOBS_TOTAL = ''settle_jobs_total''"
definition BANK_CALLS :: string where "BANK_CALLS = ''settle_bank_calls_total''"
definition DB_ERRORS :: string where "DB_ERRORS = ''settle_db_errors_total''"
definition RECOVERED :: string where "RECOVERED = ''settle_jobs_recovered_total''"
definition PAYOUT_LATENCY :: string where "PAYOUT_LATENCY = ''settle_payout_duration_seconds''"
definition INFLIGHT :: string where "INFLIGHT = ''settle_worker_inflight_jobs''"
definition QUEUE_DEPTH :: string where "QUEUE_DEPTH = ''settle_queue_depth''"
definition OLDEST_JOB_AGE :: string where "OLDEST_JOB_AGE = ''settle_queue_oldest_job_age_seconds''"
definition RECON_DUPLICATES :: string where "RECON_DUPLICATES = ''settle_reconciliation_duplicate_payouts''"
definition RECON_LAST_SUCCESS :: string where
  "RECON_LAST_SUCCESS = ''settle_reconciliation_last_success_timestamp_seconds''"
definition STALE_PAYOUTS :: string where "STALE_PAYOUTS = ''settle_payouts_stale''"

lemmas family_defs = HTTP_REQUESTS_def HTTP_LATENCY_def JOBS_TOTAL_def BANK_CALLS_def DB_ERRORS_def RECOVERED_def PAYOUT_LATENCY_def
  INFLIGHT_def QUEUE_DEPTH_def OLDEST_JOB_AGE_def RECON_DUPLICATES_def RECON_LAST_SUCCESS_def
  STALE_PAYOUTS_def

definition BUILD_INFO :: string where "BUILD_INFO = ''settle_build_info''"
definition DB_POOL_CHECKED_OUT :: string where "DB_POOL_CHECKED_OUT = ''settle_db_pool_connections_checked_out''"

text \<open>The registered families in the order of the module, with their label names and buckets.\<close>

datatype family_kind = Counter | Gauge | Histogram "real list"

record family =
  fm_name :: string
  fm_kind :: family_kind
  fm_labels :: "string list"

definition family_of :: "string \<Rightarrow> family_kind \<Rightarrow> string list \<Rightarrow> family" where
  "family_of name kind ls = \<lparr>fm_name = name, fm_kind = kind, fm_labels = ls\<rparr>"

definition FAMILIES :: "family list" where
  "FAMILIES =
     [family_of BUILD_INFO Gauge [''version''],
      family_of HTTP_REQUESTS Counter [''method'', ''route'', ''status'', ''version''],
      family_of HTTP_LATENCY (Histogram [0.025, 0.05, 0.1, 0.25, 0.5, 1, 2.5, 5, 10, 15]) [''method'', ''route'', ''version''],
      family_of DB_POOL_CHECKED_OUT Gauge [],
      family_of DB_ERRORS Counter [''kind''],
      family_of JOBS_TOTAL Counter [''outcome''],
      family_of BANK_CALLS Counter [''result''],
      family_of PAYOUT_LATENCY (Histogram [1, 5, 15, 30, 60, 120, 300, 600, 900, 1800, 3600]) [],
      family_of INFLIGHT Gauge [],
      family_of QUEUE_DEPTH Gauge [''queue''],
      family_of OLDEST_JOB_AGE Gauge [],
      family_of RECOVERED Counter [],
      family_of RECON_DUPLICATES Gauge [],
      family_of RECON_LAST_SUCCESS Gauge [],
      family_of STALE_PAYOUTS Gauge []]"

text \<open>The samples that a family exposes, with their label names.\<close>

definition samples :: "family \<Rightarrow> (string \<times> string list) list" where
  "samples f =
     (case fm_kind f of
        Histogram bs \<Rightarrow>
          [(fm_name f @ ''_bucket'', fm_labels f @ [''le'']), (fm_name f @ ''_sum'', fm_labels f), (fm_name f @ ''_count'', fm_labels f)]
      | _ \<Rightarrow> [(fm_name f, fm_labels f)])"

definition all_samples :: "(string \<times> string list) list" where
  "all_samples = concat (map samples FAMILIES)"

lemma families_registered_once: "distinct (map fm_name FAMILIES) \<and> distinct (map fst all_samples)"
  by (simp add: FAMILIES_def all_samples_def samples_def family_of_def family_defs BUILD_INFO_def DB_POOL_CHECKED_OUT_def)

text \<open>A child of a labelled family, \<open>.labels(v1, .., vn)\<close>, is named by its label values.\<close>

definition labels :: "string list \<Rightarrow> string" where
  "labels vs = concat (map (\<lambda>v. v @ '' '') vs)"

lemma families_distinct [simp]:
  "HTTP_REQUESTS \<noteq> DB_ERRORS" "DB_ERRORS \<noteq> HTTP_REQUESTS"
  "JOBS_TOTAL \<noteq> BANK_CALLS" "BANK_CALLS \<noteq> JOBS_TOTAL" "JOBS_TOTAL \<noteq> RECOVERED" "RECOVERED \<noteq> JOBS_TOTAL"
  "RECON_DUPLICATES \<noteq> STALE_PAYOUTS" "STALE_PAYOUTS \<noteq> RECON_DUPLICATES"
  "RECON_DUPLICATES \<noteq> RECON_LAST_SUCCESS" "RECON_LAST_SUCCESS \<noteq> RECON_DUPLICATES"
  "STALE_PAYOUTS \<noteq> RECON_LAST_SUCCESS" "RECON_LAST_SUCCESS \<noteq> STALE_PAYOUTS"
  by (simp_all add: family_defs)

end
