(* ===== verification/Payout.thy ===== *)
theory Payout
  imports Store Queue Bankmock Metrics
begin

section \<open>Execution of one payout job: worker.py, first half\<close>

text \<open>
  \<^verbatim>\<open>app/settle/worker.py\<close> up to \<open>process\<close>: \<open>claim\<close>, \<open>mark_paid\<close>, \<open>handle\<close>,
  \<open>backoff\<close>, \<open>_ack\<close>, \<open>_retry_or_dead\<close> and \<open>process\<close>. The world the worker acts on is the
  database, Redis, the bank and the metrics. How each outside call ends, the fresh UUID, the
  clock and the jitter are the fields of an \<open>env\<close> record; the bank is the argument
  \<open>post\<close>, Redis the argument \<open>R\<close>.
\<close>

record ('r, 'b) world =
  w_db :: db
  w_redis :: 'r
  w_bank :: 'b
  w_metrics :: metrics

record env =
  ev_uuid :: string
  ev_claim :: reply
  ev_mark :: reply
  ev_ack :: reply
  ev_requeue :: reply
  ev_now :: real
  ev_jitter :: real

definition count_w :: "string \<Rightarrow> string \<Rightarrow> ('r, 'b) world \<Rightarrow> ('r, 'b) world" where
  "count_w fam label w = w\<lparr>w_metrics := inc fam label (w_metrics w)\<rparr>"

lemma count_w_simps [simp]:
  "w_db (count_w f l w) = w_db w" "w_redis (count_w f l w) = w_redis w" "w_bank (count_w f l w) = w_bank w"
  "w_metrics (count_w f l w) = inc f l (w_metrics w)"
  by (simp_all add: count_w_def)

subsection \<open>Values bound to SQL parameters\<close>

text \<open>
  What Postgres 15 makes of a parameter. An integer or NULL compares with a \<open>bigint\<close> column; a
  string is sent untyped and read as a \<open>bigint\<close> (white space around, one sign, digits); a
  boolean, a list or an object is refused. A text column takes a string or NULL, and the text
  of an integer or a boolean. A float is taken to be refused: the rendering of floats is not
  modelled. The jobs of the API and of the retries carry integers only, and the bank's
  references are strings.
\<close>

definition pg_space :: "char \<Rightarrow> bool" where
  "pg_space c \<longleftrightarrow> (let n = (of_char c :: nat) in 9 \<le> n \<and> n \<le> 13 \<or> n = 32)"

definition pg_bigint :: "string \<Rightarrow> int res" where
  "pg_bigint s =
     (let t = rev (dropWhile pg_space (rev (dropWhile pg_space s)));
          neg = (case t of c # _ \<Rightarrow> c = CHR ''-'' | [] \<Rightarrow> False);
          u = (case t of c # u \<Rightarrow> if c = CHR ''-'' \<or> c = CHR ''+'' then u else t | [] \<Rightarrow> []);
          i = (if neg then - int (digits_val u) else int (digits_val u))
      in if u = [] \<or> \<not> list_all is_digit u then Inl (DBAPIError ''invalid input syntax for type bigint'')
         else if \<not> bigint i then Inl (DBAPIError ''out of range for type bigint'')
         else Inr i)"

fun bind_bigint :: "json \<Rightarrow> int option res" where
  "bind_bigint (JInt i) = Inr (Some i)"
| "bind_bigint JNull = Inr None"
| "bind_bigint (JStr s) = bind_res (pg_bigint s) (\<lambda>i. Inr (Some i))"
| "bind_bigint _ = Inl (DBAPIError ''bigint parameter expected'')"

fun bind_text :: "json \<Rightarrow> string option res" where
  "bind_text (JStr s) = Inr (Some s)"
| "bind_text JNull = Inr None"
| "bind_text (JInt i) = Inr (Some (str_int i))"
| "bind_text (JBool b) = Inr (Some (if b then ''true'' else ''false''))"
| "bind_text _ = Inl (DBAPIError ''text parameter expected'')"

text \<open>\<open>str(v)\<close> of a payout id that the statement above has accepted.\<close>

fun json_str :: "json \<Rightarrow> string" where
  "json_str (JInt i) = str_int i"
| "json_str JNull = ''None''"
| "json_str (JStr s) = s"
| "json_str _ = ''?''"

subsection \<open>Claiming and recording\<close>

definition claim_row :: "string \<Rightarrow> payout \<Rightarrow> payout" where
  "claim_row key p = p\<lparr>p_state := ''sending'', p_key := Some (case p_key p of None \<Rightarrow> key | Some k \<Rightarrow> k)\<rparr>"

definition claim_tx :: "string \<Rightarrow> json \<Rightarrow> db \<Rightarrow> (string option \<times> string option) res \<times> db" where
  "claim_tx key payout_id d =
     (case bind_bigint payout_id of
        Inl e \<Rightarrow> (Inl e, d)
      | Inr v \<Rightarrow>
          (case update_payouts
                  (\<lambda>p. Some (p_id p) = v \<and> (p_state p = ''queued'' \<or> p_state p = ''sending''))
                  (claim_row key) d of
             (Inl e, d') \<Rightarrow> (Inl e, d')
           | (Inr rows, d') \<Rightarrow>
               (case first_row rows of
                  Some row \<Rightarrow> (Inr (p_key row, None), d')
                | None \<Rightarrow> (Inr (None, map_option p_state (find (\<lambda>p. Some (p_id p) = v) (payouts d'))), d'))))"

definition claim :: "reply \<Rightarrow> string \<Rightarrow> json \<Rightarrow> db \<Rightarrow> (string option \<times> string option) res \<times> db" where
  "claim rep key payout_id = transaction rep (claim_tx key payout_id)"

definition mark_paid_tx :: "json \<Rightarrow> json \<Rightarrow> db \<Rightarrow> unit res \<times> db" where
  "mark_paid_tx payout_id bank_ref d =
     (case (bind_bigint payout_id, bind_text bank_ref) of
        (Inr v, Inr ref) \<Rightarrow>
          (case update_payouts (\<lambda>p. Some (p_id p) = v \<and> p_state p = ''sending'')
                  (\<lambda>p. p\<lparr>p_state := ''paid'', p_bank_ref := ref\<rparr>) d of
             (Inl e, d') \<Rightarrow> (Inl e, d')
           | (Inr rows, d') \<Rightarrow> (Inr (), d'))
      | (Inl e, _) \<Rightarrow> (Inl e, d)
      | (_, Inl e) \<Rightarrow> (Inl e, d))"

definition mark_paid :: "reply \<Rightarrow> json \<Rightarrow> json \<Rightarrow> db \<Rightarrow> unit res \<times> db" where
  "mark_paid rep payout_id bank_ref = transaction rep (mark_paid_tx payout_id bank_ref)"

subsection \<open>handle\<close>

text \<open>What the claim decides: send with this key, skip a paid payout, or give up.\<close>

datatype claimed = Send json string | Skip

definition handle_claim :: "env \<Rightarrow> dict \<Rightarrow> db \<Rightarrow> claimed res \<times> db" where
  "handle_claim ev job d =
     (case dict_item job ''payout_id'' of
        Inl e \<Rightarrow> (Inl e, d)
      | Inr pid \<Rightarrow>
          (case claim (ev_claim ev) (ev_uuid ev) pid d of
             (Inl e, d') \<Rightarrow> (Inl e, d')
           | (Inr (Some key, _), d') \<Rightarrow> (Inr (Send pid key), d')
           | (Inr (None, state), d') \<Rightarrow>
               (if state = Some ''paid'' then (Inr Skip, d')
                else (Inl (PermanentError (''payout '' @ json_str pid @ '' is in state '' @
                        (case state of None \<Rightarrow> ''None'' | Some s \<Rightarrow> s) @ '', cannot send'')), d'))))"

definition payout_reference :: "json \<Rightarrow> string" where
  "payout_reference pid = ''payout-'' @ json_str pid"

definition handle_pay :: "config \<Rightarrow> 'b post \<Rightarrow> dict \<Rightarrow> json \<Rightarrow> string \<Rightarrow> 'b \<Rightarrow> json res \<times> 'b" where
  "handle_pay c post job pid key b =
     (case bind_res (dict_item job ''merchant_id'') (\<lambda>m.
           bind_res (dict_item job ''amount_minor'') (\<lambda>a.
           bind_res (dict_item job ''currency'') (\<lambda>cur. Inr (m, a, cur)))) of
        Inl e \<Rightarrow> (Inl e, b)
      | Inr (m, a, cur) \<Rightarrow>
          pay c post m a cur (payout_reference pid) key (dict_get job ''request_id'' JNull) b)"

fun py_number :: "json \<Rightarrow> real option" where
  "py_number (JInt i) = Some (real_of_int i)"
| "py_number (JFloat x) = Some x"
| "py_number (JBool b) = Some (if b then 1 else 0)"
| "py_number _ = None"

text \<open>\<open>if job.get("enqueued_at"): observe(max(0.0, time.time() - job["enqueued_at"]))\<close>\<close>

definition observe_latency :: "real \<Rightarrow> dict \<Rightarrow> metrics \<Rightarrow> string res \<times> metrics" where
  "observe_latency now job m =
     (let v = dict_get job ''enqueued_at'' JNull
      in if py_truth v then
           (case py_number v of
              Some t \<Rightarrow> (Inr ''paid'', observe PAYOUT_LATENCY (max 0 (now - t)) m)
            | None \<Rightarrow> (Inl (TypeError ''unsupported operand type(s) for -''), m))
         else (Inr ''paid'', m))"

definition handle_record :: "env \<Rightarrow> dict \<Rightarrow> json \<Rightarrow> json \<Rightarrow> ('r, 'b) world \<Rightarrow> string res \<times> ('r, 'b) world" where
  "handle_record ev job pid result w =
     (case result of
        JObj res \<Rightarrow>
          (let w1 = count_w BANK_CALLS (if py_truth (dict_get res ''replayed'' JNull) then ''replayed'' else ''ok'') w
           in case dict_item res ''bank_ref'' of
                Inl e \<Rightarrow> (Inl e, w1)
              | Inr ref \<Rightarrow>
                  (case mark_paid (ev_mark ev) pid ref (w_db w1) of
                     (Inl e, d) \<Rightarrow> (Inl e, w1\<lparr>w_db := d\<rparr>)
                   | (Inr _, d) \<Rightarrow>
                       (let (out, m) = observe_latency (ev_now ev) job (w_metrics w1)
                        in (out, w1\<lparr>w_db := d, w_metrics := m\<rparr>))))
      | _ \<Rightarrow> (Inl (AttributeError ''object has no attribute get''), w))"

definition handle :: "config \<Rightarrow> 'b post \<Rightarrow> env \<Rightarrow> dict \<Rightarrow> ('r, 'b) world \<Rightarrow> string res \<times> ('r, 'b) world" where
  "handle c post ev job w =
     (case handle_claim ev job (w_db w) of
        (Inl e, d) \<Rightarrow> (Inl e, w\<lparr>w_db := d\<rparr>)
      | (Inr Skip, d) \<Rightarrow> (Inr ''duplicate_skipped'', w\<lparr>w_db := d\<rparr>)
      | (Inr (Send pid key), d) \<Rightarrow>
          (let w1 = w\<lparr>w_db := d\<rparr>
           in case handle_pay c post job pid key (w_bank w1) of
                (Inl e, b) \<Rightarrow> (Inl e, w1\<lparr>w_bank := b\<rparr>)
              | (Inr result, b) \<Rightarrow> handle_record ev job pid result (w1\<lparr>w_bank := b\<rparr>)))"

subsection \<open>Retry, dead letter, acknowledge\<close>

definition backoff :: "config \<Rightarrow> real \<Rightarrow> int \<Rightarrow> real" where
  "backoff c jitter attempt =
     min (WORKER_RETRY_BASE_SECONDS c * 2 powi (attempt - 1)) (WORKER_RETRY_MAX_SECONDS c) * jitter"

fun exn_str :: "exn \<Rightarrow> string" where
  "exn_str (BankError m r) = m"
| "exn_str (PermanentError m) = m"
| "exn_str (OperationalError m) = m"
| "exn_str (PoolTimeout m) = m"
| "exn_str (DBAPIError m) = m"
| "exn_str (RedisError m) = m"
| "exn_str (TransportError m) = m"
| "exn_str (KeyError m) = CHR 0x27 # m @ [CHR 0x27]"
| "exn_str (TypeError m) = m"
| "exn_str (ValueError m) = m"
| "exn_str (AttributeError m) = m"
| "exn_str (HTTPException st m) = str_int st @ '': '' @ m"

definition ack :: "'r redis_api \<Rightarrow> string \<Rightarrow> reply \<Rightarrow> payload \<Rightarrow> 'r \<Rightarrow> unit res \<times> 'r" where
  "ack R worker_id rep raw r = perform rep (\<lambda>r. ((), lrem1 R (processing_key worker_id) raw r)) r"

definition retried_job :: "dict \<Rightarrow> int \<Rightarrow> exn \<Rightarrow> dict" where
  "retried_job job attempt e =
     dict_set ''last_error'' (JStr (take 300 (exn_str e))) (dict_set ''attempt'' (JInt attempt) job)"

text \<open>The exception that escapes (to the thread pool, which drops it), and the new world.\<close>

definition retry_or_dead ::
  "config \<Rightarrow> 'r redis_api \<Rightarrow> string \<Rightarrow> env \<Rightarrow> payload \<Rightarrow> dict \<Rightarrow> exn \<Rightarrow> bool \<Rightarrow> ('r, 'b) world
    \<Rightarrow> exn option \<times> ('r, 'b) world" where
  "retry_or_dead c R worker_id ev raw job e retryable w =
     (case json_int (dict_get job ''attempt'' (JInt 0)) of
        Inl e' \<Rightarrow> (Some e', w)
      | Inr n \<Rightarrow>
          (let attempt = n + 1;
               job' = json_dumps (JObj (retried_job job attempt e));
               again = retryable \<and> attempt < WORKER_MAX_ATTEMPTS c;
               queue = (if again then zadd R RETRY job' (ev_now ev + backoff c (ev_jitter ev) attempt)
                        else lpush R DEAD job')
           in case perform (ev_requeue ev)
                     (\<lambda>r. ((), lrem1 R (processing_key worker_id) raw (queue r))) (w_redis w) of
                (Inl e', r) \<Rightarrow> (Some e', w\<lparr>w_redis := r\<rparr>)
              | (Inr _, r) \<Rightarrow>
                  (None, count_w JOBS_TOTAL (if again then ''retried'' else ''dead_lettered'') (w\<lparr>w_redis := r\<rparr>))))"

text \<open>The \<open>except\<close> clauses of \<open>process\<close>, in their order.\<close>

definition on_error ::
  "config \<Rightarrow> 'r redis_api \<Rightarrow> string \<Rightarrow> env \<Rightarrow> payload \<Rightarrow> dict \<Rightarrow> exn \<Rightarrow> ('r, 'b) world
    \<Rightarrow> exn option \<times> ('r, 'b) world" where
  "on_error c R worker_id ev raw job e w =
     (case e of
        BankError m retryable \<Rightarrow>
          retry_or_dead c R worker_id ev raw job e retryable
            (count_w BANK_CALLS (if \<not> retryable then ''rejected'' else ''error'') w)
      | PermanentError m \<Rightarrow> retry_or_dead c R worker_id ev raw job e False w
      | _ \<Rightarrow> retry_or_dead c R worker_id ev raw job e True w)"

definition bury_garbage ::
  "'r redis_api \<Rightarrow> string \<Rightarrow> reply \<Rightarrow> payload \<Rightarrow> ('r, 'b) world \<Rightarrow> exn option \<times> ('r, 'b) world" where
  "bury_garbage R worker_id rep raw w =
     (case perform rep (\<lambda>r. ((), lrem1 R (processing_key worker_id) raw (lpush R DEAD raw r))) (w_redis w) of
        (Inl e, r) \<Rightarrow> (Some e, w\<lparr>w_redis := r\<rparr>)
      | (Inr _, r) \<Rightarrow> (None, count_w JOBS_TOTAL ''dead_lettered'' (w\<lparr>w_redis := r\<rparr>)))"

definition process ::
  "config \<Rightarrow> 'r redis_api \<Rightarrow> 'b post \<Rightarrow> string \<Rightarrow> env \<Rightarrow> payload \<Rightarrow> ('r, 'b) world
    \<Rightarrow> exn option \<times> ('r, 'b) world" where
  "process c R post worker_id ev raw w =
     (case json_loads raw of
        Inl _ \<Rightarrow> bury_garbage R worker_id (ev_requeue ev) raw w
      | Inr (JObj job) \<Rightarrow>
          (case handle c post ev job w of
             (Inl e, w1) \<Rightarrow> on_error c R worker_id ev raw job e w1
           | (Inr outcome, w1) \<Rightarrow>
               (case ack R worker_id (ev_ack ev) raw (w_redis w1) of
                  (Inl e, r) \<Rightarrow> on_error c R worker_id ev raw job e (w1\<lparr>w_redis := r\<rparr>)
                | (Inr _, r) \<Rightarrow> (None, count_w JOBS_TOTAL outcome (w1\<lparr>w_redis := r\<rparr>))))
      | Inr _ \<Rightarrow> (Some (AttributeError ''object has no attribute get''), w))"

end
