(* ===== verification/Db.thy ===== *)
theory Db
  imports Config
begin

section \<open>Connections to Postgres: db.py\<close>

text \<open>
  \<^verbatim>\<open>app/settle/db.py\<close>: the arguments of the engine, the probe, the wait for the database
  with capped exponential backoff, and the gauge of checked-out connections. SQLAlchemy's
  engine is what receives the arguments; how each of its calls ends is an argument.
\<close>

subsection \<open>The engine\<close>

definition is_postgres :: "string \<Rightarrow> bool" where
  "is_postgres url \<longleftrightarrow> prefix_of ''postgresql'' url"

definition connect_args :: "config \<Rightarrow> dict" where
  "connect_args c =
     (if \<not> is_postgres (DATABASE_URL c) then []
      else [(''connect_timeout'', JInt (DB_CONNECT_TIMEOUT c)),
            (''application_name'', JStr (WORKER_ID c)),
            (''options'', JStr (''-c statement_timeout='' @ str_int (DB_STATEMENT_TIMEOUT_MS c)
               @ '' -c lock_timeout='' @ str_int (DB_LOCK_TIMEOUT_MS c)
               @ '' -c idle_in_transaction_session_timeout=30000'')),
            (''keepalives'', JInt 1), (''keepalives_idle'', JInt 30),
            (''keepalives_interval'', JInt 10), (''keepalives_count'', JInt 3)])"

text \<open>The URL and the keyword arguments of \<open>create_engine\<close>.\<close>

definition make_engine :: "config \<Rightarrow> string option \<Rightarrow> string \<times> dict" where
  "make_engine c url =
     (let u = (case url of Some s \<Rightarrow> if s \<noteq> [] then s else DATABASE_URL c | None \<Rightarrow> DATABASE_URL c)
      in (u, if is_postgres u
             then [(''pool_size'', JInt (DB_POOL_SIZE c)), (''max_overflow'', JInt (DB_MAX_OVERFLOW c)),
                   (''pool_timeout'', JFloat (DB_POOL_TIMEOUT c)), (''pool_recycle'', JInt (DB_POOL_RECYCLE c)),
                   (''pool_pre_ping'', JBool True), (''connect_args'', JObj (connect_args c))]
             else []))"

text \<open>What a pool admits at most: \<open>pool_size + max_overflow\<close>, SQLAlchemy's own defaults being 5 and 10.\<close>

definition pool_limit :: "dict \<Rightarrow> int option" where
  "pool_limit kwargs =
     (case (dict_get kwargs ''pool_size'' (JInt 5), dict_get kwargs ''max_overflow'' (JInt 10)) of
        (JInt p, JInt v) \<Rightarrow> Some (p + v) | _ \<Rightarrow> None)"

text \<open>\<open>pool_stats\<close>: the counters of the pool; a pool class without them gives zeros.\<close>

definition pool_stats :: "(int \<times> int \<times> int) res \<Rightarrow> json res" where
  "pool_stats counters =
     (let doc = (\<lambda>(checked_out, size, overflow). JObj [(''checked_out'', JInt checked_out), (''size'', JInt size), (''overflow'', JInt overflow)])
      in case counters of
           Inr cs \<Rightarrow> Inr (doc cs)
         | Inl (AttributeError m) \<Rightarrow> Inr (doc (0, 0, 0))
         | Inl e \<Rightarrow> Inl e)"

subsection \<open>The probe\<close>

text \<open>\<open>execs\<close> is the outcome of the connection and of each statement, by its text.\<close>

definition ping :: "unit res \<Rightarrow> (string \<Rightarrow> unit res) \<Rightarrow> real \<Rightarrow> bool" where
  "ping conn execs timeout_s =
     (case bind_res conn (\<lambda>_.
           bind_res (execs (''SET LOCAL statement_timeout = '' @ str_int (py_trunc (timeout_s * 1000)))) (\<lambda>_.
           execs ''SELECT 1'')) of
        Inr _ \<Rightarrow> True | Inl _ \<Rightarrow> False)"

subsection \<open>Waiting for the database\<close>

text \<open>
  \<open>stop i\<close> is what the stop predicate answers before attempt \<open>i + 1\<close>, \<open>up i\<close> what the probe
  answers in it. The result: whether the database answered, the number of attempts (each
  calls \<open>on_attempt\<close> once), and the sleeps. \<open>None\<close> is running out of fuel.
\<close>

fun wait_loop ::
  "nat \<Rightarrow> (nat \<Rightarrow> bool) \<Rightarrow> (nat \<Rightarrow> bool) \<Rightarrow> real \<Rightarrow> real \<Rightarrow> nat \<Rightarrow> real list \<Rightarrow> (bool \<times> nat \<times> real list) option" where
  "wait_loop 0 stop up max_backoff delay attempt slept = None"
| "wait_loop (Suc fuel) stop up max_backoff delay attempt slept =
     (if stop attempt then Some (False, attempt, slept)
      else if up attempt then Some (True, attempt + 1, slept)
      else wait_loop fuel stop up max_backoff (min (delay * 2) max_backoff) (attempt + 1) (slept @ [delay]))"

definition wait_for_db :: "nat \<Rightarrow> (nat \<Rightarrow> bool) \<Rightarrow> (nat \<Rightarrow> bool) \<Rightarrow> real \<Rightarrow> (bool \<times> nat \<times> real list) option" where
  "wait_for_db fuel stop up max_backoff = wait_loop fuel stop up max_backoff (1 / 2) 0 []"

definition backoff_delay :: "real \<Rightarrow> nat \<Rightarrow> real" where
  "backoff_delay max_backoff i = (if i = 0 then 1 / 2 else min (2 ^ i / 2) max_backoff)"

lemma backoff_delay_Suc: "0 \<le> m \<Longrightarrow> backoff_delay m (Suc i) = min (backoff_delay m i * 2) m"
  by (cases i) (auto simp: backoff_delay_def min_def)

lemma wait_loop_result:
  assumes "0 \<le> m" and "\<forall>j < n. \<not> stop (i + j) \<and> \<not> up (i + j)" and "stop (i + n) \<or> up (i + n)" and "n < fuel"
  shows "wait_loop fuel stop up m (backoff_delay m i) i slept =
    Some (\<not> stop (i + n), if stop (i + n) then i + n else i + n + 1, slept @ map (backoff_delay m) [i..<i + n])"
  using assms
proof (induction n arbitrary: fuel i slept)
  case 0
  then show ?case by (cases fuel) auto
next
  case (Suc n)
  from Suc.prems obtain f where f: "fuel = Suc f" by (cases fuel) auto
  have "\<not> stop i \<and> \<not> up i" using Suc.prems(2) by (metis add.right_neutral zero_less_Suc)
  then have "wait_loop fuel stop up m (backoff_delay m i) i slept =
      wait_loop f stop up m (backoff_delay m (Suc i)) (Suc i) (slept @ [backoff_delay m i])"
    by (simp add: f backoff_delay_Suc [OF Suc.prems(1)])
  moreover have "wait_loop f stop up m (backoff_delay m (Suc i)) (Suc i) (slept @ [backoff_delay m i]) =
      Some (\<not> stop (Suc i + n), if stop (Suc i + n) then Suc i + n else Suc i + n + 1,
      (slept @ [backoff_delay m i]) @ map (backoff_delay m) [Suc i..<Suc i + n])"
  proof (rule Suc.IH)
    show "\<forall>j < n. \<not> stop (Suc i + j) \<and> \<not> up (Suc i + j)"
      using Suc.prems(2) by (metis add_Suc_right add_Suc Suc_less_eq)
  qed (use Suc.prems f in auto)
  moreover have "[i..<i + Suc n] = i # [Suc i..<Suc i + n]" by (subst upt_conv_Cons) simp_all
  ultimately show ?case by (simp del: upt_Suc)
qed

lemma backoff_delay_cap: "1 / 2 \<le> m \<Longrightarrow> backoff_delay m i \<le> m"
  by (simp add: backoff_delay_def)

subsection \<open>The gauge of checked-out connections\<close>

datatype pool_event = Checkout | Checkin

fun pool_gauge :: "pool_event list \<Rightarrow> int \<Rightarrow> int" where
  "pool_gauge [] g = g"
| "pool_gauge (Checkout # es) g = pool_gauge es (g + 1)"
| "pool_gauge (Checkin # es) g = pool_gauge es (g - 1)"

section \<open>Property of the wait for the database\<close>

text \<open>C27. The wait for the database ends exactly when it is told to: if the first attempts all fail
  unstopped and then the stop predicate or the probe answers, it returns at that point, true if
  the database answered, having touched the liveness file once per attempt and slept between
  them for 0.5, 1, 2, .. seconds, never longer than the maximal backoff.\<close>

theorem wait_for_db_ends:
  assumes "1 / 2 \<le> max_backoff" and "\<forall>j < n. \<not> stop j \<and> \<not> up j" and "stop n \<or> up n" and "n < fuel"
  shows "wait_for_db fuel stop up max_backoff =
      Some (\<not> stop n, if stop n then n else n + 1, map (backoff_delay max_backoff) [0..<n])
    \<and> (\<forall>d \<in> set (map (backoff_delay max_backoff) [0..<n]). 1 / 2 \<le> d \<and> d \<le> max_backoff)"
proof -
  have "wait_loop fuel stop up max_backoff (backoff_delay max_backoff 0) 0 [] =
      Some (\<not> stop (0 + n), if stop (0 + n) then 0 + n else 0 + n + 1, [] @ map (backoff_delay max_backoff) [0..<0 + n])"
    by (rule wait_loop_result) (use assms in simp_all)
  moreover have "1 / 2 \<le> backoff_delay max_backoff i" for i
  proof -
    have "(1 :: real) \<le> 2 ^ i" by (rule one_le_power) simp
    with assms(1) show ?thesis by (auto simp: backoff_delay_def min_def)
  qed
  ultimately show ?thesis using backoff_delay_cap [OF assms(1)] by (simp add: wait_for_db_def backoff_delay_def [of _ 0])
qed

theorem wait_for_db_ends_witness:
  "wait_for_db 5 (\<lambda>_. False) (\<lambda>i. i = 3) 15 = Some (True, 4, [1 / 2, 1, 2])"
proof -
  have "\<forall>j < 3. \<not> False \<and> \<not> (j = (3 :: nat))" by simp
  from wait_for_db_ends [of 15 3 "\<lambda>_. False" "\<lambda>i. i = 3" 5] this
  show ?thesis by (simp add: backoff_delay_def numeral_eq_Suc)
qed

end
