(* ===== verification/Api.thy ===== *)
theory Api
  imports Payout Numbers Db
begin

section \<open>The HTTP service: api.py\<close>

text \<open>
  \<^verbatim>\<open>app/settle/api.py\<close>: the middleware, the handler for database errors, the probes and
  the settlement endpoints, each with the SQL statement it executes. FastAPI decodes paths,
  queries and bodies before an endpoint runs; its routing is not modelled. Sequence values
  and clocks are arguments.
\<close>

record api_response =
  rp_status :: int
  rp_body :: json
  rp_headers :: "(string \<times> string) list"

definition respond :: "int \<Rightarrow> json \<Rightarrow> api_response" where
  "respond st body = \<lparr>rp_status = st, rp_body = body, rp_headers = []\<rparr>"

subsection \<open>Probes\<close>

definition livez :: json where
  "livez = JObj [(''status'', JStr ''ok'')]"

definition readyz :: "bool \<Rightarrow> string \<Rightarrow> api_response" where
  "readyz draining version =
     (if draining then respond 503 (JObj [(''status'', JStr ''draining'')])
      else respond 200 (JObj [(''status'', JStr ''ready''), (''version'', JStr version)]))"

text \<open>
  \<open>lifespan\<close>: what happens when the application starts and when it stops. \<open>pool\<close> is the document of
  \<open>db.pool_stats()\<close>; the pool is disposed of at the end.
\<close>

record service =
  sv_draining :: bool
  sv_logged :: "(string \<times> dict) list"
  sv_disposed :: bool

definition new_service :: service where
  "new_service = \<lparr>sv_draining = False, sv_logged = [], sv_disposed = False\<rparr>"

definition lifespan_start :: "json \<Rightarrow> service \<Rightarrow> service" where
  "lifespan_start pool s = s\<lparr>sv_logged := sv_logged s @ [(''settle-api started'', [(''pool'', pool)])]\<rparr>"

definition lifespan_stop :: "service \<Rightarrow> service" where
  "lifespan_stop s =
     s\<lparr>sv_draining := True, sv_logged := sv_logged s @ [(''settle-api shutting down, draining in-flight requests'', [])],
       sv_disposed := True\<rparr>"

lemma ready_between_start_and_stop:
  "rp_status (readyz (sv_draining (lifespan_start pool new_service)) v) = 200"
  "rp_status (readyz (sv_draining (lifespan_stop s)) v) = 503"
  by (simp_all add: lifespan_start_def lifespan_stop_def new_service_def readyz_def respond_def)

definition healthz :: json where
  "healthz = livez"

definition healthz_deps :: "bool \<Rightarrow> bool \<Rightarrow> json \<Rightarrow> api_response" where
  "healthz_deps postgres redis pool =
     (let ok = postgres \<and> redis
      in respond (if ok then 200 else 503)
           (JObj [(''status'', JStr (if ok then ''ok'' else ''degraded'')),
                  (''postgres'', JBool postgres), (''redis'', JBool redis), (''pool'', pool)]))"

subsection \<open>Reading settlements\<close>

text \<open>\<open>FROM settlements s LEFT JOIN payouts p ON p.settlement_id = s.id\<close>\<close>

definition joined :: "db \<Rightarrow> settlement \<Rightarrow> (settlement \<times> payout option) list" where
  "joined d s =
     (case filter (\<lambda>p. p_settlement p = s_id s) (payouts d) of
        [] \<Rightarrow> [(s, None)]
      | ps \<Rightarrow> map (\<lambda>p. (s, Some p)) ps)"

definition left_join :: "db \<Rightarrow> (settlement \<times> payout option) list" where
  "left_join d = concat (map (joined d) (settlements d))"

fun nullable :: "string option \<Rightarrow> json" where
  "nullable None = JNull"
| "nullable (Some s) = JStr s"

definition settlement_cells :: "settlement \<Rightarrow> (string \<times> json) list" where
  "settlement_cells s =
     [(''id'', JInt (s_id s)), (''merchant_id'', JInt (s_merchant s)), (''settlement_date'', JStr (date_iso (s_date s))),
      (''amount_minor'', JInt (s_amount s)), (''currency'', JStr (s_currency s)), (''status'', JStr (s_status s))]"

text \<open>What the list shows of a row, and what the report shows of a line.\<close>

definition list_item :: "settlement \<times> payout option \<Rightarrow> json" where
  "list_item row = (case row of (s, p) \<Rightarrow> JObj (settlement_cells s @ [(''payout_state'', nullable (map_option p_state p))]))"

definition list_settlements :: "int option \<Rightarrow> int \<Rightarrow> db \<Rightarrow> (settlement \<times> payout option) list res" where
  "list_settlements settlement_date limit d =
     (let n = min limit 500;
          rows = filter (\<lambda>(s, p). settlement_date = None \<or> Some (s_date s) = settlement_date) (left_join d)
      in if n < 0 then Inl (DBAPIError ''LIMIT must not be negative'')
         else Inr (take (nat n) (sort_key (\<lambda>(s, p). - s_id s) rows)))"

definition get_settlement :: "int \<Rightarrow> db \<Rightarrow> json res" where
  "get_settlement settlement_id d =
     (case first_row (filter (\<lambda>(s, p). s_id s = settlement_id) (left_join d)) of
        None \<Rightarrow> Inl (HTTPException 404 ''settlement not found'')
      | Some (s, p) \<Rightarrow>
          Inr (JObj (settlement_cells s @
            [(''payout_id'', case p of None \<Rightarrow> JNull | Some q \<Rightarrow> JInt (p_id q)),
             (''payout_state'', nullable (map_option p_state p)),
             (''bank_ref'', nullable (Option.bind p p_bank_ref))])))"

subsection \<open>Creating and executing a settlement\<close>

record settlement_in =
  in_merchant_id :: int
  in_settlement_date :: int
  in_amount_minor :: int
  in_currency :: string

definition create_settlement :: "reply \<Rightarrow> settlement_in \<Rightarrow> int \<Rightarrow> db \<Rightarrow> json res \<times> db" where
  "create_settlement rep body new_id d =
     (case transaction rep (insert_settlement
             \<lparr>s_id = new_id, s_merchant = in_merchant_id body, s_date = in_settlement_date body,
              s_amount = in_amount_minor body, s_currency = in_currency body, s_status = ''pending''\<rparr>) d of
        (Inl e, d') \<Rightarrow> (Inl e, d')
      | (Inr sid, d') \<Rightarrow> (Inr (JObj [(''id'', JInt sid), (''status'', JStr ''pending'')]), d'))"

definition queued_payout :: "int \<Rightarrow> real \<Rightarrow> settlement \<Rightarrow> payout" where
  "queued_payout new_id created s =
     \<lparr>p_id = new_id, p_settlement = s_id s, p_merchant = s_merchant s, p_amount = s_amount s,
      p_currency = s_currency s, p_state = ''queued'', p_key = None, p_bank_ref = None, p_created_at = created\<rparr>"

definition execute_tx :: "int \<Rightarrow> int \<Rightarrow> real \<Rightarrow> db \<Rightarrow> payout res \<times> db" where
  "execute_tx settlement_id new_id created d =
     (let (rows, t) = sql_update (\<lambda>s. s_id s = settlement_id \<and> s_status s = ''pending'')
                        (\<lambda>s. s\<lparr>s_status := ''executing''\<rparr>) (settlements d)
      in case first_row rows of
           None \<Rightarrow> (Inl (HTTPException 409 ''settlement is not pending''), d\<lparr>settlements := t\<rparr>)
         | Some s \<Rightarrow>
             (case insert_payout (queued_payout new_id created s) (d\<lparr>settlements := t\<rparr>) of
                (Inl e, d') \<Rightarrow> (Inl e, d')
              | (Inr pid, d') \<Rightarrow> (Inr (queued_payout new_id created s), d')))"

definition new_job :: "string option \<Rightarrow> real \<Rightarrow> payout \<Rightarrow> dict" where
  "new_job request_id now p =
     [(''payout_id'', JInt (p_id p)), (''merchant_id'', JInt (p_merchant p)),
      (''amount_minor'', JInt (p_amount p)), (''currency'', JStr (p_currency p)),
      (''request_id'', nullable request_id), (''enqueued_at'', JFloat now), (''attempt'', JInt 0)]"

definition execute_settlement ::
  "'r redis_api \<Rightarrow> reply \<Rightarrow> reply \<Rightarrow> int \<Rightarrow> int \<Rightarrow> real \<Rightarrow> string option \<Rightarrow> real \<Rightarrow> ('r, 'b) world
    \<Rightarrow> json res \<times> ('r, 'b) world" where
  "execute_settlement R rep_db rep_push settlement_id new_id created request_id now w =
     (case transaction rep_db (execute_tx settlement_id new_id created) (w_db w) of
        (Inl e, d) \<Rightarrow> (Inl e, w\<lparr>w_db := d\<rparr>)
      | (Inr p, d) \<Rightarrow>
          (case perform rep_push
                  (\<lambda>r. ((), lpush R JOBS (json_dumps (JObj (new_job request_id now p))) r)) (w_redis w) of
             (Inl e, r) \<Rightarrow> (Inl e, w\<lparr>w_db := d, w_redis := r\<rparr>)
           | (Inr _, r) \<Rightarrow>
               (Inr (JObj [(''payout_id'', JInt (p_id p)), (''state'', JStr ''queued'')]),
                w\<lparr>w_db := d, w_redis := r\<rparr>)))"

subsection \<open>The daily report\<close>

record report_line =
  r_currency :: string
  r_settlements :: nat
  r_total_minor :: int
  r_paid :: nat

definition daily_report :: "int \<Rightarrow> db \<Rightarrow> report_line list" where
  "daily_report date d =
     (let rows = filter (\<lambda>(s, p). s_date s = date) (left_join d);
          currencies = first_occurrences (map (\<lambda>(s, p). s_currency s) rows)
      in map (\<lambda>c. let g = filter (\<lambda>(s, p). s_currency s = c) rows
                  in \<lparr>r_currency = c, r_settlements = length g,
                      r_total_minor = sum_list (map (\<lambda>(s, p). s_amount s) g),
                      r_paid = length (filter (\<lambda>(s, p). map_option p_state p = Some ''paid'') g)\<rparr>) currencies)"

definition report_json :: "int \<Rightarrow> report_line list \<Rightarrow> json" where
  "report_json date ls =
     JObj [(''date'', JStr (date_iso date)),
           (''totals'', JList (map (\<lambda>l. JObj
              [(''currency'', JStr (r_currency l)), (''settlements'', JInt (int (r_settlements l))),
               (''total_minor'', JInt (r_total_minor l)), (''paid'', JInt (int (r_paid l)))]) ls))]"

text \<open>The statements the report executes before its query, and the day it is for.\<close>

definition report_settings :: "config \<Rightarrow> string list" where
  "report_settings c =
     (if prefix_of ''postgresql'' (DATABASE_URL c)
      then [''SET LOCAL statement_timeout = '' @ str_int (REPORT_STATEMENT_TIMEOUT_MS c)] else [])"

definition report_day :: "int option \<Rightarrow> int \<Rightarrow> int" where
  "report_day date today = (case date of None \<Rightarrow> today | Some d \<Rightarrow> d)"

subsection \<open>From a result to a response\<close>

text \<open>
  The exception handlers: database errors become 503 with \<open>Retry-After\<close>, an
  \<open>HTTPException\<close> its own status, and any other exception leaves the application (the
  server answers 500).
\<close>

definition db_error_kind :: "exn \<Rightarrow> string" where
  "db_error_kind e =
     (if occurs_in ''canceling statement due to'' (exn_str e) then ''statement_timeout''
      else case e of PoolTimeout m \<Rightarrow> ''pool_timeout'' | _ \<Rightarrow> ''operational'')"

definition db_unavailable :: "exn \<Rightarrow> metrics \<Rightarrow> api_response \<times> metrics" where
  "db_unavailable e m =
     (let kind = db_error_kind e
      in (\<lparr>rp_status = 503, rp_body = JObj [(''error'', JStr ''database unavailable''), (''kind'', JStr kind)],
           rp_headers = [(''Retry-After'', ''2'')]\<rparr>, inc DB_ERRORS kind m))"

definition handle_exception :: "exn \<Rightarrow> metrics \<Rightarrow> api_response res \<times> metrics" where
  "handle_exception e m =
     (case e of
        PoolTimeout _ \<Rightarrow> (let (r, m') = db_unavailable e m in (Inr r, m'))
      | OperationalError _ \<Rightarrow> (let (r, m') = db_unavailable e m in (Inr r, m'))
      | HTTPException st detail \<Rightarrow> (Inr (respond st (JObj [(''detail'', JStr detail)])), m)
      | _ \<Rightarrow> (Inl e, m))"

text \<open>
  The middleware: the request id comes from the header or is fresh, is set while the inner
  application runs, is echoed in the response, and is reset whatever happens; every request
  but the probes is counted and timed, an exception as status 500. \<open>ctx\<close> is the context
  variable \<open>logs.request_id\<close> before the request; the result has it after the request.
\<close>

record request =
  q_method :: string
  q_route :: "string option"
  q_request_id :: "string option"

definition route_of :: "request \<Rightarrow> string" where
  "route_of req = (case q_route req of None \<Rightarrow> ''unmatched'' | Some p \<Rightarrow> p)"

definition unobserved :: "string \<Rightarrow> bool" where
  "unobserved route \<longleftrightarrow> route = ''/livez'' \<or> route = ''/readyz'' \<or> route = ''/metrics''"

definition request_id_of :: "request \<Rightarrow> string \<Rightarrow> string" where
  "request_id_of req uuid = (case q_request_id req of Some h \<Rightarrow> if h \<noteq> [] then h else uuid | None \<Rightarrow> uuid)"

definition observe_request ::
  "(string option \<Rightarrow> ('r, 'b) world \<Rightarrow> api_response res \<times> ('r, 'b) world) \<Rightarrow> request \<Rightarrow> string \<Rightarrow> string \<Rightarrow> real
    \<Rightarrow> string option \<Rightarrow> ('r, 'b) world \<Rightarrow> api_response res \<times> string option \<times> ('r, 'b) world" where
  "observe_request call_next req uuid version elapsed ctx w =
     (let rid = request_id_of req uuid;
          (out, w1) = call_next (Some rid) w;
          status = (case out of Inl _ \<Rightarrow> 500 | Inr resp \<Rightarrow> rp_status resp);
          out' = (case out of
                    Inl e \<Rightarrow> Inl e
                  | Inr resp \<Rightarrow> Inr (resp\<lparr>rp_headers := AList.update ''X-Request-ID'' rid (rp_headers resp)\<rparr>));
          route = route_of req;
          w2 = (if unobserved route then w1
                else w1\<lparr>w_metrics :=
                  observe (HTTP_LATENCY @ labels [q_method req, route, version]) elapsed
                    (inc HTTP_REQUESTS (labels [q_method req, route, str_int status, version]) (w_metrics w1))\<rparr>)
      in (out', ctx, w2))"

text \<open>The whole application: the endpoint inside the exception handlers inside the middleware.\<close>

definition with_handlers ::
  "(string option \<Rightarrow> ('r, 'b) world \<Rightarrow> api_response res \<times> ('r, 'b) world)
    \<Rightarrow> string option \<Rightarrow> ('r, 'b) world \<Rightarrow> api_response res \<times> ('r, 'b) world" where
  "with_handlers endpoint rid w =
     (case endpoint rid w of
        (Inl e, w') \<Rightarrow> (let (out, m) = handle_exception e (w_metrics w') in (out, w'\<lparr>w_metrics := m\<rparr>))
      | (Inr resp, w') \<Rightarrow> (Inr resp, w'))"

definition serve ::
  "(string option \<Rightarrow> ('r, 'b) world \<Rightarrow> api_response res \<times> ('r, 'b) world) \<Rightarrow> request \<Rightarrow> string \<Rightarrow> string \<Rightarrow> real
    \<Rightarrow> string option \<Rightarrow> ('r, 'b) world \<Rightarrow> api_response res \<times> string option \<times> ('r, 'b) world" where
  "serve endpoint = observe_request (with_handlers endpoint)"

subsection \<open>The routes\<close>

text \<open>
  The endpoints with the parameters FastAPI decoded. \<open>read\<close> is a query: its connection may fail.
\<close>

datatype endpoint =
    Livez
  | Readyz bool string
  | Healthz
  | Healthz_Deps bool bool "(int \<times> int \<times> int) res"
  | List_Settlements "int option" int
  | Get_Settlement int
  | Create_Settlement settlement_in int
  | Execute_Settlement int int real real
  | Daily_Report "int option" int

definition read :: "reply \<Rightarrow> (db \<Rightarrow> 'a res) \<Rightarrow> db \<Rightarrow> 'a res" where
  "read rep f d = (case rep of Done \<Rightarrow> f d | Refused e \<Rightarrow> Inl e | Lost e \<Rightarrow> Inl e)"

definition answer :: "int \<Rightarrow> json res \<Rightarrow> api_response res" where
  "answer st r = (case r of Inl e \<Rightarrow> Inl e | Inr v \<Rightarrow> Inr (respond st v))"

definition route_handler ::
  "'r redis_api \<Rightarrow> reply \<Rightarrow> reply \<Rightarrow> endpoint \<Rightarrow> string option \<Rightarrow> ('r, 'b) world \<Rightarrow> api_response res \<times> ('r, 'b) world" where
  "route_handler R rep_db rep_push ep rid w =
     (case ep of
        Livez \<Rightarrow> (Inr (respond 200 livez), w)
      | Readyz draining version \<Rightarrow> (Inr (readyz draining version), w)
      | Healthz \<Rightarrow> (Inr (respond 200 healthz), w)
      | Healthz_Deps postgres redis sizes \<Rightarrow>
          (bind_res (pool_stats sizes) (\<lambda>pool. Inr (healthz_deps postgres redis pool)), w)
      | List_Settlements settlement_date limit \<Rightarrow>
          (answer 200 (bind_res (read rep_db (list_settlements settlement_date limit) (w_db w))
             (\<lambda>rows. Inr (JList (map list_item rows)))), w)
      | Get_Settlement settlement_id \<Rightarrow> (answer 200 (read rep_db (get_settlement settlement_id) (w_db w)), w)
      | Create_Settlement body new_id \<Rightarrow>
          (case create_settlement rep_db body new_id (w_db w) of (out, d) \<Rightarrow> (answer 201 out, w\<lparr>w_db := d\<rparr>))
      | Execute_Settlement settlement_id new_id created now \<Rightarrow>
          (case execute_settlement R rep_db rep_push settlement_id new_id created rid now w of
             (out, w') \<Rightarrow> (answer 202 out, w'))
      | Daily_Report date today \<Rightarrow>
          (answer 200 (read rep_db (\<lambda>d. Inr (report_json (report_day date today) (daily_report (report_day date today) d))) (w_db w)), w))"

end
