(* ===== verification/Worker.thy ===== *)
theory Worker
  imports Payout
begin

section \<open>The worker process: leases, recovery, retries, shutdown\<close>

text \<open>
  The second half of \<^verbatim>\<open>app/settle/worker.py\<close>: the heartbeat lease, recovery of dead
  workers' jobs, the Lua script that promotes due retries, the queue metrics, reconciliation,
  one turn of the housekeeping loop and of the main loop, the drain on shutdown and the
  liveness probe. \<open>now\<close> is the clock of the side that reads it: Redis for leases, the
  worker for \<open>time.time()\<close>.
\<close>

subsection \<open>Lease\<close>

definition heartbeat :: "config \<Rightarrow> 'r redis_api \<Rightarrow> string \<Rightarrow> string \<Rightarrow> real \<Rightarrow> 'r \<Rightarrow> 'r" where
  "heartbeat c R worker_id version now r =
     set_ex R (heartbeat_key worker_id) version now (WORKER_LEASE_SECONDS c) r"

definition lease_alive :: "'r redis_api \<Rightarrow> string \<Rightarrow> real \<Rightarrow> 'r \<Rightarrow> bool" where
  "lease_alive R owner now r = exists_key R (heartbeat_key owner) now r"

subsection \<open>Recovery of dead workers' jobs\<close>

text \<open>
  The \<open>while\<close> loop ends at the first empty reply, or at an empty string, which Python takes
  for false. It is given as much fuel as the list is long, and one more call; \<open>None\<close> would
  mean that this was not enough.
\<close>

fun rescue_loop :: "nat \<Rightarrow> 'r redis_api \<Rightarrow> string \<Rightarrow> nat \<Rightarrow> 'r \<Rightarrow> (nat \<times> 'r) option" where
  "rescue_loop 0 R key cnt r = None"
| "rescue_loop (Suc fuel) R key cnt r =
     (case lmove R key JOBS RIGHT RIGHT r of
        (Some raw, r') \<Rightarrow> if payload_truthy raw then rescue_loop fuel R key (cnt + 1) r' else Some (cnt, r')
      | (None, r') \<Rightarrow> Some (cnt, r'))"

definition rescue_list :: "'r redis_api \<Rightarrow> string \<Rightarrow> nat \<Rightarrow> 'r \<Rightarrow> (nat \<times> 'r) option" where
  "rescue_list R key cnt r = rescue_loop (Suc (length (lrange R r key))) R key cnt r"

fun recover_keys :: "'r redis_api \<Rightarrow> string \<Rightarrow> real \<Rightarrow> string list \<Rightarrow> nat \<Rightarrow> 'r \<Rightarrow> (nat \<times> 'r) option" where
  "recover_keys R worker_id now [] cnt r = Some (cnt, r)"
| "recover_keys R worker_id now (key # keys) cnt r =
     (let owner = drop (length PROCESSING_PREFIX) key
      in if owner = worker_id \<or> lease_alive R owner now r
         then recover_keys R worker_id now keys cnt r
         else case rescue_list R key cnt r of
                None \<Rightarrow> None
              | Some (cnt', r') \<Rightarrow> recover_keys R worker_id now keys cnt' r')"

definition recover_dead_workers ::
  "'r redis_api \<Rightarrow> string \<Rightarrow> real \<Rightarrow> 'r \<Rightarrow> metrics \<Rightarrow> (nat \<times> 'r \<times> metrics) option" where
  "recover_dead_workers R worker_id now r m =
     (case recover_keys R worker_id now (scan_prefix R PROCESSING_PREFIX r) 0 r of
        None \<Rightarrow> None
      | Some (cnt, r') \<Rightarrow> Some (cnt, r', if cnt > 0 then inc_by RECOVERED [] cnt m else m))"

subsection \<open>Promotion of due retries (the Lua script)\<close>

definition promote_one :: "'r redis_api \<Rightarrow> payload \<Rightarrow> 'r \<Rightarrow> 'r" where
  "promote_one R job r = rpush R JOBS job (zrem R RETRY job r)"

definition promote_due_retries :: "'r redis_api \<Rightarrow> real \<Rightarrow> 'r \<Rightarrow> nat \<times> 'r" where
  "promote_due_retries R now r =
     (let due = zrangebyscore R RETRY now 100 r
      in (length due, fold (promote_one R) due r))"

subsection \<open>Queue metrics\<close>

definition age_since :: "real \<Rightarrow> pyf \<Rightarrow> pyf" where
  "age_since now t = (let a = pyf_sub (Fin now) t in if pyf_le a 0 \<or> a = NotANumber then Fin 0 else a)"

text \<open>The age of a waiting job, and of the oldest one: a \<open>ValueError\<close> is caught.\<close>

definition job_age :: "real \<Rightarrow> payload \<Rightarrow> pyf res" where
  "job_age now raw =
     bind_res (json_loads raw) (\<lambda>v.
       case v of
         JObj job \<Rightarrow>
           (let e = dict_get job ''enqueued_at'' JNull
            in bind_res (json_float (if py_truth e then e else JFloat now)) (\<lambda>t. Inr (age_since now t)))
       | _ \<Rightarrow> Inl (AttributeError ''object has no attribute get''))"

definition oldest_age :: "real \<Rightarrow> payload option \<Rightarrow> pyf res" where
  "oldest_age now oldest =
     (case oldest of
        None \<Rightarrow> Inr (Fin 0)
      | Some raw \<Rightarrow>
          if \<not> payload_truthy raw then Inr (Fin 0)
          else (case job_age now raw of
                  Inl e \<Rightarrow> (case e of ValueError m \<Rightarrow> Inr (Fin 0) | _ \<Rightarrow> Inl e)
                | Inr age \<Rightarrow> Inr age))"

definition last_option :: "'a list \<Rightarrow> 'a option" where
  "last_option xs = (if xs = [] then None else Some (last xs))"

definition export_queue_metrics ::
  "'r redis_api \<Rightarrow> real \<Rightarrow> 'r \<Rightarrow> metrics \<Rightarrow> exn option \<times> metrics" where
  "export_queue_metrics R now r m =
     (let m1 = set_gauge QUEUE_DEPTH ''jobs'' (Fin (real (length (lrange R r JOBS)))) m;
          m2 = set_gauge QUEUE_DEPTH ''retry'' (Fin (real (zcard R RETRY r))) m1;
          m3 = set_gauge QUEUE_DEPTH ''dead'' (Fin (real (length (lrange R r DEAD)))) m2
      in case oldest_age now (last_option (lrange R r JOBS)) of
           Inl e \<Rightarrow> (Some e, m3)
         | Inr age \<Rightarrow> (None, set_gauge OLDEST_JOB_AGE [] age m3))"

subsection \<open>Reconciliation\<close>

definition stale_payouts :: "real \<Rightarrow> db \<Rightarrow> nat" where
  "stale_payouts now d =
     length (filter (\<lambda>p. (p_state p = ''queued'' \<or> p_state p = ''sending'') \<and> p_created_at p < now - 900) (payouts d))"

text \<open>
  \<open>dups\<close> is the outcome of the ledger request, \<open>rep\<close> how the query ends. Every exception is
  caught; the gauges set before it stay set.
\<close>

definition reconcile :: "(string \<times> nat) list res \<Rightarrow> reply \<Rightarrow> real \<Rightarrow> db \<Rightarrow> metrics \<Rightarrow> metrics" where
  "reconcile dups rep now d m =
     (case dups of
        Inl _ \<Rightarrow> m
      | Inr ds \<Rightarrow>
          (let m1 = set_gauge RECON_DUPLICATES [] (Fin (real (length ds))) m
           in case rep of
                Done \<Rightarrow> set_gauge RECON_LAST_SUCCESS [] (Fin now)
                         (set_gauge STALE_PAYOUTS [] (Fin (real (stale_payouts now d))) m1)
              | _ \<Rightarrow> m1))"

subsection \<open>One turn of the housekeeping loop\<close>

record house_state =
  h_last_recon :: real
  h_dead :: "exn option"

text \<open>
  Only \<open>redis.RedisError\<close> is caught: another exception ends the thread (\<open>h_dead\<close>). A failing
  Redis command is given by \<open>fault\<close>: the number of the call (heartbeat, recovery, promotion,
  metrics) that raises, with everything before it done.
\<close>

definition housekeeping_turn ::
  "config \<Rightarrow> 'r redis_api \<Rightarrow> string \<Rightarrow> string \<Rightarrow> nat option \<Rightarrow> real \<Rightarrow> real
    \<Rightarrow> (string \<times> nat) list res \<Rightarrow> reply \<Rightarrow> house_state \<Rightarrow> ('r, 'b) world \<Rightarrow> house_state \<times> ('r, 'b) world" where
  "housekeeping_turn c R worker_id version fault now monotonic dups rep h w =
     (let fails = (\<lambda>n. fault = Some n)
      in if fails 0 then (h, w)
         else let w1 = w\<lparr>w_redis := heartbeat c R worker_id version now (w_redis w)\<rparr>
         in if fails 1 then (h, w1)
         else case recover_dead_workers R worker_id now (w_redis w1) (w_metrics w1) of
           None \<Rightarrow> (h, w1)
         | Some (cnt, r2, m2) \<Rightarrow>
         let w2 = w1\<lparr>w_redis := r2, w_metrics := m2\<rparr>
         in if fails 2 then (h, w2)
         else let (n, r3) = promote_due_retries R now r2;
                  w3 = w2\<lparr>w_redis := r3\<rparr>
         in if fails 3 then (h, w3)
         else case export_queue_metrics R now r3 (w_metrics w3) of
           (Some e, m4) \<Rightarrow> (h\<lparr>h_dead := Some e\<rparr>, w3\<lparr>w_metrics := m4\<rparr>)
         | (None, m4) \<Rightarrow>
             (if monotonic - h_last_recon h > real_of_int (RECONCILE_INTERVAL_SECONDS c)
              then (h\<lparr>h_last_recon := monotonic\<rparr>, w3\<lparr>w_metrics := reconcile dups rep now (w_db w3) m4\<rparr>)
              else (h, w3\<lparr>w_metrics := m4\<rparr>)))"

subsection \<open>The main loop\<close>

record run_state =
  m_stop :: bool
  m_inflight :: int
  m_delay :: real

datatype turn = Ends | Sleeps | Fetches payload | Polls | Backs_off real

text \<open>
  One pass of \<open>while not self.stop.is_set()\<close>: what it does, the next state of the loop and
  Redis. \<open>rep\<close> says how the \<open>BLMOVE\<close> ends.
\<close>

definition run_turn :: "config \<Rightarrow> 'r redis_api \<Rightarrow> string \<Rightarrow> reply \<Rightarrow> run_state \<Rightarrow> 'r \<Rightarrow> turn \<times> run_state \<times> 'r" where
  "run_turn c R worker_id rep s r =
     (if m_stop s then (Ends, s, r)
      else if m_inflight s \<ge> WORKER_CONCURRENCY c then (Sleeps, s, r)
      else case perform rep (lmove R JOBS (processing_key worker_id) RIGHT LEFT) r of
        (Inl e, r') \<Rightarrow> (Backs_off (m_delay s), s\<lparr>m_delay := min (m_delay s * 2) 30\<rparr>, r')
      | (Inr None, r') \<Rightarrow> (Polls, s\<lparr>m_delay := 1 / 2\<rparr>, r')
      | (Inr (Some raw), r') \<Rightarrow>
          (Fetches raw, s\<lparr>m_delay := 1 / 2, m_inflight := m_inflight s + 1\<rparr>, r'))"

definition job_done :: "run_state \<Rightarrow> run_state" where
  "job_done s = s\<lparr>m_inflight := m_inflight s - 1\<rparr>"

definition on_signal :: "run_state \<Rightarrow> run_state" where
  "on_signal s = s\<lparr>m_stop := True\<rparr>"

text \<open>
  The drain waits in steps of 0.2 s while jobs are in flight and the deadline is not reached:
  \<open>inflight_at i\<close> and \<open>clock i\<close> are the count and the monotonic clock at the \<open>i\<close>-th check
  (the deadline is computed from the clock just before, \<open>now\<close>). A check takes at least
  0.2 s, so the wait ends within five checks per second of the timeout, which bounds the fuel.
\<close>

fun drain_wait :: "nat \<Rightarrow> (nat \<Rightarrow> int) \<Rightarrow> (nat \<Rightarrow> real) \<Rightarrow> real \<Rightarrow> nat \<Rightarrow> nat option" where
  "drain_wait 0 inflight_at clock deadline i = None"
| "drain_wait (Suc fuel) inflight_at clock deadline i =
     (if inflight_at i \<noteq> 0 \<and> clock i < deadline
      then drain_wait fuel inflight_at clock deadline (Suc i) else Some i)"

definition drain_finish :: "'r redis_api \<Rightarrow> string \<Rightarrow> 'r \<Rightarrow> nat \<times> 'r" where
  "drain_finish R worker_id r =
     (length (lrange R r (processing_key worker_id)), delete_key R (heartbeat_key worker_id) r)"

definition drain_fuel :: "config \<Rightarrow> nat" where
  "drain_fuel c = Suc (nat (5 * WORKER_SHUTDOWN_TIMEOUT c))"

text \<open>The number of the last check, the jobs left, and Redis without the lease.\<close>

definition drain ::
  "config \<Rightarrow> 'r redis_api \<Rightarrow> string \<Rightarrow> real \<Rightarrow> (nat \<Rightarrow> int) \<Rightarrow> (nat \<Rightarrow> real) \<Rightarrow> 'r \<Rightarrow> (nat \<times> nat \<times> 'r) option" where
  "drain c R worker_id now inflight_at clock r =
     (case drain_wait (drain_fuel c) inflight_at clock (now + real_of_int (WORKER_SHUTDOWN_TIMEOUT c)) 0 of
        None \<Rightarrow> None
      | Some i \<Rightarrow> Some (i, drain_finish R worker_id r))"

text \<open>The exec probe: \<open>None\<close> when the file does not exist.\<close>

definition check_alive :: "real \<Rightarrow> real \<Rightarrow> real option \<Rightarrow> int" where
  "check_alive max_age now mtime =
     (case mtime of None \<Rightarrow> 1 | Some t \<Rightarrow> if now - t < max_age then 0 else 1)"

end
