(* ===== verification/Payout_Correct.thy ===== *)
theory Payout_Correct
  imports Payout
begin

section \<open>Claiming and recording payouts: what the two transactions guarantee\<close>

text \<open>
  Exact results of \<open>claim\<close> and \<open>mark_paid\<close> on a well-formed table, the order \<open>db_le\<close> along
  which a payout row can only evolve (identity fixed, key fixed once set, a paid row frozen),
  preservation of \<open>db_ok\<close>, and the cases of \<open>handle\<close>.
\<close>

subsection \<open>The evolution of payout rows\<close>

definition row_le :: "payout \<Rightarrow> payout \<Rightarrow> bool" where
  "row_le p p' \<longleftrightarrow>
     p_id p' = p_id p \<and> p_settlement p' = p_settlement p \<and> p_merchant p' = p_merchant p
   \<and> p_amount p' = p_amount p \<and> p_currency p' = p_currency p
   \<and> (\<forall>k. p_key p = Some k \<longrightarrow> p_key p' = Some k)
   \<and> (p_state p = ''paid'' \<longrightarrow> p' = p)
   \<and> (p_state p = ''sending'' \<longrightarrow> p_state p' \<noteq> ''queued'')"

definition db_le :: "db \<Rightarrow> db \<Rightarrow> bool" where
  "db_le d d' \<longleftrightarrow> (\<forall>pid p. payout_row d pid = Some p \<longrightarrow> (\<exists>p'. payout_row d' pid = Some p' \<and> row_le p p'))"

lemma row_le_refl [simp]: "row_le p p"
  by (simp add: row_le_def)

lemma row_le_trans: "row_le p q \<Longrightarrow> row_le q r \<Longrightarrow> payout_ok q \<Longrightarrow> row_le p r"
  by (auto simp: row_le_def payout_ok_def)

lemma db_le_refl [simp]: "db_le d d"
  by (simp add: db_le_def)

lemma db_le_row: "db_le d d' \<Longrightarrow> payout_row d pid = Some p \<Longrightarrow> \<exists>p'. payout_row d' pid = Some p' \<and> row_le p p'"
  by (simp add: db_le_def)

lemma find_map_update:
  "(\<And>r. key (f r) = key r) \<Longrightarrow>
   find (\<lambda>r. key r = k) (map (\<lambda>r. if P r then f r else r) t)
     = map_option (\<lambda>r. if P r then f r else r) (find (\<lambda>r. key r = k) t)"
  by (induction t) auto

lemma payout_row_update:
  "(\<And>r. p_id (f r) = p_id r) \<Longrightarrow>
   payout_row (d\<lparr>payouts := map (\<lambda>r. if P r then f r else r) (payouts d)\<rparr>) pid
     = map_option (\<lambda>r. if P r then f r else r) (payout_row d pid)"
  by (simp add: payout_row_def find_map_update)

lemma payout_row_append:
  "payout_row (d\<lparr>payouts := payouts d @ [p]\<rparr>) pid =
     (case payout_row d pid of Some q \<Rightarrow> Some q | None \<Rightarrow> if p_id p = pid then Some p else None)"
proof -
  have "find P (xs @ [p]) = (case find P xs of Some q \<Rightarrow> Some q | None \<Rightarrow> if P p then Some p else None)"
    for P and xs :: "payout list" by (induction xs) auto
  then show ?thesis by (simp add: payout_row_def)
qed

lemma db_le_update:
  assumes "\<And>r. p_id (f r) = p_id r" and "\<And>r. P r \<Longrightarrow> row_le r (f r)"
  shows "db_le d (snd (update_payouts P f d))"
  using assms by (auto simp: db_le_def update_payouts_def sql_update_def payout_row_update)

lemma filter_unique:
  "distinct (map key t) \<Longrightarrow> p \<in> set t \<Longrightarrow> P p \<Longrightarrow> (\<And>r. P r \<Longrightarrow> key r = key p) \<Longrightarrow> filter P t = [p]"
proof (induction t)
  case (Cons r t)
  show ?case
  proof (cases "r = p")
    case True
    have "\<not> P q" if "q \<in> set t" for q
      using Cons.prems(1) Cons.prems(4) [of q] True that by (metis distinct.simps(2) image_eqI list.set_map list.simps(9))
    with True Cons.prems(3) show ?thesis by (simp add: filter_empty_conv)
  next
    case False
    with Cons.prems have p: "p \<in> set t" by simp
    with Cons.prems(1) have "key r \<noteq> key p" by (auto simp: image_iff)
    with Cons.prems(4) have "\<not> P r" by blast
    moreover have "filter P t = [p]"
      using Cons.prems(1) by (intro Cons.IH [OF _ p Cons.prems(3)] Cons.prems(4)) simp_all
    ultimately show ?thesis by simp
  qed
qed simp

lemma row_only:
  assumes "db_ok d" and "payout_row d pid = Some p" and "r \<in> set (payouts d)" and "p_id r = pid"
  shows "r = p"
  using assms payout_row_mem [of d r] by simp

lemma update_one_row:
  assumes ok: "db_ok d" and row: "payout_row d pid = Some p" and S: "S p"
    and keys: "unique_keys (map (\<lambda>r. if p_id r = pid then f r else r) (payouts d))"
  shows "update_payouts (\<lambda>r. Some (p_id r) = Some pid \<and> S r) f d =
     (Inr [f p], d\<lparr>payouts := map (\<lambda>r. if p_id r = pid then f r else r) (payouts d)\<rparr>)"
proof -
  from row have p: "p \<in> set (payouts d)" "p_id p = pid" by (auto dest: payout_row_some)
  have dist: "distinct (map p_id (payouts d))" using ok by (simp add: db_ok_def)
  have "filter (\<lambda>r. p_id r = pid \<and> S r) (payouts d) = [p]"
    using filter_unique [OF dist, of p "\<lambda>r. p_id r = pid \<and> S r"] p S by simp
  moreover have "(p_id r = pid \<and> S r) = (p_id r = pid)" if "r \<in> set (payouts d)" for r
    using row_only [OF ok row that] S by blast
  then have "map (\<lambda>r. if p_id r = pid \<and> S r then f r else r) (payouts d) =
      map (\<lambda>r. if p_id r = pid then f r else r) (payouts d)"
    by (auto cong: map_cong)
  ultimately show ?thesis using keys by (simp add: update_payouts_def sql_update_def del: map_eq_conv)
qed

lemma update_no_row:
  assumes "unique_keys (payouts d)" and "\<forall>r \<in> set (payouts d). \<not> P r"
  shows "update_payouts P f d = (Inr [], d)"
proof -
  have "map (\<lambda>r. if P r then f r else r) (payouts d) = payouts d"
    using assms(2) by (auto intro: map_idI)
  moreover have "filter P (payouts d) = []" using assms(2) by (simp add: filter_empty_conv)
  ultimately show ?thesis using assms(1) by (simp add: update_payouts_def sql_update_def del: map_eq_conv)
qed

subsection \<open>claim\<close>

abbreviation claimable :: "payout \<Rightarrow> bool" where
  "claimable p \<equiv> p_state p = ''queued'' \<or> p_state p = ''sending''"

lemma claim_row_simps [simp]:
  "p_id (claim_row key p) = p_id p" "p_settlement (claim_row key p) = p_settlement p"
  "p_merchant (claim_row key p) = p_merchant p" "p_amount (claim_row key p) = p_amount p"
  "p_currency (claim_row key p) = p_currency p" "p_state (claim_row key p) = ''sending''"
  "p_bank_ref (claim_row key p) = p_bank_ref p"
  "p_key (claim_row key p) = Some (case p_key p of None \<Rightarrow> key | Some k \<Rightarrow> k)"
  by (simp_all add: claim_row_def)

lemma non_nulls_map_keep:
  "(\<And>r. r \<in> set t \<Longrightarrow> col (g r) = col r) \<Longrightarrow> non_nulls col (map g t) = non_nulls col t"
  by (induction t) (auto split: option.splits)

lemma distinct_non_nulls_set_one:
  assumes "distinct (map key t)" and "p \<in> set t" and "col p = None" and "distinct (non_nulls col t)"
    and "\<And>r. col (f r) = Some v"
  shows "distinct (non_nulls col (map (\<lambda>r. if key r = key p then f r else r) t))
     \<longleftrightarrow> (\<forall>q \<in> set t. col q \<noteq> Some v)"
  using assms(1-4)
proof (induction t)
  case (Cons r t)
  show ?case
  proof (cases "key r = key p")
    case True
    with Cons.prems have rp: "r = p" and nin: "\<forall>q \<in> set t. key q \<noteq> key p"
      by (auto simp: image_iff)
    then have "map (\<lambda>r. if key r = key p then f r else r) t = t" by (auto intro: map_idI)
    with rp True Cons.prems assms(5) show ?thesis by (auto simp: set_non_nulls)
  next
    case False
    then have p: "p \<in> set t" using Cons.prems by auto
    let ?t = "map (\<lambda>r. if key r = key p then f r else r) t"
    have only: "q = p" if "q \<in> set t" "key q = key p" for q
      using distinct_key_eq [of key t q p] Cons.prems(1) p that by simp
    have vals: "set (non_nulls col ?t) = insert v (set (non_nulls col t))"
      using p only Cons.prems(3) assms(5) by (force simp: set_non_nulls)
    have IH: "distinct (non_nulls col ?t) \<longleftrightarrow> (\<forall>q \<in> set t. col q \<noteq> Some v)"
      using Cons p by (cases "col r") auto
    show ?thesis
    proof (cases "col r")
      case None
      with False IH show ?thesis by simp
    next
      case (Some w)
      with Cons.prems(4) have "w \<notin> set (non_nulls col t)" by simp
      with Some False IH vals show ?thesis by auto
    qed
  qed
qed simp

lemma unique_keys_claim:
  assumes ok: "db_ok d" and row: "payout_row d pid = Some p"
  shows "unique_keys (map (\<lambda>r. if p_id r = pid then claim_row key r else r) (payouts d)) \<longleftrightarrow>
     p_key p \<noteq> None \<or> (\<forall>q \<in> set (payouts d). p_key q \<noteq> Some key)"
proof -
  from row have p: "p \<in> set (payouts d)" "p_id p = pid" by (auto dest: payout_row_some)
  have dist: "distinct (map p_id (payouts d))" and uk: "distinct (non_nulls p_key (payouts d))"
    using ok by (simp_all add: db_ok_def unique_keys_def)
  note only = row_only [OF ok row]
  show ?thesis
  proof (cases "p_key p")
    case None
    have "map (\<lambda>r. if p_id r = pid then claim_row key r else r) (payouts d) =
        map (\<lambda>r. if p_id r = p_id p then r\<lparr>p_state := ''sending'', p_key := Some key\<rparr> else r) (payouts d)"
      using p(2) None by (intro map_cong) (auto simp: claim_row_def dest!: only)
    then show ?thesis
      using distinct_non_nulls_set_one [OF dist p(1) None uk, of "\<lambda>r. r\<lparr>p_state := ''sending'', p_key := Some key\<rparr>" key] None
      by (simp add: unique_keys_def del: map_eq_conv)
  next
    case (Some k)
    have "non_nulls p_key (map (\<lambda>r. if p_id r = pid then claim_row key r else r) (payouts d)) = non_nulls p_key (payouts d)"
      by (rule non_nulls_map_keep) (use only Some in auto)
    with uk Some show ?thesis by (simp add: unique_keys_def)
  qed
qed

definition claimed_db :: "string \<Rightarrow> int \<Rightarrow> db \<Rightarrow> db" where
  "claimed_db key pid d = d\<lparr>payouts := map (\<lambda>r. if p_id r = pid then claim_row key r else r) (payouts d)\<rparr>"

lemma claim_tx_open:
  assumes ok: "db_ok d" and row: "payout_row d pid = Some p" and st: "claimable p"
    and fresh: "p_key p \<noteq> None \<or> (\<forall>q \<in> set (payouts d). p_key q \<noteq> Some key)"
  shows "claim_tx key (JInt pid) d =
     (Inr (Some (case p_key p of None \<Rightarrow> key | Some k \<Rightarrow> k), None), claimed_db key pid d)"
proof -
  have "unique_keys (map (\<lambda>r. if p_id r = pid then claim_row key r else r) (payouts d))"
    using unique_keys_claim [OF ok row] fresh by blast
  from update_one_row [OF ok row, of claimable "claim_row key", OF st this] show ?thesis
    by (simp add: claim_tx_def claimed_db_def)
qed

lemma claim_tx_clash:
  assumes ok: "db_ok d" and row: "payout_row d pid = Some p" and st: "claimable p"
    and key: "p_key p = None" and clash: "q \<in> set (payouts d)" "p_key q = Some key"
  shows "claim_tx key (JInt pid) d = (Inl (DBAPIError ''duplicate key: bank_idempotency_key''), d)"
proof -
  from row have p: "p \<in> set (payouts d)" "p_id p = pid" by (auto dest: payout_row_some)
  have "(p_id r = pid \<and> claimable r) = (p_id r = pid)" if "r \<in> set (payouts d)" for r
    using row_only [OF ok row that] st by blast
  then have "map (\<lambda>r. if p_id r = pid \<and> claimable r then claim_row key r else r) (payouts d) =
      map (\<lambda>r. if p_id r = pid then claim_row key r else r) (payouts d)" by (auto cong: map_cong)
  moreover have "\<not> unique_keys (map (\<lambda>r. if p_id r = pid then claim_row key r else r) (payouts d))"
    using unique_keys_claim [OF ok row, of key] key clash by auto
  ultimately show ?thesis
    by (simp add: claim_tx_def update_payouts_def sql_update_def del: map_eq_conv)
qed

lemma claim_tx_closed:
  assumes ok: "db_ok d" and closed: "\<And>p. payout_row d pid = Some p \<Longrightarrow> \<not> claimable p"
  shows "claim_tx key (JInt pid) d = (Inr (None, map_option p_state (payout_row d pid)), d)"
proof -
  have "update_payouts (\<lambda>p. Some (p_id p) = Some pid \<and> claimable p) (claim_row key) d = (Inr [], d)"
    by (rule update_no_row)
       (use ok closed payout_row_mem [OF ok] in \<open>auto simp: db_ok_def\<close>)
  then show ?thesis by (simp add: claim_tx_def payout_row_def)
qed

lemma payout_row_claimed:
  "payout_row (claimed_db key pid d) pid' =
     map_option (\<lambda>r. if p_id r = pid then claim_row key r else r) (payout_row d pid')"
  by (simp add: claimed_db_def payout_row_update)

lemma claim_row_le: "claimable p \<Longrightarrow> row_le p (claim_row key p)"
  by (auto simp: row_le_def)

lemma mark_row_le: "p_state p = ''sending'' \<Longrightarrow> row_le p (p\<lparr>p_state := ''paid'', p_bank_ref := ref\<rparr>)"
  by (simp add: row_le_def)

lemma claim_row_ok: "payout_ok p \<Longrightarrow> claimable p \<Longrightarrow> payout_ok (claim_row key p)"
  by (auto simp: payout_ok_def)

lemma claim_tx_snd:
  "snd (claim_tx key pid d) = d \<or>
   (\<exists>v. snd (claim_tx key pid d) =
      snd (update_payouts (\<lambda>p. Some (p_id p) = v \<and> claimable p) (claim_row key) d))"
proof (cases "bind_bigint pid")
  case (Inr v)
  let ?u = "update_payouts (\<lambda>p. Some (p_id p) = v \<and> claimable p) (claim_row key) d"
  have "snd (claim_tx key pid d) = snd ?u"
    using Inr by (cases ?u; cases "fst ?u") (simp_all add: claim_tx_def split: option.splits)
  then show ?thesis by blast
qed (simp add: claim_tx_def)

lemma claim_tx_db_ok: "db_ok d \<Longrightarrow> db_ok (snd (claim_tx key pid d))"
  using claim_tx_snd [of key pid d]
  by (auto intro!: update_payouts_ok simp: keeps_identity_def payout_ok_def)

lemma claim_tx_db_le: "db_le d (snd (claim_tx key pid d))"
  using claim_tx_snd [of key pid d]
proof (elim disjE exE)
  fix v
  assume "snd (claim_tx key pid d) =
    snd (update_payouts (\<lambda>p. Some (p_id p) = v \<and> claimable p) (claim_row key) d)"
  moreover have "db_le d (snd (update_payouts (\<lambda>p. Some (p_id p) = v \<and> claimable p) (claim_row key) d))"
    by (rule db_le_update) (simp, blast intro: claim_row_le)
  ultimately show ?thesis by simp
qed simp

subsection \<open>mark\_paid\<close>

lemma mark_paid_tx_snd:
  "snd (mark_paid_tx pid ref d) = d \<or>
   (\<exists>v r. snd (mark_paid_tx pid ref d) =
      snd (update_payouts (\<lambda>p. Some (p_id p) = v \<and> p_state p = ''sending'')
             (\<lambda>p. p\<lparr>p_state := ''paid'', p_bank_ref := r\<rparr>) d))"
proof (cases "bind_bigint pid"; cases "bind_text ref")
  fix v r
  assume b: "bind_bigint pid = Inr v" "bind_text ref = Inr r"
  let ?u = "update_payouts (\<lambda>p. Some (p_id p) = v \<and> p_state p = ''sending'')
             (\<lambda>p. p\<lparr>p_state := ''paid'', p_bank_ref := r\<rparr>) d"
  have "snd (mark_paid_tx pid ref d) = snd ?u"
    using b by (cases ?u; cases "fst ?u") (simp_all add: mark_paid_tx_def)
  then show ?thesis by blast
qed (simp_all add: mark_paid_tx_def)

lemma mark_paid_tx_db_ok: "db_ok d \<Longrightarrow> db_ok (snd (mark_paid_tx pid ref d))"
  using mark_paid_tx_snd [of pid ref d]
  by (auto intro!: update_payouts_ok simp: keeps_identity_def payout_ok_def)

lemma mark_paid_tx_db_le: "db_le d (snd (mark_paid_tx pid ref d))"
  using mark_paid_tx_snd [of pid ref d]
proof (elim disjE exE)
  fix v r
  assume "snd (mark_paid_tx pid ref d) =
    snd (update_payouts (\<lambda>p. Some (p_id p) = v \<and> p_state p = ''sending'')
      (\<lambda>p. p\<lparr>p_state := ''paid'', p_bank_ref := r\<rparr>) d)"
  moreover have "db_le d (snd (update_payouts (\<lambda>p. Some (p_id p) = v \<and> p_state p = ''sending'')
      (\<lambda>p. p\<lparr>p_state := ''paid'', p_bank_ref := r\<rparr>) d))"
    by (rule db_le_update) (simp, blast intro: mark_row_le)
  ultimately show ?thesis by simp
qed simp

lemma mark_paid_tx_sending:
  assumes ok: "db_ok d" and row: "payout_row d pid = Some p" and st: "p_state p = ''sending''"
  shows "mark_paid_tx (JInt pid) (JStr ref) d =
     (Inr (), d\<lparr>payouts := map (\<lambda>r. if p_id r = pid then r\<lparr>p_state := ''paid'', p_bank_ref := Some ref\<rparr> else r) (payouts d)\<rparr>)"
proof -
  have "unique_keys (map (\<lambda>r. if p_id r = pid then r\<lparr>p_state := ''paid'', p_bank_ref := Some ref\<rparr> else r) (payouts d))"
    using ok non_nulls_map_keep [of "payouts d" p_key "\<lambda>r. if p_id r = pid then r\<lparr>p_state := ''paid'', p_bank_ref := Some ref\<rparr> else r"]
    by (simp add: unique_keys_def db_ok_def)
  from update_one_row [OF ok row, of "\<lambda>p. p_state p = ''sending''", OF st this] show ?thesis
    by (simp add: mark_paid_tx_def)
qed

lemma mark_paid_tx_other:
  assumes ok: "db_ok d" and "\<And>p. payout_row d pid = Some p \<Longrightarrow> p_state p \<noteq> ''sending''"
  shows "mark_paid_tx (JInt pid) (JStr ref) d = (Inr (), d)"
proof -
  have "update_payouts (\<lambda>p. Some (p_id p) = Some pid \<and> p_state p = ''sending'')
      (\<lambda>p. p\<lparr>p_state := ''paid'', p_bank_ref := Some ref\<rparr>) d = (Inr [], d)"
    by (rule update_no_row) (use assms payout_row_mem [OF ok] in \<open>auto simp: db_ok_def\<close>)
  then show ?thesis by (simp add: mark_paid_tx_def)
qed

subsection \<open>Transactions that may fail\<close>

lemma transaction_snd:
  assumes "P s" and "P (snd (f s))" shows "P (snd (transaction rep f s))"
  using transaction_cases [of rep f s] assms by auto

lemma claim_db_ok: "db_ok d \<Longrightarrow> db_ok (snd (claim rep key pid d))"
  unfolding claim_def by (rule transaction_snd) (simp_all add: claim_tx_db_ok)

lemma claim_db_le: "db_le d (snd (claim rep key pid d))"
  unfolding claim_def using claim_tx_db_le by (intro transaction_snd [of "db_le d"]) simp_all

lemma mark_paid_db_ok: "db_ok d \<Longrightarrow> db_ok (snd (mark_paid rep pid ref d))"
  unfolding mark_paid_def by (rule transaction_snd) (simp_all add: mark_paid_tx_db_ok)

lemma mark_paid_db_le: "db_le d (snd (mark_paid rep pid ref d))"
  unfolding mark_paid_def using mark_paid_tx_db_le by (intro transaction_snd [of "db_le d"]) simp_all

lemmas claim_cases = claim_tx_open claim_tx_clash claim_tx_closed

text \<open>A claim that succeeds says exactly which key the row now holds.\<close>

lemma claim_Some:
  assumes ok: "db_ok d" and c: "claim rep key (JInt pid) d = (Inr (Some k, st), d')"
  shows "\<exists>p. payout_row d pid = Some p \<and> claimable p \<and> payout_row d' pid = Some (claim_row key p)
     \<and> p_key (claim_row key p) = Some k \<and> st = None"
proof -
  from c have tx: "claim_tx key (JInt pid) d = (Inr (Some k, st), d')"
    unfolding claim_def by (auto dest: transaction_ok)
  obtain p where p: "payout_row d pid = Some p" "claimable p"
    using claim_tx_closed [OF ok, of pid key] tx by fastforce
  show ?thesis
  proof (cases "p_key p \<noteq> None \<or> (\<forall>q \<in> set (payouts d). p_key q \<noteq> Some key)")
    case True
    from claim_tx_open [OF ok p True] tx p show ?thesis
      by (auto simp: payout_row_claimed dest: payout_row_some)
  next
    case False
    with claim_tx_clash [OF ok p] tx show ?thesis by auto
  qed
qed

lemma claim_None:
  assumes ok: "db_ok d" and c: "claim rep key (JInt pid) d = (Inr (None, st), d')"
  shows "d' = d \<and> st = map_option p_state (payout_row d pid) \<and> (\<forall>p. payout_row d pid = Some p \<longrightarrow> \<not> claimable p)"
proof -
  from c have tx: "claim_tx key (JInt pid) d = (Inr (None, st), d')"
    unfolding claim_def by (auto dest: transaction_ok)
  have closed: "\<not> claimable p" if p: "payout_row d pid = Some p" for p
  proof
    assume open_p: "claimable p"
    show False
    proof (cases "p_key p \<noteq> None \<or> (\<forall>q \<in> set (payouts d). p_key q \<noteq> Some key)")
      case True
      from claim_tx_open [OF ok p open_p True] tx show False by simp
    next
      case False
      with claim_tx_clash [OF ok p open_p] tx show False by auto
    qed
  qed
  with claim_tx_closed [OF ok, of pid key] tx show ?thesis by auto
qed

lemma mark_paid_done:
  assumes ok: "db_ok d" and m: "mark_paid rep (JInt pid) (JStr ref) d = (Inr u, d')"
    and row: "payout_row d pid = Some p" and st: "p_state p \<noteq> ''queued''"
  shows "\<exists>p'. payout_row d' pid = Some p' \<and> p_state p' = ''paid''
     \<and> (p_state p = ''sending'' \<longrightarrow> p' = p\<lparr>p_state := ''paid'', p_bank_ref := Some ref\<rparr>)"
proof -
  from m have tx: "mark_paid_tx (JInt pid) (JStr ref) d = (Inr u, d')"
    unfolding mark_paid_def by (auto dest: transaction_ok)
  from row ok have "payout_ok p" by (auto simp: db_ok_def dest: payout_row_some)
  with st consider "p_state p = ''sending''" | "p_state p = ''paid''" by (auto simp: payout_ok_def)
  then show ?thesis
  proof cases
    case 1
    from mark_paid_tx_sending [OF ok row 1] tx row show ?thesis
      by (auto simp: payout_row_update dest: payout_row_some)
  next
    case 2
    with mark_paid_tx_other [OF ok, of pid] tx row show ?thesis by auto
  qed
qed

end
