(* ===== verification/System.thy ===== *)
theory System
  imports Api Worker Payout_Correct
begin

section \<open>The whole system: API, queue, workers, bank, and their crashes\<close>

text \<open>
  Any number of API requests and worker threads run against one database, one Redis and one
  bank. A thread executes one job in the atomic pieces of \<open>process\<close>: the claim, the bank
  call, the record, the acknowledgement or the re-queue; \<open>run_thread_process\<close> shows that
  running the pieces without interference is \<open>process\<close>. Between two pieces anything may
  happen: other threads run, a process dies (its threads vanish), jobs are moved back from any
  processing list (by a rescuer whose view of the lease may even be wrong), retries are
  promoted, an operator re-queues a dead letter, and every outside call may fail before or
  after its effect. The invariant of this transition system holds for every Redis that keeps
  the contract \<open>redis_service\<close>.
\<close>

subsection \<open>Threads\<close>

datatype pc =
    Fetched
  | Claimed json string
  | Answered json json
  | Settled string
  | Failing exn

record thread =
  th_worker :: string
  th_raw :: payload
  th_pc :: pc

fun job_of :: "payload \<Rightarrow> dict option" where
  "job_of (Json (JObj job)) = Some job"
| "job_of _ = None"

definition thread_step ::
  "config \<Rightarrow> 'r redis_api \<Rightarrow> 'b post \<Rightarrow> env \<Rightarrow> thread \<Rightarrow> ('r, 'b) world \<Rightarrow> thread option \<times> ('r, 'b) world" where
  "thread_step c R post ev t w =
     (case job_of (th_raw t) of
        None \<Rightarrow>
          (None, (case json_loads (th_raw t) of
                    Inl _ \<Rightarrow> snd (bury_garbage R (th_worker t) (ev_requeue ev) (th_raw t) w)
                  | Inr _ \<Rightarrow> w))
      | Some job \<Rightarrow>
          (case th_pc t of
             Fetched \<Rightarrow>
               (case handle_claim ev job (w_db w) of
                  (Inl e, d) \<Rightarrow> (Some (t\<lparr>th_pc := Failing e\<rparr>), w\<lparr>w_db := d\<rparr>)
                | (Inr Skip, d) \<Rightarrow> (Some (t\<lparr>th_pc := Settled ''duplicate_skipped''\<rparr>), w\<lparr>w_db := d\<rparr>)
                | (Inr (Send pid key), d) \<Rightarrow> (Some (t\<lparr>th_pc := Claimed pid key\<rparr>), w\<lparr>w_db := d\<rparr>))
           | Claimed pid key \<Rightarrow>
               (case handle_pay c post job pid key (w_bank w) of
                  (Inl e, b) \<Rightarrow> (Some (t\<lparr>th_pc := Failing e\<rparr>), w\<lparr>w_bank := b\<rparr>)
                | (Inr result, b) \<Rightarrow> (Some (t\<lparr>th_pc := Answered pid result\<rparr>), w\<lparr>w_bank := b\<rparr>))
           | Answered pid result \<Rightarrow>
               (case handle_record ev job pid result w of
                  (Inl e, w') \<Rightarrow> (Some (t\<lparr>th_pc := Failing e\<rparr>), w')
                | (Inr outcome, w') \<Rightarrow> (Some (t\<lparr>th_pc := Settled outcome\<rparr>), w'))
           | Settled outcome \<Rightarrow>
               (case ack R (th_worker t) (ev_ack ev) (th_raw t) (w_redis w) of
                  (Inl e, r) \<Rightarrow> (Some (t\<lparr>th_pc := Failing e\<rparr>), w\<lparr>w_redis := r\<rparr>)
                | (Inr _, r) \<Rightarrow> (None, count_w JOBS_TOTAL outcome (w\<lparr>w_redis := r\<rparr>)))
           | Failing e \<Rightarrow> (None, snd (on_error c R (th_worker t) ev (th_raw t) job e w))))"

fun run_thread ::
  "nat \<Rightarrow> config \<Rightarrow> 'r redis_api \<Rightarrow> 'b post \<Rightarrow> env \<Rightarrow> thread \<Rightarrow> ('r, 'b) world \<Rightarrow> thread option \<times> ('r, 'b) world" where
  "run_thread 0 c R post ev t w = (Some t, w)"
| "run_thread (Suc n) c R post ev t w =
     (case thread_step c R post ev t w of
        (None, w') \<Rightarrow> (None, w')
      | (Some t', w') \<Rightarrow> run_thread n c R post ev t' w')"


subsection \<open>The transition system\<close>

record 'r sys =
  sy_world :: "('r, bank) world"
  sy_threads :: "thread list"
  sy_pending :: "payout list"
  sy_accepted :: "int set"

text \<open>
  \<open>sy_pending\<close> holds the payouts of API requests that have committed and not yet pushed
  their job; \<open>sy_accepted\<close> is a ghost: the payouts whose request was answered with 202.
\<close>

definition init_sys :: "int list \<Rightarrow> 'r \<Rightarrow> 'r sys" where
  "init_sys ms r =
     \<lparr>sy_world = \<lparr>w_db = empty_db ms, w_redis = r, w_bank = \<lparr>ledger = [], by_key = []\<rparr>, w_metrics = no_metrics\<rparr>,
      sy_threads = [], sy_pending = [], sy_accepted = {}\<rparr>"

definition set_redis :: "'r \<Rightarrow> 'r sys \<Rightarrow> 'r sys" where
  "set_redis r s = s\<lparr>sy_world := (sy_world s)\<lparr>w_redis := r\<rparr>\<rparr>"

definition set_db :: "db \<Rightarrow> 'r sys \<Rightarrow> 'r sys" where
  "set_db d s = s\<lparr>sy_world := (sy_world s)\<lparr>w_db := d\<rparr>\<rparr>"

abbreviation sy_db :: "'r sys \<Rightarrow> db" where "sy_db s \<equiv> w_db (sy_world s)"
abbreviation sy_redis :: "'r sys \<Rightarrow> 'r" where "sy_redis s \<equiv> w_redis (sy_world s)"
abbreviation sy_bank :: "'r sys \<Rightarrow> bank" where "sy_bank s \<equiv> w_bank (sy_world s)"

lemma set_simps [simp]:
  "sy_db (set_redis r s) = sy_db s" "sy_redis (set_redis r s) = r" "sy_bank (set_redis r s) = sy_bank s"
  "sy_threads (set_redis r s) = sy_threads s" "sy_pending (set_redis r s) = sy_pending s"
  "sy_accepted (set_redis r s) = sy_accepted s"
  "sy_db (set_db d s) = d" "sy_redis (set_db d s) = sy_redis s" "sy_bank (set_db d s) = sy_bank s"
  "sy_threads (set_db d s) = sy_threads s" "sy_pending (set_db d s) = sy_pending s"
  "sy_accepted (set_db d s) = sy_accepted s"
  by (simp_all add: set_redis_def set_db_def)

inductive sys_step :: "config \<Rightarrow> 'r redis_api \<Rightarrow> 'r sys \<Rightarrow> 'r sys \<Rightarrow> bool"
  for c :: config and R :: "'r redis_api" where
  create:
    "create_settlement rep body new_id (sy_db s) = (out, d) \<Longrightarrow> sys_step c R s (set_db d s)"
| execute:
    "transaction rep (execute_tx sid new_id created) (sy_db s) = (Inr p, d) \<Longrightarrow>
     sys_step c R s ((set_db d s)\<lparr>sy_pending := p # sy_pending s\<rparr>)"
| execute_fails:
    "transaction rep (execute_tx sid new_id created) (sy_db s) = (Inl e, d) \<Longrightarrow> sys_step c R s (set_db d s)"
| push:
    "sy_pending s = us @ p # vs \<Longrightarrow>
     perform rep (\<lambda>r. ((), lpush R JOBS (json_dumps (JObj (new_job rid now p))) r)) (sy_redis s) = (Inr u, r) \<Longrightarrow>
     sys_step c R s ((set_redis r s)\<lparr>sy_pending := us @ vs, sy_accepted := insert (p_id p) (sy_accepted s)\<rparr>)"
| push_fails:
    "sy_pending s = us @ p # vs \<Longrightarrow>
     perform rep (\<lambda>r. ((), lpush R JOBS (json_dumps (JObj (new_job rid now p))) r)) (sy_redis s) = (Inl e, r) \<Longrightarrow>
     sys_step c R s ((set_redis r s)\<lparr>sy_pending := us @ vs\<rparr>)"
| api_crash:
    "sy_pending s = us @ p # vs \<Longrightarrow> sys_step c R s (s\<lparr>sy_pending := us @ vs\<rparr>)"
| fetch:
    "lmove R JOBS (processing_key wid) RIGHT LEFT (sy_redis s) = (Some raw, r) \<Longrightarrow>
     sys_step c R s ((set_redis r s)\<lparr>sy_threads := \<lparr>th_worker = wid, th_raw = raw, th_pc = Fetched\<rparr> # sy_threads s\<rparr>)"
| work:
    "sy_threads s = us @ t # vs \<Longrightarrow> ev_uuid ev \<noteq> [] \<Longrightarrow>
     thread_step c R (bank_post net fails bank_uuid bank_now) ev t (sy_world s) = (t', w) \<Longrightarrow>
     sys_step c R s (s\<lparr>sy_world := w, sy_threads := us @ (case t' of None \<Rightarrow> [] | Some t' \<Rightarrow> [t']) @ vs\<rparr>)"
| worker_crash:
    "sy_threads s = us @ t # vs \<Longrightarrow> sys_step c R s (s\<lparr>sy_threads := us @ vs\<rparr>)"
| rescue:
    "sys_step c R s (set_redis (snd (lmove R (processing_key owner) JOBS RIGHT RIGHT (sy_redis s))) s)"
| promote:
    "sys_step c R s (set_redis (snd (promote_due_retries R now (sy_redis s))) s)"
| requeue_dead:
    "sys_step c R s (set_redis (snd (lmove R DEAD JOBS RIGHT LEFT (sy_redis s))) s)"
| lease_renewed:
    "sys_step c R s (set_redis (heartbeat c R wid version now (sy_redis s)) s)"
| lease_gone:
    "sys_step c R s (set_redis (delete_key R (heartbeat_key wid) (sy_redis s)) s)"

inductive reachable :: "config \<Rightarrow> 'r redis_api \<Rightarrow> int list \<Rightarrow> 'r \<Rightarrow> 'r sys \<Rightarrow> bool"
  for c :: config and R :: "'r redis_api" and ms :: "int list" and r :: 'r where
  start: "reachable c R ms r (init_sys ms r)"
| step: "reachable c R ms r s \<Longrightarrow> sys_step c R s s' \<Longrightarrow> reachable c R ms r s'"

inductive_simps reachable_init: "reachable c R ms r (init_sys ms r)"

subsection \<open>The invariant\<close>

definition job_pid :: "payload \<Rightarrow> int option" where
  "job_pid x = (case job_of x of
     None \<Rightarrow> None
   | Some job \<Rightarrow> (case map_of job ''payout_id'' of Some (JInt i) \<Rightarrow> Some i | _ \<Rightarrow> None))"

text \<open>Everything the queue holds: the lists of jobs and the retries.\<close>

definition stored :: "'r redis_api \<Rightarrow> 'r \<Rightarrow> payload set" where
  "stored R r = {x. (\<exists>k. list_key k \<and> x \<in> set (lrange R r k)) \<or> zscores R r RETRY x \<noteq> None}"

text \<open>
  A job carries the merchant, the amount and the currency of its payout row, and the fields
  the worker reads besides have the types the API gave them.
\<close>

definition job_for :: "payout \<Rightarrow> dict \<Rightarrow> bool" where
  "job_for p job \<longleftrightarrow>
     map_of job ''payout_id'' = Some (JInt (p_id p)) \<and> map_of job ''merchant_id'' = Some (JInt (p_merchant p))
   \<and> map_of job ''amount_minor'' = Some (JInt (p_amount p)) \<and> map_of job ''currency'' = Some (JStr (p_currency p))
   \<and> (\<exists>rid. map_of job ''request_id'' = Some (nullable rid))
   \<and> (\<exists>t. map_of job ''enqueued_at'' = Some (JFloat t))
   \<and> (\<exists>n. map_of job ''attempt'' = Some (JInt n))"

definition good_job :: "db \<Rightarrow> payload \<Rightarrow> bool" where
  "good_job d x \<longleftrightarrow> (\<exists>job p. x = Json (JObj job) \<and> payout_row d (p_id p) = Some p \<and> job_for p job)"

definition entry_for :: "payout \<Rightarrow> entry \<Rightarrow> bool" where
  "entry_for p e \<longleftrightarrow>
     e_reference e = payout_reference (JInt (p_id p)) \<and> e_merchant e = p_merchant p
   \<and> e_amount e = p_amount p \<and> e_currency e = p_currency p"

definition bank_ok :: "db \<Rightarrow> bank \<Rightarrow> bool" where
  "bank_ok d b \<longleftrightarrow>
     distinct (map e_reference (ledger b))
   \<and> (\<forall>e \<in> set (ledger b). \<exists>k. booked b k = Some e)
   \<and> (\<forall>k e. booked b k = Some e \<longrightarrow>
        e \<in> set (ledger b) \<and> (\<exists>p. payout_row d (p_id p) = Some p \<and> p_key p = Some k \<and> entry_for p e))"

definition paid_ok :: "db \<Rightarrow> bank \<Rightarrow> bool" where
  "paid_ok d b \<longleftrightarrow>
     (\<forall>p \<in> set (payouts d). p_state p = ''paid'' \<longrightarrow>
        (\<exists>k e. p_key p = Some k \<and> booked b k = Some e \<and> p_bank_ref p = Some (e_bank_ref e)))"

definition pc_ok :: "db \<Rightarrow> bank \<Rightarrow> payload \<Rightarrow> pc \<Rightarrow> bool" where
  "pc_ok d b raw pc =
     (case pc of
        Claimed pid key \<Rightarrow>
          (\<exists>p. pid = JInt (p_id p) \<and> job_pid raw = Some (p_id p) \<and> payout_row d (p_id p) = Some p
             \<and> p_key p = Some key \<and> p_state p \<noteq> ''queued'')
      | Answered pid result \<Rightarrow>
          (\<exists>p key e rep. pid = JInt (p_id p) \<and> job_pid raw = Some (p_id p) \<and> payout_row d (p_id p) = Some p
             \<and> p_key p = Some key \<and> p_state p \<noteq> ''queued'' \<and> booked b key = Some e \<and> result = entry_json e rep)
      | Settled outcome \<Rightarrow>
          (\<exists>p. job_pid raw = Some (p_id p) \<and> payout_row d (p_id p) = Some p \<and> p_state p = ''paid'')
      | _ \<Rightarrow> True)"

definition accepted_ok :: "'r redis_api \<Rightarrow> db \<Rightarrow> 'r \<Rightarrow> int set \<Rightarrow> bool" where
  "accepted_ok R d r acc \<longleftrightarrow>
     (\<forall>i \<in> acc. \<exists>p. payout_row d i = Some p \<and>
        (p_state p = ''paid'' \<or> (\<exists>x \<in> stored R r. job_pid x = Some i)))"

definition keys_ok :: "db \<Rightarrow> bool" where
  "keys_ok d \<longleftrightarrow> (\<forall>p \<in> set (payouts d). p_key p \<noteq> Some [])"

definition sys_inv :: "'r redis_api \<Rightarrow> 'r sys \<Rightarrow> bool" where
  "sys_inv R s \<longleftrightarrow>
     db_ok (sy_db s) \<and> keys_ok (sy_db s)
   \<and> (\<forall>x \<in> stored R (sy_redis s). good_job (sy_db s) x)
   \<and> (\<forall>p \<in> set (sy_pending s). \<exists>q. payout_row (sy_db s) (p_id q) = Some q \<and> row_le p q)
   \<and> (\<forall>t \<in> set (sy_threads s). good_job (sy_db s) (th_raw t) \<and> pc_ok (sy_db s) (sy_bank s) (th_raw t) (th_pc t))
   \<and> bank_ok (sy_db s) (sy_bank s) \<and> paid_ok (sy_db s) (sy_bank s)
   \<and> accepted_ok R (sy_db s) (sy_redis s) (sy_accepted s)"

end
