(* ===== verification/System_Correct.thy ===== *)
theory System_Correct
  imports System
begin

section \<open>The invariant of the system\<close>

text \<open>
  Every step of the transition system keeps \<open>sys_inv\<close>. The proof follows the data: what each
  operation does to the tables (\<open>db_le\<close> and the new rows), to the bank (\<open>bank_le\<close>), and to
  the set of stored jobs; then one lemma per piece of a thread, one per step, and rule
  induction on \<open>reachable\<close>.
\<close>

subsection \<open>Stability of the parts of the invariant\<close>

definition bank_le :: "bank \<Rightarrow> bank \<Rightarrow> bool" where
  "bank_le b b' \<longleftrightarrow> set (ledger b) \<subseteq> set (ledger b') \<and> (\<forall>k e. booked b k = Some e \<longrightarrow> booked b' k = Some e)"

lemma bank_le_refl [simp]: "bank_le b b"
  by (simp add: bank_le_def)

lemma row_le_ident:
  "row_le p p' \<Longrightarrow> p_id p' = p_id p \<and> p_merchant p' = p_merchant p \<and> p_amount p' = p_amount p \<and> p_currency p' = p_currency p"
  by (simp add: row_le_def)

lemma row_le_key: "row_le p p' \<Longrightarrow> p_key p = Some k \<Longrightarrow> p_key p' = Some k"
  by (simp add: row_le_def)

lemma row_le_paid: "row_le p p' \<Longrightarrow> p_state p = ''paid'' \<Longrightarrow> p' = p"
  by (simp add: row_le_def)

lemma row_le_not_queued:
  "row_le p p' \<Longrightarrow> payout_ok p \<Longrightarrow> p_state p \<noteq> ''queued'' \<Longrightarrow> p_state p' \<noteq> ''queued''"
  by (auto simp: row_le_def payout_ok_def)

lemma job_for_le: "row_le p p' \<Longrightarrow> job_for p' job = job_for p job"
  by (simp add: job_for_def row_le_ident)

lemma entry_for_le: "row_le p p' \<Longrightarrow> entry_for p' e = entry_for p e"
  by (simp add: entry_for_def row_le_ident)

lemma good_job_le: "db_le d d' \<Longrightarrow> good_job d x \<Longrightarrow> good_job d' x"
proof -
  assume le: "db_le d d'" and "good_job d x"
  then obtain job p where x: "x = Json (JObj job)" "payout_row d (p_id p) = Some p" "job_for p job"
    unfolding good_job_def by blast
  from db_le_row [OF le x(2)] obtain p' where p': "payout_row d' (p_id p) = Some p'" "row_le p p'" by blast
  then have "payout_row d' (p_id p') = Some p'" "job_for p' job"
    using x(3) by (simp_all add: row_le_ident job_for_le)
  with x(1) show ?thesis unfolding good_job_def by blast
qed

lemma bank_ok_le: "db_le d d' \<Longrightarrow> bank_ok d b \<Longrightarrow> bank_ok d' b"
proof -
  assume le: "db_le d d'" and ok: "bank_ok d b"
  have "\<exists>p. payout_row d' (p_id p) = Some p \<and> p_key p = Some k \<and> entry_for p e" if "booked b k = Some e" for k e
  proof -
    from ok that obtain p where p: "payout_row d (p_id p) = Some p" "p_key p = Some k" "entry_for p e"
      unfolding bank_ok_def by blast
    from db_le_row [OF le p(1)] obtain p' where "payout_row d' (p_id p) = Some p'" "row_le p p'" by blast
    with p show ?thesis by (intro exI [of _ p']) (simp add: row_le_ident row_le_key entry_for_le)
  qed
  with ok show ?thesis unfolding bank_ok_def by blast
qed

lemma payout_ok_row: "db_ok d \<Longrightarrow> payout_row d i = Some p \<Longrightarrow> payout_ok p"
  by (auto simp: db_ok_def dest: payout_row_some)

lemma pc_ok_le:
  assumes "db_ok d" and le: "db_le d d'" "bank_le b b'" and ok: "pc_ok d b raw pc"
  shows "pc_ok d' b' raw pc"
proof (cases pc)
  case (Claimed pid key)
  with ok obtain p where p: "pid = JInt (p_id p)" "job_pid raw = Some (p_id p)"
      "payout_row d (p_id p) = Some p" "p_key p = Some key" "p_state p \<noteq> ''queued''"
    by (auto simp: pc_ok_def)
  from db_le_row [OF le(1) p(3)] obtain p' where p': "payout_row d' (p_id p) = Some p'" "row_le p p'" by blast
  note facts = row_le_ident [OF p'(2)] row_le_key [OF p'(2) p(4)]
    row_le_not_queued [OF p'(2) payout_ok_row [OF assms(1) p(3)] p(5)]
  show ?thesis unfolding pc_ok_def Claimed pc.case
    by (rule exI [of _ p']) (use p(1,2) p'(1) facts in simp)
next
  case (Answered pid result)
  with ok obtain p key e rep where p: "pid = JInt (p_id p)" "job_pid raw = Some (p_id p)"
      "payout_row d (p_id p) = Some p" "p_key p = Some key" "p_state p \<noteq> ''queued''"
      "booked b key = Some e" "result = entry_json e rep"
    by (auto simp: pc_ok_def)
  from db_le_row [OF le(1) p(3)] obtain p' where p': "payout_row d' (p_id p) = Some p'" "row_le p p'" by blast
  note facts = row_le_ident [OF p'(2)] row_le_key [OF p'(2) p(4)]
    row_le_not_queued [OF p'(2) payout_ok_row [OF assms(1) p(3)] p(5)]
  from le(2) p(6) have "booked b' key = Some e" by (simp add: bank_le_def)
  then show ?thesis unfolding pc_ok_def Answered pc.case
    by (intro exI [of _ p'] exI [of _ key] exI [of _ e] exI [of _ rep]) (use p(1,2,7) p'(1) facts in simp)
next
  case (Settled outcome)
  with ok obtain p where p: "job_pid raw = Some (p_id p)" "payout_row d (p_id p) = Some p" "p_state p = ''paid''"
    by (auto simp: pc_ok_def)
  from db_le_row [OF le(1) p(2)] row_le_paid p Settled show ?thesis
    by (auto simp: pc_ok_def)
qed (simp_all add: pc_ok_def)

lemma paid_ok_bank_le: "bank_le b b' \<Longrightarrow> paid_ok d b \<Longrightarrow> paid_ok d b'"
  unfolding paid_ok_def bank_le_def by blast

lemma paid_ok_rows:
  "(\<And>p. p \<in> set (payouts d') \<Longrightarrow> p_state p = ''paid'' \<Longrightarrow> p \<in> set (payouts d)) \<Longrightarrow> paid_ok d b \<Longrightarrow> paid_ok d' b"
  unfolding paid_ok_def by blast

lemma accepted_ok_le:
  assumes le: "db_le d d'" and sub: "\<And>x. x \<in> stored R r \<Longrightarrow> job_pid x \<noteq> None \<Longrightarrow>
      (\<exists>y \<in> stored R r'. job_pid y = job_pid x)
      \<or> (\<exists>p. payout_row d' (the (job_pid x)) = Some p \<and> p_state p = ''paid'')"
    and ok: "accepted_ok R d r acc"
  shows "accepted_ok R d' r' acc"
  unfolding accepted_ok_def
proof
  fix i assume "i \<in> acc"
  with ok obtain p where p: "payout_row d i = Some p"
      "p_state p = ''paid'' \<or> (\<exists>x \<in> stored R r. job_pid x = Some i)" unfolding accepted_ok_def by blast
  from db_le_row [OF le p(1)] obtain p' where p': "payout_row d' i = Some p'" "row_le p p'" by blast
  from p(2) show "\<exists>p. payout_row d' i = Some p \<and> (p_state p = ''paid'' \<or> (\<exists>x \<in> stored R r'. job_pid x = Some i))"
  proof
    assume "p_state p = ''paid''"
    with p' row_le_paid show ?thesis by auto
  next
    assume "\<exists>x \<in> stored R r. job_pid x = Some i"
    then obtain x where "x \<in> stored R r" "job_pid x = Some i" by blast
    with sub [of x] p' show ?thesis by auto
  qed
qed

lemma accepted_ok_db: "db_le d d' \<Longrightarrow> accepted_ok R d r acc \<Longrightarrow> accepted_ok R d' r acc"
  by (erule accepted_ok_le) auto

subsection \<open>New rows of claim and mark\_paid\<close>

lemma update_payouts_rows:
  "q \<in> set (payouts (snd (update_payouts P f d))) \<Longrightarrow>
     q \<in> set (payouts d) \<or> (\<exists>r \<in> set (payouts d). P r \<and> q = f r)"
  by (auto simp: update_payouts_def sql_update_def split: if_splits)

lemma claim_rows:
  assumes "q \<in> set (payouts (snd (claim rep key pid d)))"
  shows "q \<in> set (payouts d) \<or> (\<exists>r \<in> set (payouts d). claimable r \<and> q = claim_row key r)"
proof -
  have tx: "q \<in> set (payouts d) \<or> (\<exists>r \<in> set (payouts d). claimable r \<and> q = claim_row key r)"
    if "q \<in> set (payouts (snd (claim_tx key pid d)))"
    using claim_tx_snd [of key pid d] that
    by (elim disjE exE) (use update_payouts_rows in fastforce)+
  from assms transaction_cases [of rep "claim_tx key pid" d] show ?thesis
    unfolding claim_def using tx by fastforce
qed

lemma claim_keys_ok: "keys_ok d \<Longrightarrow> key \<noteq> [] \<Longrightarrow> keys_ok (snd (claim rep key pid d))"
  unfolding keys_ok_def
  by (auto dest!: claim_rows split: option.splits)

lemma claim_no_new_paid:
  "q \<in> set (payouts (snd (claim rep key pid d))) \<Longrightarrow> p_state q = ''paid'' \<Longrightarrow> q \<in> set (payouts d)"
  by (auto dest!: claim_rows)

lemma mark_paid_rows:
  assumes "q \<in> set (payouts (snd (mark_paid rep (JInt i) (JStr ref) d)))"
  shows "q \<in> set (payouts d) \<or>
    (\<exists>r \<in> set (payouts d). p_id r = i \<and> p_state r = ''sending'' \<and> q = r\<lparr>p_state := ''paid'', p_bank_ref := Some ref\<rparr>)"
proof -
  let ?u = "update_payouts (\<lambda>p. Some (p_id p) = Some i \<and> p_state p = ''sending'')
      (\<lambda>p. p\<lparr>p_state := ''paid'', p_bank_ref := Some ref\<rparr>) d"
  have "snd (mark_paid_tx (JInt i) (JStr ref) d) = snd ?u"
    by (cases ?u; cases "fst ?u") (simp_all add: mark_paid_tx_def)
  with transaction_state [of rep "mark_paid_tx (JInt i) (JStr ref)" d]
  have "snd (mark_paid rep (JInt i) (JStr ref) d) = d \<or> snd (mark_paid rep (JInt i) (JStr ref) d) = snd ?u"
    by (simp add: mark_paid_def)
  then show ?thesis
  proof
    assume "snd (mark_paid rep (JInt i) (JStr ref) d) = snd ?u"
    with assms have "q \<in> set (payouts (snd ?u))" by simp
    from update_payouts_rows [OF this] show ?thesis by blast
  qed (use assms in simp)
qed

subsection \<open>The bank call of a well-formed job\<close>

lemma bank_charge_le: "k \<noteq> [] \<Longrightarrow> bank_le b (snd (bank_charge body k n b))"
  using mock.charge_new [of k b body n] mock.charge_replay [of k b _ body n]
  by (cases "booked b k") (auto simp: bank_le_def)

lemma booked_charge: "k \<noteq> [] \<Longrightarrow> booked (snd (bank_charge body k n b)) k = Some (fst (bank_charge body k n b))"
  using mock.charge_new [of k b body n] mock.charge_replay [of k b _ body n]
  by (cases "booked b k") auto

definition body_for :: "payout \<Rightarrow> payout_in" where
  "body_for p = \<lparr>i_merchant = p_merchant p, i_amount = p_amount p, i_currency = p_currency p,
     i_reference = payout_reference (JInt (p_id p))\<rparr>"

lemma row_id_inject:
  "payout_row d (p_id q) = Some q \<Longrightarrow> payout_row d (p_id p) = Some p \<Longrightarrow> p_id q = p_id p \<Longrightarrow> q = p"
  by (metis option.inject)

lemma entry_for_new: "entry_for p (new_entry (body_for p) uuid now)"
  by (simp add: entry_for_def new_entry_def body_for_def)

lemma bank_charge_ok:
  assumes ok: "bank_ok d b" "db_ok d" and row: "payout_row d (p_id p) = Some p" "p_key p = Some k" "k \<noteq> []"
  shows "bank_ok d (snd (bank_charge (body_for p) k n b))"
proof (cases "booked b k")
  case (Some e)
  with mock.charge_replay [OF row(3) Some] ok show ?thesis by simp
next
  case None
  define e where "e = fst (bank_charge (body_for p) k n b)"
  note new = mock.charge_new [OF row(3) None, of "body_for p" n, folded e_def]
  have e: "e = new_entry (body_for p) (fst n) (snd n)"
    using None row(3) by (simp add: e_def bank_charge_def create_payout_def Let_def)
  then have ef: "entry_for p e" by (simp add: entry_for_new)
  have "e_reference e \<noteq> e_reference e'" if "e' \<in> set (ledger b)" for e'
  proof
    assume same: "e_reference e = e_reference e'"
    from that ok(1) obtain k' where k': "booked b k' = Some e'" unfolding bank_ok_def by blast
    with ok(1) obtain q where q: "booked b k' = Some e'" "payout_row d (p_id q) = Some q"
        "p_key q = Some k'" "entry_for q e'"
      unfolding bank_ok_def by blast
    from same ef q(4) have "p_id q = p_id p" by (simp add: entry_for_def payout_reference_def)
    then have "q = p" by (rule row_id_inject [OF q(2) row(1)])
    with q(1,3) row(2) None show False by simp
  qed
  then have "distinct (map e_reference (ledger b @ [e]))" using ok(1) by (auto simp: bank_ok_def)
  moreover have "\<exists>k'. ((booked b)(k \<mapsto> e)) k' = Some e'" if "e' \<in> set (ledger b @ [e])" for e'
  proof (cases "e' = e")
    case False
    with that ok(1) obtain k' where "booked b k' = Some e'" unfolding bank_ok_def by auto
    with None show ?thesis by (intro exI [of _ k']) auto
  qed (auto intro: exI [of _ k])
  moreover have "e' \<in> set (ledger b @ [e]) \<and> (\<exists>p. payout_row d (p_id p) = Some p \<and> p_key p = Some k' \<and> entry_for p e')"
    if "((booked b)(k \<mapsto> e)) k' = Some e'" for k' e'
  proof (cases "k' = k")
    case True
    with that ef row show ?thesis by auto
  next
    case False
    with that have "booked b k' = Some e'" by simp
    with ok(1) show ?thesis unfolding bank_ok_def by auto
  qed
  ultimately show ?thesis unfolding bank_ok_def using new by simp
qed

lemma bank_post_cases:
  assumes body: "rq_body req = JObj [(''merchant_id'', JInt (p_merchant p)), (''amount_minor'', JInt (p_amount p)),
        (''currency'', JStr (p_currency p)), (''reference'', JStr (payout_reference (JInt (p_id p))))]"
    and key: "map_of (rq_headers req) ''Idempotency-Key'' = Some k" "k \<noteq> []"
    and post: "bank_post net fails uuid now req b = (out, b')"
  shows "(b' = b \<or> b' = snd (bank_charge (body_for p) k (uuid, now) b))
    \<and> (\<forall>resp. out = Inr resp \<longrightarrow> rs_status resp < 400 \<longrightarrow>
        b' = snd (bank_charge (body_for p) k (uuid, now) b)
        \<and> (\<exists>rep. rs_json resp = Inr (entry_json (fst (bank_charge (body_for p) k (uuid, now) b)) rep)))"
proof -
  have pin: "payout_in_of (rq_body req) = Some (body_for p)"
    by (simp add: body payout_in_of_def body_for_def)
  show ?thesis
  proof (cases fails)
    case True
    then have "bank_endpoint fails uuid now req b =
        (json_response 503 (JObj [(''detail'', JStr ''bank temporarily unavailable'')]), b)"
      by (simp add: bank_endpoint_def pin create_payout_fails)
    with post show ?thesis by (cases net) (auto simp: bank_post_def json_response_def)
  next
    case False
    then have "bank_endpoint fails uuid now req b =
        (json_response 200 (entry_json (fst (bank_charge (body_for p) k (uuid, now) b)) (booked b k \<noteq> None)),
         snd (bank_charge (body_for p) k (uuid, now) b))"
      by (simp add: bank_endpoint_def pin key create_payout_charge)
    with post show ?thesis by (cases net) (auto simp: bank_post_def json_response_def)
  qed
qed

lemma handle_pay_cases:
  assumes job: "job_for p job" and key: "k \<noteq> []"
    and hp: "handle_pay c (bank_post net fails uuid now) job (JInt (p_id p)) k b = (out, b')"
  shows "(b' = b \<or> b' = snd (bank_charge (body_for p) k (uuid, now) b))
    \<and> (\<forall>v. out = Inr v \<longrightarrow> b' = snd (bank_charge (body_for p) k (uuid, now) b)
        \<and> (\<exists>rep. v = entry_json (fst (bank_charge (body_for p) k (uuid, now) b)) rep))"
proof -
  let ?rid = "dict_get job ''request_id'' JNull" and ?ref = "payout_reference (JInt (p_id p))"
  let ?post = "bank_post net fails uuid now"
  have hp': "pay c ?post (JInt (p_merchant p)) (JInt (p_amount p)) (JStr (p_currency p)) ?ref k ?rid b = (out, b')"
    using hp job by (simp add: handle_pay_def dict_item_def job_for_def)
  show ?thesis
  proof (cases "pay_request c (JInt (p_merchant p)) (JInt (p_amount p)) (JStr (p_currency p)) ?ref k ?rid")
    case (Inl e)
    with hp' show ?thesis by (auto simp: pay_def)
  next
    case (Inr req)
    note pr = bank_post_cases [OF pay_request_header(2) [OF Inr] pay_request_header(1) [OF Inr] key]
    from pay_state [of c ?post "JInt (p_merchant p)" "JInt (p_amount p)" "JStr (p_currency p)" ?ref k ?rid b]
      hp' Inr have "b' = b \<or> b' = snd (?post req b)" by auto
    then have "b' = b \<or> b' = snd (bank_charge (body_for p) k (uuid, now) b)"
      using pr [of net fails uuid now b "fst (?post req b)" "snd (?post req b)"] by auto
    moreover have "b' = snd (bank_charge (body_for p) k (uuid, now) b)
        \<and> (\<exists>rep. v = entry_json (fst (bank_charge (body_for p) k (uuid, now) b)) rep)" if "out = Inr v" for v
    proof -
      from hp' that obtain resp where "?post req b = (Inr resp, b')" "rs_status resp < 400" "rs_json resp = Inr v"
        using pay_result [of c ?post _ _ _ ?ref k ?rid b v b'] Inr by fastforce
      with pr [of net fails uuid now b "Inr resp" b'] show ?thesis by auto
    qed
    ultimately show ?thesis by blast
  qed
qed

end
