(* ===== verification/System_Inv.thy ===== *)
theory System_Inv
  imports System_Correct
begin

section \<open>Every step keeps the invariant\<close>

text \<open>
  First what each Redis command does to the set of stored jobs, from the contract; then the
  five pieces of a thread; then the steps of the system, and all reachable states.
\<close>

subsection \<open>Stored jobs under the Redis commands\<close>

context redis_service begin

lemma stored_lpush [simp]: "list_key k \<Longrightarrow> stored R (lpush R k x r) = insert x (stored R r)"
  by (auto simp: stored_def split: if_splits)

lemma stored_rpush [simp]: "list_key k \<Longrightarrow> stored R (rpush R k x r) = insert x (stored R r)"
  by (auto simp: stored_def split: if_splits)

lemma stored_zadd [simp]: "stored R (zadd R RETRY x t r) = insert x (stored R r)"
  by (auto simp: stored_def)

lemma stored_lrem:
  "list_key k \<Longrightarrow> stored R (lrem1 R k x r) \<subseteq> stored R r"
  "list_key k \<Longrightarrow> stored R r - {x} \<subseteq> stored R (lrem1 R k x r)"
  by (auto simp: stored_def set_remove1_other split: if_splits dest: notin_set_remove1 set_remove1_subset [THEN subsetD])

lemma stored_set_ex [simp]: "lease_key h \<Longrightarrow> stored R (set_ex R h v now ttl r) = stored R r"
  by (simp add: stored_def)

lemma stored_delete [simp]: "lease_key h \<Longrightarrow> stored R (delete_key R h r) = stored R r"
  by (simp add: stored_def)

lemma taken_remaining: "xs \<noteq> [] \<Longrightarrow> set xs = insert (taken a xs) (set (remaining a xs))"
proof (cases a)
  case RIGHT
  moreover assume "xs \<noteq> []"
  then have "set xs = insert (last xs) (set (butlast xs))"
    by (cases xs rule: rev_cases) auto
  ultimately show ?thesis by simp
qed (cases xs; simp)

lemma set_put_at [simp]: "set (put_at a x xs) = insert x (set xs)"
  by (cases a) auto

lemma moved_elements:
  assumes "ls k \<noteq> []" and "K k" "K k'"
  shows "(\<exists>l. K l \<and> x \<in> set (moved k k' a b ls l)) = (\<exists>l. K l \<and> x \<in> set (ls l))"
proof -
  define ls' where "ls' = ls(k := remaining a (ls k))"
  have m: "moved k k' a b ls = ls'(k' := put_at b (taken a (ls k)) (ls' k'))"
    by (simp add: moved_def ls'_def Let_def)
  have "(\<exists>l. K l \<and> x \<in> set (moved k k' a b ls l)) \<longleftrightarrow> x = taken a (ls k) \<or> (\<exists>l. K l \<and> x \<in> set (ls' l))"
    unfolding m using assms(3) by (auto split: if_splits)
  also have "\<dots> \<longleftrightarrow> (\<exists>l. K l \<and> x \<in> set (ls l))"
    using assms(2) taken_remaining [OF assms(1), of a] by (auto simp: ls'_def split: if_splits)
  finally show ?thesis .
qed

lemma stored_lmove [simp]:
  assumes "list_key k" "list_key k'"
  shows "stored R (snd (lmove R k k' a b r)) = stored R r"
proof (cases "lrange R r k = []")
  case False
  then show ?thesis
    using assms moved_elements [of "lrange R r" k list_key k' _ a b]
    by (simp add: stored_def lmove_list)
qed (use assms in simp)

lemma lmove_stored:
  assumes "list_key k" "list_key k'" "lmove R k k' a b r = (Some x, r')"
  shows "x \<in> stored R r"
proof -
  from assms have ne: "lrange R r k \<noteq> []" by auto
  with assms lmove_reply [of k k' r a b] have "x = taken a (lrange R r k)" by simp
  with taken_remaining [OF ne, of a] have "x \<in> set (lrange R r k)" by simp
  with assms(1) show ?thesis by (auto simp: stored_def)
qed

lemma stored_zrem:
  "stored R (zrem R RETRY x r) \<subseteq> stored R r" "stored R r - {x} \<subseteq> stored R (zrem R RETRY x r)"
  by (auto simp: stored_def split: if_splits)

lemma stored_promote_one: "x \<in> stored R r \<Longrightarrow> stored R (promote_one R x r) = stored R r"
  using stored_zrem [where x = x and r = r] by (auto simp: promote_one_def)

lemma stored_promote_all: "set xs \<subseteq> stored R r \<Longrightarrow> stored R (fold (promote_one R) xs r) = stored R r"
  by (induction xs arbitrary: r) (auto simp: stored_promote_one)

lemma stored_promote: "stored R (snd (promote_due_retries R now r)) = stored R r"
proof -
  have "set (zrangebyscore R RETRY now 100 r) \<subseteq> stored R r"
    using zrange_due [of RETRY _ now 100 r] by (fastforce simp: stored_def)
  from stored_promote_all [OF this] show ?thesis
    by (simp add: promote_due_retries_def Let_def)
qed

end

subsection \<open>The pieces of a thread\<close>

text \<open>What holds of the world alone, and how far one piece may move it.\<close>

definition world_ok :: "'r redis_api \<Rightarrow> ('r, bank) world \<Rightarrow> bool" where
  "world_ok R w \<longleftrightarrow>
     db_ok (w_db w) \<and> keys_ok (w_db w) \<and> (\<forall>x \<in> stored R (w_redis w). good_job (w_db w) x)
   \<and> bank_ok (w_db w) (w_bank w) \<and> paid_ok (w_db w) (w_bank w)"

definition step_ok :: "'r redis_api \<Rightarrow> payload \<Rightarrow> ('r, bank) world \<Rightarrow> pc option \<Rightarrow> ('r, bank) world \<Rightarrow> bool" where
  "step_ok R raw w pc' w' \<longleftrightarrow>
     world_ok R w' \<and> db_le (w_db w) (w_db w') \<and> bank_le (w_bank w) (w_bank w')
   \<and> (\<forall>pc. pc' = Some pc \<longrightarrow> pc_ok (w_db w') (w_bank w') raw pc)
   \<and> (\<forall>acc. accepted_ok R (w_db w) (w_redis w) acc \<longrightarrow> accepted_ok R (w_db w') (w_redis w') acc)"

lemma step_okI:
  assumes "world_ok R w'" "db_le (w_db w) (w_db w')" "bank_le (w_bank w) (w_bank w')"
    and "\<And>pc. pc' = Some pc \<Longrightarrow> pc_ok (w_db w') (w_bank w') raw pc"
    and "w_redis w' = w_redis w"
  shows "step_ok R raw w pc' w'"
  using assms accepted_ok_db [of "w_db w" "w_db w'" R] by (simp add: step_ok_def)

lemma world_ok_db:
  assumes "world_ok R w" and le: "db_le (w_db w) d" and "db_ok d" "keys_ok d"
    and "\<And>q. q \<in> set (payouts d) \<Longrightarrow> p_state q = ''paid'' \<Longrightarrow> q \<in> set (payouts (w_db w))"
  shows "world_ok R (w\<lparr>w_db := d\<rparr>)"
  using assms bank_ok_le [OF le] good_job_le [OF le] paid_ok_rows [of d "w_db w" "w_bank w"]
  by (simp add: world_ok_def)

lemma job_of_good: "good_job d raw \<Longrightarrow> job_of raw = Some job \<Longrightarrow>
   \<exists>p. payout_row d (p_id p) = Some p \<and> job_for p job \<and> job_pid raw = Some (p_id p)"
proof -
  assume "good_job d raw" "job_of raw = Some job"
  then obtain p where p: "raw = Json (JObj job)" "payout_row d (p_id p) = Some p" "job_for p job"
    by (auto simp: good_job_def)
  then have "job_pid raw = Some (p_id p)" by (simp add: job_pid_def job_for_def)
  with p(2,3) show ?thesis by blast
qed

lemma step_claim:
  assumes w: "world_ok R w" and job: "good_job (w_db w) raw" "job_of raw = Some job" and uuid: "ev_uuid ev \<noteq> []"
    and hc: "handle_claim ev job (w_db w) = (out, d)"
  shows "step_ok R raw w (Some (case out of Inl e \<Rightarrow> Failing e | Inr Skip \<Rightarrow> Settled ''duplicate_skipped''
            | Inr (Send pid key) \<Rightarrow> Claimed pid key)) (w\<lparr>w_db := d\<rparr>)"
proof -
  from job_of_good [OF job] obtain p where p: "payout_row (w_db w) (p_id p) = Some p" "job_for p job"
      "job_pid raw = Some (p_id p)" by blast
  then have pid: "dict_item job ''payout_id'' = Inr (JInt (p_id p))"
    by (simp add: dict_item_def job_for_def)
  obtain res where cl: "claim (ev_claim ev) (ev_uuid ev) (JInt (p_id p)) (w_db w) = (res, d)"
    using hc pid by (auto simp: handle_claim_def split: prod.splits sum.splits option.splits if_splits)
  then have d: "d = snd (claim (ev_claim ev) (ev_uuid ev) (JInt (p_id p)) (w_db w))" by simp
  have ok: "db_ok (w_db w)" using w by (simp add: world_ok_def)
  have le: "db_le (w_db w) d" unfolding d by (rule claim_db_le)
  have wok: "world_ok R (w\<lparr>w_db := d\<rparr>)"
    using w le claim_no_new_paid unfolding d
    by (intro world_ok_db) (auto simp: world_ok_def claim_db_ok claim_keys_ok uuid)
  show ?thesis
  proof (rule step_okI)
    fix pc
    assume "Some (case out of Inl e \<Rightarrow> Failing e | Inr Skip \<Rightarrow> Settled ''duplicate_skipped''
            | Inr (Send pid key) \<Rightarrow> Claimed pid key) = Some pc"
    then have pc: "pc = (case out of Inl e \<Rightarrow> Failing e | Inr Skip \<Rightarrow> Settled ''duplicate_skipped''
            | Inr (Send pid key) \<Rightarrow> Claimed pid key)" by simp
    show "pc_ok (w_db (w\<lparr>w_db := d\<rparr>)) (w_bank (w\<lparr>w_db := d\<rparr>)) raw pc"
    proof (cases res)
      case (Inl e)
      with hc pid cl pc show ?thesis by (auto simp: handle_claim_def pc_ok_def)
    next
      case (Inr r)
      obtain k st where r: "r = (k, st)" by (cases r)
      show ?thesis
      proof (cases k)
        case None
        with claim_None [OF ok] cl Inr r have "d = w_db w" "st = map_option p_state (payout_row (w_db w) (p_id p))"
          by blast+
        with hc pid cl pc Inr r None p show ?thesis
          by (auto simp: handle_claim_def pc_ok_def split: if_splits)
      next
        case (Some key)
        from claim_Some [OF ok, of "ev_claim ev" "ev_uuid ev" "p_id p" key st d] cl Inr r Some p
        have row: "payout_row d (p_id p) = Some (claim_row (ev_uuid ev) p)"
            "p_key (claim_row (ev_uuid ev) p) = Some key" by auto
        from hc pid cl pc Inr r Some have "pc = Claimed (JInt (p_id p)) key"
          by (auto simp: handle_claim_def)
        with row p(3) show ?thesis
          unfolding pc_ok_def by (simp, intro exI [of _ "claim_row (ev_uuid ev) p"]) simp
      qed
    qed
  qed (use wok le in simp_all)
qed

lemma step_pay:
  assumes w: "world_ok R w" and job: "good_job (w_db w) raw" "job_of raw = Some job"
    and pc: "pc_ok (w_db w) (w_bank w) raw (Claimed pid key)"
    and hp: "handle_pay c (bank_post net fails bu bn) job pid key (w_bank w) = (out, b)"
  shows "step_ok R raw w (Some (case out of Inl e \<Rightarrow> Failing e | Inr result \<Rightarrow> Answered pid result)) (w\<lparr>w_bank := b\<rparr>)"
proof -
  from pc obtain p where p: "pid = JInt (p_id p)" "job_pid raw = Some (p_id p)"
      "payout_row (w_db w) (p_id p) = Some p" "p_key p = Some key" "p_state p \<noteq> ''queued''"
    by (auto simp: pc_ok_def)
  from job_of_good [OF job] p have jf: "job_for p job" by (metis option.inject)
  have dbok: "db_ok (w_db w)" and bok: "bank_ok (w_db w) (w_bank w)" and key: "key \<noteq> []"
    using w p(3,4) by (auto simp: world_ok_def keys_ok_def dest: payout_row_some)
  let ?b = "snd (bank_charge (body_for p) key (bu, bn) (w_bank w))"
  note cases = handle_pay_cases [OF jf key hp [unfolded p(1)]]
  from cases have b: "b = w_bank w \<or> b = ?b" by blast
  then have le: "bank_le (w_bank w) b" using bank_charge_le [OF key] by auto
  have "bank_ok (w_db w) b" using b bok bank_charge_ok [OF bok dbok p(3,4) key] by auto
  with w le have wok: "world_ok R (w\<lparr>w_bank := b\<rparr>)" by (auto simp: world_ok_def intro: paid_ok_bank_le)
  show ?thesis
  proof (rule step_okI)
    fix pc'
    assume "Some (case out of Inl e \<Rightarrow> Failing e | Inr result \<Rightarrow> Answered pid result) = Some pc'"
    then have pc': "pc' = (case out of Inl e \<Rightarrow> Failing e | Inr result \<Rightarrow> Answered pid result)" by simp
    show "pc_ok (w_db (w\<lparr>w_bank := b\<rparr>)) (w_bank (w\<lparr>w_bank := b\<rparr>)) raw pc'"
    proof (cases out)
      case (Inl e)
      with pc' show ?thesis by (simp add: pc_ok_def)
    next
      case (Inr v)
      let ?e = "fst (bank_charge (body_for p) key (bu, bn) (w_bank w))"
      from Inr cases obtain rep where v: "b = ?b" "v = entry_json ?e rep" by blast
      from pc' Inr have pc': "pc' = Answered pid v" by simp
      show ?thesis unfolding pc' pc_ok_def pc.case
        by (intro exI [of _ p] exI [of _ key] exI [of _ ?e] exI [of _ rep])
           (use p v booked_charge [OF key, of "body_for p" "(bu, bn)" "w_bank w"] in simp)
    qed
  qed (use wok le in simp_all)
qed

lemma step_record:
  assumes w: "world_ok R w" and job: "good_job (w_db w) raw" "job_of raw = Some job"
    and pc: "pc_ok (w_db w) (w_bank w) raw (Answered pid result)"
    and hr: "handle_record ev job pid result w = (out, w')"
  shows "step_ok R raw w (Some (case out of Inl e \<Rightarrow> Failing e | Inr outcome \<Rightarrow> Settled outcome)) w'"
proof -
  from pc obtain p key e rep where p: "pid = JInt (p_id p)" "job_pid raw = Some (p_id p)"
      "payout_row (w_db w) (p_id p) = Some p" "p_key p = Some key" "p_state p \<noteq> ''queued''"
      "booked (w_bank w) key = Some e" "result = entry_json e rep"
    by (auto simp: pc_ok_def)
  have ok: "db_ok (w_db w)" and po: "paid_ok (w_db w) (w_bank w)" using w by (simp_all add: world_ok_def)
  define d where "d = snd (mark_paid (ev_mark ev) (JInt (p_id p)) (JStr (e_bank_ref e)) (w_db w))"
  have w': "w_db w' = d" "w_redis w' = w_redis w" "w_bank w' = w_bank w"
    using hr p(1,7)
    by (auto simp: handle_record_def entry_json_def dict_item_def d_def Let_def observe_latency_def
        split: prod.splits sum.splits if_splits option.splits)
  have le: "db_le (w_db w) d" unfolding d_def by (rule mark_paid_db_le)
  have rows: "q \<in> set (payouts (w_db w)) \<or> q = p\<lparr>p_state := ''paid'', p_bank_ref := Some (e_bank_ref e)\<rparr>"
    if q: "q \<in> set (payouts d)" for q
    using mark_paid_rows [OF q [unfolded d_def]] row_only [OF ok p(3)] by auto
  have "paid_ok d (w_bank w)"
    using po rows p(4,6) unfolding paid_ok_def by fastforce
  moreover have "keys_ok d" using w rows p(3,4) unfolding world_ok_def keys_ok_def
    by (fastforce dest: payout_row_some)
  moreover have "db_ok d" unfolding d_def using ok by (rule mark_paid_db_ok)
  ultimately have wok: "world_ok R w'"
    using w w' bank_ok_le [OF le] good_job_le [OF le] by (simp add: world_ok_def)
  show ?thesis
  proof (rule step_okI)
    fix pc'
    assume "Some (case out of Inl e \<Rightarrow> Failing e | Inr outcome \<Rightarrow> Settled outcome) = Some pc'"
    moreover have "\<exists>q. payout_row d (p_id p) = Some q \<and> p_state q = ''paid''" if "out = Inr outcome" for outcome
    proof -
      have "\<exists>u. mark_paid (ev_mark ev) (JInt (p_id p)) (JStr (e_bank_ref e)) (w_db w) = (Inr u, d)"
        using hr p(1,7) that unfolding d_def
        by (auto simp: handle_record_def entry_json_def dict_item_def Let_def
            split: prod.splits sum.splits if_splits)
      with mark_paid_done [OF ok _ p(3,5)] show ?thesis by blast
    qed
    ultimately have "(\<exists>e. pc' = Failing e) \<or>
        (\<exists>outcome q. pc' = Settled outcome \<and> payout_row d (p_id p) = Some q \<and> p_state q = ''paid'')"
      by (cases out) auto
    then show "pc_ok (w_db w') (w_bank w') raw pc'"
    proof (elim disjE exE conjE)
      fix outcome q
      assume q: "pc' = Settled outcome" "payout_row d (p_id p) = Some q" "p_state q = ''paid''"
      then have "p_id q = p_id p" by (auto dest: payout_row_some)
      with q p(2) w'(1) show ?thesis
        unfolding q(1) pc_ok_def pc.case by (intro exI [of _ q]) simp
    qed (simp add: pc_ok_def)
  qed (use wok le w' in simp_all)
qed

text \<open>Acknowledging, or re-queueing with a new attempt number, keeps the payout of the job.\<close>

lemma job_pid_retried:
  "job_pid (json_dumps (JObj (retried_job job n e))) = job_pid (Json (JObj job))"
  by (simp add: job_pid_def json_dumps_def retried_job_def)

lemma good_job_retried:
  "good_job d (Json (JObj job)) \<Longrightarrow> good_job d (json_dumps (JObj (retried_job job n e)))"
  by (auto simp: good_job_def json_dumps_def retried_job_def job_for_def)

lemma job_of_Some: "job_of raw = Some job \<Longrightarrow> raw = Json (JObj job)"
  by (cases raw rule: job_of.cases) auto

lemma world_ok_redis:
  "world_ok R w \<Longrightarrow> (\<And>x. x \<in> stored R r \<Longrightarrow> good_job (w_db w) x) \<Longrightarrow> world_ok R (w\<lparr>w_redis := r\<rparr>)"
  by (simp add: world_ok_def)

lemma world_ok_metrics [simp]: "world_ok R (w\<lparr>w_metrics := m\<rparr>) = world_ok R w"
  by (simp add: world_ok_def)

lemma world_ok_count [simp]: "world_ok R (count_w f l w) = world_ok R w"
  by (simp add: world_ok_def)

lemma step_ok_redis:
  assumes w: "world_ok R w" and good: "\<And>x. x \<in> stored R r \<Longrightarrow> good_job (w_db w) x"
    and kept: "\<And>x. x \<in> stored R (w_redis w) \<Longrightarrow> job_pid x \<noteq> None \<Longrightarrow>
      (\<exists>y \<in> stored R r. job_pid y = job_pid x)
      \<or> (\<exists>p. payout_row (w_db w) (the (job_pid x)) = Some p \<and> p_state p = ''paid'')"
    and pc: "\<And>pc. pc' = Some pc \<Longrightarrow> pc_ok (w_db w) (w_bank w) raw pc"
    and w': "w_db w' = w_db w" "w_bank w' = w_bank w" "w_redis w' = r"
  shows "step_ok R raw w pc' w'"
proof -
  have "world_ok R w'" using w good w' by (simp add: world_ok_def)
  moreover have "accepted_ok R (w_db w) r acc" if "accepted_ok R (w_db w) (w_redis w) acc" for acc
    by (rule accepted_ok_le [OF db_le_refl kept that])
  ultimately show ?thesis using pc w' by (simp add: step_ok_def)
qed

context redis_service begin

lemma step_ack:
  assumes w: "world_ok R w" and pc: "pc_ok (w_db w) (w_bank w) raw (Settled outcome)"
    and a: "ack R wid rep raw (w_redis w) = (out, r)"
  shows "step_ok R raw w (case out of Inl e \<Rightarrow> Some (Failing e) | Inr _ \<Rightarrow> None) (w\<lparr>w_redis := r\<rparr>)"
proof (rule step_ok_redis [OF w])
  have r: "r = w_redis w \<or> r = lrem1 R (processing_key wid) raw (w_redis w)"
    using a perform_cases [of rep "\<lambda>r. ((), lrem1 R (processing_key wid) raw r)" "w_redis w"]
    by (auto simp: ack_def)
  note rem = stored_lrem [where k = "processing_key wid" and x = raw and r = "w_redis w", simplified]
  show "good_job (w_db w) x" if "x \<in> stored R r" for x
    using that r rem w by (auto simp: world_ok_def)
  show "(\<exists>y \<in> stored R r. job_pid y = job_pid x)
      \<or> (\<exists>p. payout_row (w_db w) (the (job_pid x)) = Some p \<and> p_state p = ''paid'')"
    if "x \<in> stored R (w_redis w)" "job_pid x \<noteq> None" for x
  proof (cases "x = raw")
    case True
    with pc show ?thesis by (auto simp: pc_ok_def)
  next
    case False
    with that(1) r rem show ?thesis by auto
  qed
qed (auto simp: pc_ok_def split: sum.splits)

lemma retry_or_dead_step:
  assumes w: "world_ok R w" and job: "good_job (w_db w) raw" "job_of raw = Some job"
  shows "step_ok R raw w None (snd (retry_or_dead c R wid ev raw job e retryable w))"
proof (cases "json_int (dict_get job ''attempt'' (JInt 0))")
  case (Inl e')
  with w show ?thesis
    by (intro step_ok_redis [OF w, where r = "w_redis w"]) (auto simp: retry_or_dead_def world_ok_def)
next
  case (Inr n)
  let ?job = "json_dumps (JObj (retried_job job (n + 1) e))"
  define q where "q = (if retryable \<and> n + 1 < WORKER_MAX_ATTEMPTS c
     then zadd R RETRY ?job (ev_now ev + backoff c (ev_jitter ev) (n + 1)) else lpush R DEAD ?job)"
  let ?f = "\<lambda>r. ((), lrem1 R (processing_key wid) raw (q r))"
  let ?w' = "snd (retry_or_dead c R wid ev raw job e retryable w)"
  have stq: "stored R (q r) = insert ?job (stored R r)" for r by (simp add: q_def)
  have "w_db ?w' = w_db w \<and> w_bank ?w' = w_bank w \<and> w_redis ?w' = snd (perform (ev_requeue ev) ?f (w_redis w))"
    using Inr by (simp add: retry_or_dead_def q_def Let_def split: prod.splits sum.splits)
  then have eqs: "w_db ?w' = w_db w" "w_bank ?w' = w_bank w" by simp_all
  from \<open>_ \<and> _\<close> perform_cases [of "ev_requeue ev" ?f "w_redis w"]
  have r: "w_redis ?w' = w_redis w \<or> w_redis ?w' = lrem1 R (processing_key wid) raw (q (w_redis w))" by auto
  note rem = stored_lrem [where k = "processing_key wid" and x = raw and r = "q (w_redis w)", simplified, unfolded stq]
  note raw = job_of_Some [OF job(2)]
  show ?thesis
  proof (rule step_ok_redis [OF w _ _ _ eqs refl])
    show "good_job (w_db w) x" if "x \<in> stored R (w_redis ?w')" for x
      using that r rem(1) w good_job_retried [OF job(1) [unfolded raw]] by (auto simp: world_ok_def)
    show "(\<exists>y \<in> stored R (w_redis ?w'). job_pid y = job_pid x)
      \<or> (\<exists>p. payout_row (w_db w) (the (job_pid x)) = Some p \<and> p_state p = ''paid'')"
      if x: "x \<in> stored R (w_redis w)" "job_pid x \<noteq> None" for x
    proof (cases "w_redis ?w' = w_redis w")
      case False
      with r have r': "w_redis ?w' = lrem1 R (processing_key wid) raw (q (w_redis w))" by simp
      show ?thesis
      proof (cases "x = raw \<and> ?job \<noteq> raw")
        case True
        then have "?job \<in> stored R (w_redis ?w')" using rem(2) r' by auto
        with True raw job_pid_retried show ?thesis by metis
      next
        case same: False
        show ?thesis
        proof (cases "x = raw")
          case True
          with same have "?job = raw" by simp
          then have "map_of (retried_job job (n + 1) e) ''attempt'' = map_of job ''attempt''"
            using raw by (simp add: json_dumps_def)
          then have "map_of job ''attempt'' = Some (JInt (n + 1))" by (simp add: retried_job_def)
          with Inr have False by (simp add: dict_get_def)
          then show ?thesis ..
        qed (use x rem(2) r' in auto)
      qed
    qed (use x in auto)
  qed simp
qed

lemma step_fail:
  assumes w: "world_ok R w" and job: "good_job (w_db w) raw" "job_of raw = Some job"
  shows "step_ok R raw w None (snd (on_error c R wid ev raw job e w))"
proof -
  have "step_ok R raw w None (snd (retry_or_dead c R wid ev raw job e b (count_w f l w)))" for b f l
    using retry_or_dead_step [of "count_w f l w" raw job c wid ev e b] w job by (simp add: step_ok_def)
  with retry_or_dead_step [OF w job] show ?thesis
    by (cases e) (simp_all add: on_error_def)
qed

end

end
