(* ===== verification/System_Safety.thy ===== *)
theory System_Safety
  imports System_Inv
begin

section \<open>Reachable states keep the invariant\<close>

text \<open>
  The pieces of a thread are put together (\<open>thread_step_ok\<close>), each step of the system is shown
  to keep \<open>sys_inv\<close>, and rule induction carries it to every reachable state.
\<close>

lemma sys_inv_world:
  "sys_inv R s \<longleftrightarrow> world_ok R (sy_world s)
   \<and> (\<forall>p \<in> set (sy_pending s). \<exists>q. payout_row (sy_db s) (p_id q) = Some q \<and> row_le p q)
   \<and> (\<forall>t \<in> set (sy_threads s). good_job (sy_db s) (th_raw t) \<and> pc_ok (sy_db s) (sy_bank s) (th_raw t) (th_pc t))
   \<and> accepted_ok R (sy_db s) (sy_redis s) (sy_accepted s)"
  by (auto simp: sys_inv_def world_ok_def)

lemma pending_le:
  assumes "db_ok d" "db_le d d'" "\<exists>q. payout_row d (p_id q) = Some q \<and> row_le p q"
  shows "\<exists>q. payout_row d' (p_id q) = Some q \<and> row_le p q"
proof -
  from assms(3) obtain q where q: "payout_row d (p_id q) = Some q" "row_le p q" by blast
  from db_le_row [OF assms(2) q(1)] obtain q' where q': "payout_row d' (p_id q) = Some q'" "row_le q q'" by blast
  then have "row_le p q'" using row_le_trans [OF q(2)] payout_ok_row [OF assms(1) q(1)] by blast
  with q' show ?thesis by (intro exI [of _ q']) (simp add: row_le_ident)
qed

text \<open>A step that changes the world and adds no pending request or thread keeps the rest.\<close>

lemma sys_inv_step:
  assumes inv: "sys_inv R s" and w: "world_ok R (sy_world s')"
    and le: "db_le (sy_db s) (sy_db s')" "bank_le (sy_bank s) (sy_bank s')"
    and pend: "\<And>p. p \<in> set (sy_pending s') \<Longrightarrow> p \<in> set (sy_pending s)
        \<or> (\<exists>q. payout_row (sy_db s') (p_id q) = Some q \<and> row_le p q)"
    and thr: "\<And>t. t \<in> set (sy_threads s') \<Longrightarrow> t \<in> set (sy_threads s)
        \<or> good_job (sy_db s') (th_raw t) \<and> pc_ok (sy_db s') (sy_bank s') (th_raw t) (th_pc t)"
    and acc: "accepted_ok R (sy_db s') (sy_redis s') (sy_accepted s')"
  shows "sys_inv R s'"
proof -
  have ok: "db_ok (sy_db s)" using inv by (simp add: sys_inv_def)
  have "\<exists>q. payout_row (sy_db s') (p_id q) = Some q \<and> row_le p q" if "p \<in> set (sy_pending s')" for p
    using pend [OF that] inv pending_le [OF ok le(1)] by (auto simp: sys_inv_def)
  moreover have "good_job (sy_db s') (th_raw t) \<and> pc_ok (sy_db s') (sy_bank s') (th_raw t) (th_pc t)"
    if "t \<in> set (sy_threads s')" for t
    using thr [OF that] inv good_job_le [OF le(1)] pc_ok_le [OF ok le] by (auto simp: sys_inv_def)
  ultimately show ?thesis using w acc by (simp add: sys_inv_world)
qed

lemma accepted_ok_mono:
  "stored R r \<subseteq> stored R r' \<Longrightarrow> accepted_ok R d r acc \<Longrightarrow> accepted_ok R d r' acc"
  unfolding accepted_ok_def by blast

subsection \<open>The API's transactions\<close>

lemma create_settlement_db:
  assumes "create_settlement rep body nid d = (out, d')"
  shows "d' = d \<or> (\<exists>s. d' = snd (insert_settlement s d))"
proof -
  let ?s = "\<lparr>s_id = nid, s_merchant = in_merchant_id body, s_date = in_settlement_date body,
              s_amount = in_amount_minor body, s_currency = in_currency body, s_status = ''pending''\<rparr>"
  have "d' = snd (transaction rep (insert_settlement ?s) d)"
    using assms by (auto simp: create_settlement_def split: prod.splits sum.splits)
  with transaction_state [of rep "insert_settlement ?s" d] show ?thesis by blast
qed

lemma insert_settlement_payouts: "payouts (snd (insert_settlement s d)) = payouts d"
  by (simp add: insert_settlement_def split: option.splits)

lemma db_le_same_payouts: "payouts d' = payouts d \<Longrightarrow> db_le d d'"
  by (simp add: db_le_def payout_row_def)

lemma world_ok_same_payouts:
  assumes "world_ok R w" and "payouts d = payouts (w_db w)" and "db_ok d"
  shows "world_ok R (w\<lparr>w_db := d\<rparr>)"
  by (rule world_ok_db [OF assms(1) db_le_same_payouts [OF assms(2)] assms(3)])
     (use assms in \<open>auto simp: world_ok_def keys_ok_def\<close>)

lemma execute_tx_result:
  assumes ok: "db_ok d" and ex: "execute_tx sid nid created d = (Inr p, d')"
  shows "\<exists>s. settlement_row d sid = Some s \<and> s_status s = ''pending'' \<and> p = queued_payout nid created s
     \<and> payouts d' = payouts d @ [p] \<and> payout_row d nid = None \<and> db_ok d'"
proof -
  let ?P = "\<lambda>s. s_id s = sid \<and> s_status s = ''pending''" and ?f = "\<lambda>s. s\<lparr>s_status := ''executing''\<rparr>"
  let ?t = "map (\<lambda>s. if ?P s then ?f s else s) (settlements d)"
  from ex obtain s' where s': "first_row (map ?f (filter ?P (settlements d))) = Some s'"
      "insert_payout (queued_payout nid created s') (d\<lparr>settlements := ?t\<rparr>) = (Inr nid, d')" "p = queued_payout nid created s'"
    by (auto simp: execute_tx_def sql_update_def Let_def queued_payout_def
        split: option.splits prod.splits sum.splits dest: insert_payout_result)
  from s'(1) obtain s where s: "find ?P (settlements d) = Some s" "s' = ?f s"
    by (auto simp: first_row_map first_row_filter)
  then have mem: "s \<in> set (settlements d)" "?P s" by (auto dest: find_some_mem)
  have dist: "distinct (map s_id (settlements d))" using ok by (simp add: db_ok_def)
  have row: "settlement_row d sid = Some s"
    using find_unique_key [OF dist mem(1)] mem(2) by (simp add: settlement_row_def)
  have p: "p = queued_payout nid created s" by (simp add: s'(3) s(2) queued_payout_def)
  have none: "p_settlement q \<noteq> sid" if "q \<in> set (payouts d)" for q
  proof
    assume "p_settlement q = sid"
    with ok that obtain u where u: "u \<in> set (settlements d)" "from_settlement u q" by (auto simp: db_ok_def)
    then have "u = s" using distinct_key_eq [OF dist u(1) mem(1)] mem(2) \<open>p_settlement q = sid\<close>
      by (simp add: from_settlement_def)
    with u(2) mem(2) show False by (simp add: from_settlement_def)
  qed
  have "db_ok (d\<lparr>settlements := ?t\<rparr>)"
  proof -
    have "map s_id ?t = map s_id (settlements d)" by (rule map_key_update) simp
    with dist have "distinct (map s_id ?t)" by (simp only:)
    moreover have "\<exists>u \<in> set ?t. from_settlement u q" if q: "q \<in> set (payouts d)" for q
    proof -
      from ok q obtain u where u: "u \<in> set (settlements d)" "from_settlement u q" by (auto simp: db_ok_def)
      then have "\<not> ?P u" by (auto simp: from_settlement_def)
      with u show ?thesis by (intro bexI [of _ u]) (auto intro: rev_image_eqI)
    qed
    ultimately show ?thesis using ok by (auto simp: db_ok_def)
  qed
  moreover have "s' \<in> set ?t" using mem s(2) by (auto intro: rev_image_eqI)
  moreover have "from_settlement s' (queued_payout nid created s')"
    by (simp add: from_settlement_def queued_payout_def s(2))
  ultimately have "db_ok (snd (insert_payout (queued_payout nid created s') (d\<lparr>settlements := ?t\<rparr>)))"
    using none mem(2) s(2) by (intro insert_payout_ok) (auto simp: payout_ok_def queued_payout_def)
  with s'(2) have "db_ok d'" by simp
  moreover from insert_payout_result [OF s'(2)] s'(3)
  have "payouts d' = payouts d @ [p]" "payout_row d nid = None" by (simp_all add: payout_row_def)
  ultimately show ?thesis using row mem(2) p by blast
qed

lemma execute_tx_world:
  assumes w: "world_ok R w" and ex: "execute_tx sid nid created (w_db w) = (Inr p, d')"
  shows "world_ok R (w\<lparr>w_db := d'\<rparr>) \<and> db_le (w_db w) d' \<and> payout_row d' (p_id p) = Some p"
proof -
  have ok: "db_ok (w_db w)" using w by (simp add: world_ok_def)
  from execute_tx_result [OF ok ex] obtain s where s: "p = queued_payout nid created s"
      "payouts d' = payouts (w_db w) @ [p]" "payout_row (w_db w) nid = None" "db_ok d'" by blast
  have rows: "payout_row d' i = (case payout_row (w_db w) i of Some q \<Rightarrow> Some q | None \<Rightarrow> if p_id p = i then Some p else None)" for i
    using payout_row_append [of "w_db w" p i] s(2) by (simp add: payout_row_def)
  then have le: "db_le (w_db w) d'" by (simp add: db_le_def)
  have "world_ok R (w\<lparr>w_db := d'\<rparr>)"
    by (rule world_ok_db [OF w le s(4)]) (use w s(1,2) in \<open>auto simp: world_ok_def keys_ok_def queued_payout_def\<close>)
  with le rows s(1,3) show ?thesis by (simp add: queued_payout_def)
qed

subsection \<open>All steps\<close>

context redis_service begin

lemma thread_step_ok:
  assumes w: "world_ok R w" and good: "good_job (w_db w) (th_raw t)"
    and pc: "pc_ok (w_db w) (w_bank w) (th_raw t) (th_pc t)" and uuid: "ev_uuid ev \<noteq> []"
    and st: "thread_step c R (bank_post net fails bu bn) ev t w = (t', w')"
  shows "step_ok R (th_raw t) w (map_option th_pc t') w' \<and> (\<forall>u. t' = Some u \<longrightarrow> th_raw u = th_raw t)"
proof -
  from good obtain job where job: "job_of (th_raw t) = Some job" by (auto simp: good_job_def)
  show ?thesis
  proof (cases "th_pc t")
    case Fetched
    obtain out d where hc: "handle_claim ev job (w_db w) = (out, d)" by fastforce
    from step_claim [OF w good job uuid hc] st job Fetched hc show ?thesis
      by (auto simp: thread_step_def split: sum.splits claimed.splits)
  next
    case (Claimed pid key)
    obtain out b where hp: "handle_pay c (bank_post net fails bu bn) job pid key (w_bank w) = (out, b)" by fastforce
    from step_pay [OF w good job pc [unfolded Claimed] hp] st job Claimed hp show ?thesis
      by (auto simp: thread_step_def split: sum.splits)
  next
    case (Answered pid result)
    obtain out w2 where hr: "handle_record ev job pid result w = (out, w2)" by fastforce
    from step_record [OF w good job pc [unfolded Answered] hr] st job Answered hr show ?thesis
      by (auto simp: thread_step_def split: sum.splits)
  next
    case (Settled outcome)
    obtain out r where a: "ack R (th_worker t) (ev_ack ev) (th_raw t) (w_redis w) = (out, r)" by fastforce
    have "step_ok R raw w pc' (count_w f l w2) = step_ok R raw w pc' w2" for raw pc' f l w2
      by (simp add: step_ok_def)
    with step_ack [OF w pc [unfolded Settled] a] st job Settled a show ?thesis
      by (auto simp: thread_step_def split: sum.splits)
  next
    case (Failing e)
    with step_fail [OF w good job] st job show ?thesis by (auto simp: thread_step_def)
  qed
qed

lemma sys_inv_redis:
  assumes inv: "sys_inv R s" and same: "stored R r = stored R (sy_redis s)"
  shows "sys_inv R (set_redis r s)"
  using assms by (auto simp: sys_inv_def accepted_ok_def)

lemma new_job_good:
  assumes "db_ok d" "payout_row d (p_id q) = Some q" "row_le p q"
  shows "good_job d (json_dumps (JObj (new_job rid now p)))" "job_pid (json_dumps (JObj (new_job rid now p))) = Some (p_id q)"
proof -
  have "job_for q (new_job rid now p)" using assms(3) by (auto simp: job_for_def new_job_def row_le_ident)
  with assms(2) show "good_job d (json_dumps (JObj (new_job rid now p)))"
    unfolding good_job_def json_dumps_def by blast
  show "job_pid (json_dumps (JObj (new_job rid now p))) = Some (p_id q)"
    using assms(3) by (simp add: job_pid_def json_dumps_def new_job_def row_le_ident)
qed

lemma sys_inv_push:
  assumes inv: "sys_inv R s" and pend: "sy_pending s = us @ p # vs"
    and r: "r = sy_redis s \<or> r = lpush R JOBS (json_dumps (JObj (new_job rid now p))) (sy_redis s)"
    and acc: "acc = sy_accepted s \<or> acc = insert (p_id p) (sy_accepted s)
       \<and> r = lpush R JOBS (json_dumps (JObj (new_job rid now p))) (sy_redis s)"
  shows "sys_inv R ((set_redis r s)\<lparr>sy_pending := us @ vs, sy_accepted := acc\<rparr>)"
proof -
  let ?x = "json_dumps (JObj (new_job rid now p))"
  have ok: "db_ok (sy_db s)" using inv by (simp add: sys_inv_def)
  from inv pend obtain q where q: "payout_row (sy_db s) (p_id q) = Some q" "row_le p q"
    by (auto simp: sys_inv_def)
  note job = new_job_good [OF ok q]
  have st: "stored R r = stored R (sy_redis s) \<or> stored R r = insert ?x (stored R (sy_redis s))"
    using r by auto
  have "accepted_ok R (sy_db s) r acc"
    using acc
  proof
    assume "acc = sy_accepted s"
    with inv st show ?thesis
      using accepted_ok_mono [of R "sy_redis s" r "sy_db s" acc] by (auto simp: sys_inv_def)
  next
    assume a: "acc = insert (p_id p) (sy_accepted s) \<and> r = lpush R JOBS ?x (sy_redis s)"
    then have "accepted_ok R (sy_db s) r (sy_accepted s)"
      using inv accepted_ok_mono [of R "sy_redis s" r "sy_db s" "sy_accepted s"] by (auto simp: sys_inv_def)
    moreover from a have "?x \<in> stored R r" by simp
    ultimately show ?thesis
      using a q job(2) [of rid now] unfolding accepted_ok_def by (auto simp: row_le_ident)
  qed
  with inv pend st job(1) show ?thesis by (auto simp: sys_inv_def)
qed

lemma sys_inv_work:
  assumes inv: "sys_inv R s" and thr: "sy_threads s = us @ t # vs" and uuid: "ev_uuid ev \<noteq> []"
    and st: "thread_step c R (bank_post net fails bu bn) ev t (sy_world s) = (t', w)"
  shows "sys_inv R (s\<lparr>sy_world := w, sy_threads := us @ (case t' of None \<Rightarrow> [] | Some t' \<Rightarrow> [t']) @ vs\<rparr>)"
proof -
  from inv thr have good: "good_job (sy_db s) (th_raw t)"
    and pc: "pc_ok (sy_db s) (sy_bank s) (th_raw t) (th_pc t)" and w: "world_ok R (sy_world s)"
    by (auto simp: sys_inv_world)
  from thread_step_ok [OF w good pc uuid st]
  have ok: "step_ok R (th_raw t) (sy_world s) (map_option th_pc t') w"
    and raw: "\<And>u. t' = Some u \<Longrightarrow> th_raw u = th_raw t" by auto
  show ?thesis
  proof (rule sys_inv_step [OF inv])
    fix u assume "u \<in> set (sy_threads (s\<lparr>sy_world := w, sy_threads := us @ (case t' of None \<Rightarrow> [] | Some t' \<Rightarrow> [t']) @ vs\<rparr>))"
    with thr consider "u \<in> set (sy_threads s)" | "t' = Some u" by (auto split: option.splits)
    then show "u \<in> set (sy_threads s) \<or> good_job (sy_db (s\<lparr>sy_world := w, sy_threads := us @ (case t' of None \<Rightarrow> [] | Some t' \<Rightarrow> [t']) @ vs\<rparr>)) (th_raw u)
        \<and> pc_ok (sy_db (s\<lparr>sy_world := w, sy_threads := us @ (case t' of None \<Rightarrow> [] | Some t' \<Rightarrow> [t']) @ vs\<rparr>))
            (sy_bank (s\<lparr>sy_world := w, sy_threads := us @ (case t' of None \<Rightarrow> [] | Some t' \<Rightarrow> [t']) @ vs\<rparr>)) (th_raw u) (th_pc u)"
      using ok raw [of u] good good_job_le [of "sy_db s" "w_db w"] by cases (auto simp: step_ok_def)
  qed (use ok inv in \<open>auto simp: step_ok_def sys_inv_def\<close>)
qed

lemma sys_step_inv: "sys_step c R s s' \<Longrightarrow> sys_inv R s \<Longrightarrow> sys_inv R s'"
proof (induction rule: sys_step.induct)
  case (create rep body new_id s out d)
  from create_settlement_db [OF create.hyps] create.prems
  have "db_ok d" "payouts d = payouts (sy_db s)"
    by (auto simp: sys_inv_def insert_settlement_ok insert_settlement_payouts)
  then show ?case
    using create.prems world_ok_same_payouts [of R "sy_world s" d] accepted_ok_db [OF db_le_same_payouts, of d "sy_db s" R]
    by (intro sys_inv_step [OF create.prems]) (auto simp: set_db_def sys_inv_world db_le_same_payouts)
next
  case (execute rep sid new_id created s p d)
  then have ex: "execute_tx sid new_id created (sy_db s) = (Inr p, d)" by (auto dest: transaction_ok)
  have "world_ok R (sy_world s)" using execute.prems by (simp add: sys_inv_world)
  from execute_tx_world [OF this ex] have
    e: "world_ok R ((sy_world s)\<lparr>w_db := d\<rparr>)" "db_le (sy_db s) d" "payout_row d (p_id p) = Some p" by auto
  then show ?case
    using execute.prems accepted_ok_db [OF e(2), of R]
    by (intro sys_inv_step [OF execute.prems]) (auto simp: set_db_def sys_inv_def)
next
  case (execute_fails rep sid new_id created s e d)
  have w: "world_ok R (sy_world s)" using execute_fails.prems by (simp add: sys_inv_world)
  from transaction_cases [of rep "execute_tx sid new_id created" "sy_db s"] execute_fails.hyps
  have "d = sy_db s \<or> (\<exists>p. execute_tx sid new_id created (sy_db s) = (Inr p, d))" by auto
  then have e: "world_ok R ((sy_world s)\<lparr>w_db := d\<rparr>) \<and> db_le (sy_db s) d"
    using w execute_tx_world [OF w] by auto
  then show ?case
    using execute_fails.prems accepted_ok_db [of "sy_db s" d R]
    by (intro sys_inv_step [OF execute_fails.prems]) (auto simp: set_db_def sys_inv_def)
next
  case (push s us p vs rep rid now u r)
  from sys_inv_push [OF push.prems push.hyps(1)] perform_ok [OF push.hyps(2)] show ?case by auto
next
  case (push_fails s us p vs rep rid now e r)
  from perform_cases [of rep _ "sy_redis s"] push_fails.hyps(2)
  have "r = sy_redis s \<or> r = lpush R JOBS (json_dumps (JObj (new_job rid now p))) (sy_redis s)"
    by (metis snd_conv)
  from sys_inv_push [OF push_fails.prems push_fails.hyps(1) this, of "sy_accepted s"] show ?case
    by (simp add: set_redis_def)
next
  case (api_crash s us p vs)
  then show ?case by (auto simp: sys_inv_def)
next
  case (fetch wid s raw r)
  have "stored R r = stored R (sy_redis s)" using stored_lmove [of JOBS "processing_key wid" RIGHT LEFT "sy_redis s"] fetch.hyps by simp
  from sys_inv_redis [OF fetch.prems this] lmove_stored [OF _ _ fetch.hyps] fetch.prems
  show ?case by (auto simp: sys_inv_def pc_ok_def)
next
  case (work s us t vs ev net fails bu bn t' w)
  show ?case by (rule sys_inv_work [OF work.prems work.hyps])
next
  case (worker_crash s us t vs)
  then show ?case by (auto simp: sys_inv_def)
qed (simp_all add: sys_inv_redis stored_promote heartbeat_def)

lemma init_sys_inv: "stored R r = {} \<Longrightarrow> sys_inv R (init_sys ms r)"
  by (simp add: sys_inv_def init_sys_def db_ok_empty keys_ok_def bank_ok_def paid_ok_def
      accepted_ok_def booked_def payouts_empty_db)

lemma reachable_inv: "reachable c R ms r s \<Longrightarrow> stored R r = {} \<Longrightarrow> sys_inv R s"
  by (induction rule: reachable.induct) (auto intro: sys_step_inv init_sys_inv)

end

subsection \<open>A paid row is in the ledger\<close>

lemma paid_row_booked:
  assumes inv: "sys_inv R s" and p: "p \<in> set (payouts (sy_db s))" "p_state p = ''paid''"
  shows "\<exists>k e. p_key p = Some k \<and> booked (sy_bank s) k = Some e \<and> e \<in> set (ledger (sy_bank s))
    \<and> p_bank_ref p = Some (e_bank_ref e) \<and> e_reference e = payout_reference (JInt (p_id p))
    \<and> e_merchant e = p_merchant p \<and> e_amount e = p_amount p \<and> e_currency e = p_currency p"
proof -
  from inv have bank: "bank_ok (sy_db s) (sy_bank s)" and ok: "db_ok (sy_db s)" by (simp_all add: sys_inv_def)
  from inv p obtain k e where k: "p_key p = Some k" "booked (sy_bank s) k = Some e" "p_bank_ref p = Some (e_bank_ref e)"
    unfolding sys_inv_def paid_ok_def by blast
  from bank k(2) obtain q where q: "e \<in> set (ledger (sy_bank s))" "payout_row (sy_db s) (p_id q) = Some q"
      "p_key q = Some k" "entry_for q e" unfolding bank_ok_def by blast
  have "q = p" by (rule db_ok_same_key [OF ok _ p(1) q(3) k(1)]) (use q(2) payout_row_some in blast)
  with k q show ?thesis by (auto simp: entry_for_def)
qed

end
