(* ===== verification/Process_Correct.thy ===== *)
theory Process_Correct
  imports System_Safety
begin

section \<open>What one execution of process does to a job\<close>

text \<open>
  The functional behaviour of \<open>Worker.process\<close> on the jobs the API makes: the payment of a
  payout that is queued or was left in \<open>sending\<close>, the skipping of a paid one, the three ways
  a job leaves the processing list whatever fails on the way, the only way an exception
  escapes, and the bounds of the retry schedule.
\<close>

subsection \<open>The pieces when every call is answered\<close>

definition the_key :: "string \<Rightarrow> payout \<Rightarrow> string" where
  "the_key uuid p = (case p_key p of None \<Rightarrow> uuid | Some k \<Rightarrow> k)"

definition all_done :: "env \<Rightarrow> bool" where
  "all_done ev \<longleftrightarrow> ev_claim ev = Done \<and> ev_mark ev = Done \<and> ev_ack ev = Done"

lemma the_key_nonempty:
  "keys_ok d \<Longrightarrow> payout_row d i = Some p \<Longrightarrow> uuid \<noteq> [] \<Longrightarrow> the_key uuid p \<noteq> []"
  by (auto simp: the_key_def keys_ok_def dest!: payout_row_some split: option.splits)

lemma handle_claim_open:
  assumes "db_ok d" "payout_row d (p_id p) = Some p" "claimable p" "job_for p job" "ev_claim ev = Done"
    and "p_key p \<noteq> None \<or> (\<forall>q \<in> set (payouts d). p_key q \<noteq> Some (ev_uuid ev))"
  shows "handle_claim ev job d =
    (Inr (Send (JInt (p_id p)) (the_key (ev_uuid ev) p)), claimed_db (ev_uuid ev) (p_id p) d)"
  using claim_tx_open [OF assms(1-3,6)] assms(4,5)
  by (simp add: handle_claim_def job_for_def dict_item_def claim_def the_key_def)

lemma handle_claim_paid:
  assumes "db_ok d" "payout_row d (p_id p) = Some p" "p_state p = ''paid''" "job_for p job" "ev_claim ev = Done"
  shows "handle_claim ev job d = (Inr Skip, d)"
  using claim_tx_closed [OF assms(1), of "p_id p" "ev_uuid ev"] assms
  by (simp add: handle_claim_def job_for_def dict_item_def claim_def)

lemma pay_request_job:
  assumes "job_for p job"
  shows "\<exists>req. pay_request c (JInt (p_merchant p)) (JInt (p_amount p)) (JStr (p_currency p)) ref key
      (dict_get job ''request_id'' JNull) = Inr req"
proof -
  from assms obtain rid where "map_of job ''request_id'' = Some (nullable rid)" by (auto simp: job_for_def)
  then show ?thesis by (cases rid) (simp_all add: pay_request_def dict_get_def)
qed

lemma handle_pay_done:
  assumes job: "job_for p job" and key: "key \<noteq> []"
  shows "handle_pay c (bank_post Done False bu bn) job (JInt (p_id p)) key b =
    (Inr (entry_json (fst (bank_charge (body_for p) key (bu, bn) b)) (booked b key \<noteq> None)),
     snd (bank_charge (body_for p) key (bu, bn) b))"
proof -
  let ?ref = "payout_reference (JInt (p_id p))"
  from pay_request_job [OF job] obtain req where req:
    "pay_request c (JInt (p_merchant p)) (JInt (p_amount p)) (JStr (p_currency p)) ?ref key
      (dict_get job ''request_id'' JNull) = Inr req" by blast
  have "payout_in_of (rq_body req) = Some (body_for p)"
    by (simp add: pay_request_header(2) [OF req] payout_in_of_def body_for_def)
  then have "bank_post Done False bu bn req b =
      (Inr (json_response 200 (entry_json (fst (bank_charge (body_for p) key (bu, bn) b)) (booked b key \<noteq> None))),
       snd (bank_charge (body_for p) key (bu, bn) b))"
    by (simp add: bank_post_def bank_endpoint_def pay_request_header(1) [OF req] create_payout_charge [OF key])
  from pay_answered [where post = "bank_post Done False bu bn" and b = b, OF req this] job show ?thesis
    by (simp add: handle_pay_def job_for_def dict_item_def interpret_response_def json_response_def)
qed

lemma handle_record_done:
  assumes ok: "db_ok (w_db w)" and row: "payout_row (w_db w) (p_id p) = Some q" "p_state q = ''sending''"
    and job: "job_for p job" and ev: "ev_mark ev = Done"
  shows "\<exists>t. handle_record ev job (JInt (p_id p)) (entry_json e rep) w =
    (Inr ''paid'',
     w\<lparr>w_db := (w_db w)\<lparr>payouts := map (\<lambda>r. if p_id r = p_id p
          then r\<lparr>p_state := ''paid'', p_bank_ref := Some (e_bank_ref e)\<rparr> else r) (payouts (w_db w))\<rparr>,
       w_metrics := (if t = 0 then id else observe PAYOUT_LATENCY (max 0 (ev_now ev - t)))
          (inc BANK_CALLS (if rep then ''replayed'' else ''ok'') (w_metrics w))\<rparr>)"
proof -
  from job obtain t where t: "map_of job ''enqueued_at'' = Some (JFloat t)" by (auto simp: job_for_def)
  show ?thesis
    by (rule exI [of _ t])
       (use mark_paid_tx_sending [OF ok row, of "e_bank_ref e"] ev t in
         \<open>simp add: handle_record_def entry_json_def dict_get_def dict_item_def mark_paid_def observe_latency_def
            count_w_def Let_def\<close>)
qed

lemma handle_pays:
  assumes ok: "db_ok (w_db w)" "keys_ok (w_db w)" and row: "payout_row (w_db w) (p_id p) = Some p" "claimable p"
    and fresh: "p_key p \<noteq> None \<or> (\<forall>q \<in> set (payouts (w_db w)). p_key q \<noteq> Some (ev_uuid ev))"
    and uuid: "ev_uuid ev \<noteq> []" and job: "job_for p job" and alldone: "all_done ev"
    and out: "handle c (bank_post Done False bu bn) ev job w = (res, w')"
  shows "res = Inr ''paid'' \<and> w_redis w' = w_redis w
    \<and> w_bank w' = snd (bank_charge (body_for p) (the_key (ev_uuid ev) p) (bu, bn) (w_bank w))
    \<and> payout_row (w_db w') (p_id p) = Some (p\<lparr>p_state := ''paid'', p_key := Some (the_key (ev_uuid ev) p),
         p_bank_ref := Some (e_bank_ref (fst (bank_charge (body_for p) (the_key (ev_uuid ev) p) (bu, bn) (w_bank w))))\<rparr>)
    \<and> (\<forall>i. i \<noteq> p_id p \<longrightarrow> payout_row (w_db w') i = payout_row (w_db w) i)
    \<and> counters (w_metrics w') = counters (inc BANK_CALLS
         (if booked (w_bank w) (the_key (ev_uuid ev) p) \<noteq> None then ''replayed'' else ''ok'') (w_metrics w))"
proof -
  let ?k = "the_key (ev_uuid ev) p" and ?d = "claimed_db (ev_uuid ev) (p_id p) (w_db w)"
  let ?e = "fst (bank_charge (body_for p) ?k (bu, bn) (w_bank w))"
  let ?b = "snd (bank_charge (body_for p) ?k (bu, bn) (w_bank w))"
  let ?rep = "booked (w_bank w) ?k \<noteq> None"
  from alldone have d: "ev_claim ev = Done" "ev_mark ev = Done" by (simp_all add: all_done_def)
  note hc = handle_claim_open [OF ok(1) row job d(1) fresh]
  note hp = handle_pay_done [OF job the_key_nonempty [OF ok(2) row(1) uuid], of c bu bn "w_bank w"]
  let ?w = "w\<lparr>w_db := ?d, w_bank := ?b\<rparr>"
  have cr: "payout_row ?d (p_id p) = Some (claim_row (ev_uuid ev) p)" by (simp add: payout_row_claimed row(1))
  have ok': "db_ok ?d" using claim_tx_db_ok [OF ok(1), of "ev_uuid ev" "JInt (p_id p)"]
      claim_tx_open [OF ok(1) row fresh] by simp
  from handle_record_done [of ?w p "claim_row (ev_uuid ev) p" job ev ?e ?rep] ok' cr job d(2)
  obtain t where hr: "handle_record ev job (JInt (p_id p)) (entry_json ?e ?rep) ?w =
      (Inr ''paid'',
       ?w\<lparr>w_db := ?d\<lparr>payouts := map (\<lambda>r. if p_id r = p_id p
            then r\<lparr>p_state := ''paid'', p_bank_ref := Some (e_bank_ref ?e)\<rparr> else r) (payouts ?d)\<rparr>,
         w_metrics := (if t = 0 then id else observe PAYOUT_LATENCY (max 0 (ev_now ev - t)))
            (inc BANK_CALLS (if ?rep then ''replayed'' else ''ok'') (w_metrics w))\<rparr>)" by auto
  have "handle c (bank_post Done False bu bn) ev job w = handle_record ev job (JInt (p_id p)) (entry_json ?e ?rep) ?w"
    by (simp add: handle_def hc hp Let_def)
  with out hr have w': "res = Inr ''paid''" "w' = ?w\<lparr>w_db := ?d\<lparr>payouts := map (\<lambda>r. if p_id r = p_id p
            then r\<lparr>p_state := ''paid'', p_bank_ref := Some (e_bank_ref ?e)\<rparr> else r) (payouts ?d)\<rparr>,
         w_metrics := (if t = 0 then id else observe PAYOUT_LATENCY (max 0 (ev_now ev - t)))
            (inc BANK_CALLS (if ?rep then ''replayed'' else ''ok'') (w_metrics w))\<rparr>" by simp_all
  have rows: "payout_row (w_db w') i = map_option (\<lambda>r. if p_id r = p_id p
       then r\<lparr>p_state := ''paid'', p_bank_ref := Some (e_bank_ref ?e)\<rparr> else r) (payout_row ?d i)" for i
    unfolding w'(2) by (simp add: payout_row_update)
  have other: "payout_row (w_db w') i = payout_row (w_db w) i" if "i \<noteq> p_id p" for i
    using that unfolding rows payout_row_claimed
    by (cases "payout_row (w_db w) i") (auto dest!: payout_row_some)
  show ?thesis
    using w' rows [of "p_id p"] other by (simp add: cr claim_row_def the_key_def)
qed

subsection \<open>How a job leaves the processing list\<close>

definition may_retry :: "exn \<Rightarrow> bool" where
  "may_retry e = (case e of BankError m b \<Rightarrow> b | PermanentError m \<Rightarrow> False | _ \<Rightarrow> True)"

definition requeued :: "config \<Rightarrow> 'r redis_api \<Rightarrow> env \<Rightarrow> dict \<Rightarrow> int \<Rightarrow> exn \<Rightarrow> 'r \<Rightarrow> 'r" where
  "requeued c R ev job n e r =
     (let job' = json_dumps (JObj (retried_job job n e))
      in if may_retry e \<and> n < WORKER_MAX_ATTEMPTS c
         then zadd R RETRY job' (ev_now ev + backoff c (ev_jitter ev) n) r else lpush R DEAD job' r)"

lemma on_error_result:
  assumes n: "json_int (dict_get job ''attempt'' (JInt 0)) = Inr n" and rq: "ev_requeue ev = Done"
  shows "fst (on_error c R wid ev raw job e w) = None
    \<and> w_redis (snd (on_error c R wid ev raw job e w)) =
        lrem1 R (processing_key wid) raw (requeued c R ev job (n + 1) e (w_redis w))
    \<and> w_db (snd (on_error c R wid ev raw job e w)) = w_db w \<and> w_bank (snd (on_error c R wid ev raw job e w)) = w_bank w"
  by (cases e)
     (simp_all add: on_error_def retry_or_dead_def n rq requeued_def may_retry_def Let_def)

lemma process_leaves:
  assumes n: "json_int (dict_get job ''attempt'' (JInt 0)) = Inr n" and rq: "ev_requeue ev = Done"
    and p: "process c R post wid ev (Json (JObj job)) w = (esc, w')"
  shows "esc = None \<and>
    (\<exists>out w1. handle c post ev job w = (out, w1) \<and> w_db w' = w_db w1 \<and> w_bank w' = w_bank w1 \<and>
      ((\<exists>res. out = Inr res) \<and> w_redis w' = lrem1 R (processing_key wid) (Json (JObj job)) (w_redis w1)
       \<or> (\<exists>e r. (out = Inl e \<and> r = w_redis w1
              \<or> (\<exists>res. out = Inr res) \<and> ack R wid (ev_ack ev) (Json (JObj job)) (w_redis w1) = (Inl e, r))
            \<and> w_redis w' = lrem1 R (processing_key wid) (Json (JObj job)) (requeued c R ev job (n + 1) e r))))"
proof -
  obtain out w1 where h: "handle c post ev job w = (out, w1)" by fastforce
  show ?thesis
  proof (cases out)
    case (Inl e)
    with p h have "on_error c R wid ev (Json (JObj job)) job e w1 = (esc, w')" by (simp add: process_def)
    with on_error_result [OF n rq, of c R wid "Json (JObj job)" e w1] h Inl show ?thesis by simp
  next
    case (Inr res)
    obtain a r where a: "ack R wid (ev_ack ev) (Json (JObj job)) (w_redis w1) = (a, r)" by fastforce
    show ?thesis
    proof (cases a)
      case (Inl e)
      with p h a Inr have "on_error c R wid ev (Json (JObj job)) job e (w1\<lparr>w_redis := r\<rparr>) = (esc, w')"
        by (simp add: process_def)
      with on_error_result [OF n rq, of c R wid "Json (JObj job)" e "w1\<lparr>w_redis := r\<rparr>"] h a Inl Inr
      show ?thesis by simp
    next
      case ok: (Inr u)
      then have "r = lrem1 R (processing_key wid) (Json (JObj job)) (w_redis w1)"
        using a by (auto simp: ack_def dest: perform_ok)
      with p h a ok Inr show ?thesis by (auto simp: process_def)
    qed
  qed
qed

text \<open>An exception that reaches the thread pool leaves the job where it is.\<close>

lemma retry_or_dead_escapes:
  "fst (retry_or_dead c R wid ev raw job e b w) = Some x \<Longrightarrow>
     json_int (dict_get job ''attempt'' (JInt 0)) = Inl x \<or> ev_requeue ev = Refused x \<or> ev_requeue ev = Lost x"
  by (cases "ev_requeue ev") (auto simp: retry_or_dead_def Let_def split: sum.splits if_splits)

lemma on_error_escapes:
  "fst (on_error c R wid ev raw job e w) = Some x \<Longrightarrow>
     json_int (dict_get job ''attempt'' (JInt 0)) = Inl x \<or> ev_requeue ev = Refused x \<or> ev_requeue ev = Lost x"
  by (cases e) (auto simp: on_error_def dest: retry_or_dead_escapes)

subsection \<open>The retry schedule\<close>

lemma backoff_bounds:
  assumes "0 \<le> WORKER_RETRY_BASE_SECONDS c" and "0 \<le> WORKER_RETRY_MAX_SECONDS c" and "4 / 5 \<le> j" and "j \<le> 6 / 5"
  shows "4 / 5 * min (WORKER_RETRY_BASE_SECONDS c * 2 powi (n - 1)) (WORKER_RETRY_MAX_SECONDS c) \<le> backoff c j n"
    and "backoff c j n \<le> 6 / 5 * min (WORKER_RETRY_BASE_SECONDS c * 2 powi (n - 1)) (WORKER_RETRY_MAX_SECONDS c)"
proof -
  have "0 \<le> min (WORKER_RETRY_BASE_SECONDS c * 2 powi (n - 1)) (WORKER_RETRY_MAX_SECONDS c)"
    using assms by simp
  with assms(3,4) show
    "4 / 5 * min (WORKER_RETRY_BASE_SECONDS c * 2 powi (n - 1)) (WORKER_RETRY_MAX_SECONDS c) \<le> backoff c j n"
    "backoff c j n \<le> 6 / 5 * min (WORKER_RETRY_BASE_SECONDS c * 2 powi (n - 1)) (WORKER_RETRY_MAX_SECONDS c)"
    unfolding backoff_def by (metis mult.commute mult_left_mono)+
qed

text \<open>With the defaults a job is retried seven times, after 2, 4, .., 128 seconds, times jitter.\<close>

fun retry_delays :: "config \<Rightarrow> (nat \<Rightarrow> real) \<Rightarrow> nat \<Rightarrow> real" where
  "retry_delays c jitter 0 = 0"
| "retry_delays c jitter (Suc n) = retry_delays c jitter n + backoff c (jitter (Suc n)) (int (Suc n))"

lemma retry_delays_bounds:
  assumes "0 \<le> WORKER_RETRY_BASE_SECONDS c" and "0 \<le> WORKER_RETRY_MAX_SECONDS c"
    and "\<And>i. 4 / 5 \<le> jitter i \<and> jitter i \<le> 6 / 5"
  shows "4 / 5 * (\<Sum>i < n. min (WORKER_RETRY_BASE_SECONDS c * 2 ^ i) (WORKER_RETRY_MAX_SECONDS c)) \<le> retry_delays c jitter n
    \<and> retry_delays c jitter n \<le> 6 / 5 * (\<Sum>i < n. min (WORKER_RETRY_BASE_SECONDS c * 2 ^ i) (WORKER_RETRY_MAX_SECONDS c))"
proof (induction n)
  case (Suc n)
  have "backoff c (jitter (Suc n)) (int (Suc n)) \<ge> 4 / 5 * min (WORKER_RETRY_BASE_SECONDS c * 2 ^ n) (WORKER_RETRY_MAX_SECONDS c)"
    "backoff c (jitter (Suc n)) (int (Suc n)) \<le> 6 / 5 * min (WORKER_RETRY_BASE_SECONDS c * 2 ^ n) (WORKER_RETRY_MAX_SECONDS c)"
    using backoff_bounds [OF assms(1,2), of "jitter (Suc n)" "int (Suc n)"] assms(3)
    by (simp_all add: power_int_def)
  with Suc show ?case by (simp add: algebra_simps)
qed simp

section \<open>Properties of a job's execution\<close>

text \<open>A world with one claimable payout, for the concrete instances.\<close>

definition ex_payout :: "string \<Rightarrow> string option \<Rightarrow> payout" where
  "ex_payout st key = \<lparr>p_id = 5, p_settlement = 1, p_merchant = 7, p_amount = 250, p_currency = ''EUR'',
     p_state = st, p_key = key, p_bank_ref = None, p_created_at = 10\<rparr>"

definition ex_world :: "payout \<Rightarrow> (mem, bank) world" where
  "ex_world p = \<lparr>w_db = \<lparr>merchants = [7],
       settlements = [\<lparr>s_id = 1, s_merchant = 7, s_date = 0, s_amount = 250, s_currency = ''EUR'', s_status = ''executing''\<rparr>],
       payouts = [p]\<rparr>,
     w_redis = \<lparr>m_lists = [], m_zsets = [], m_leases = []\<rparr>, w_bank = \<lparr>ledger = [], by_key = []\<rparr>, w_metrics = no_metrics\<rparr>"

definition ex_env :: "reply \<Rightarrow> env" where
  "ex_env rq = \<lparr>ev_uuid = ''K1'', ev_claim = Done, ev_mark = Done, ev_ack = Done, ev_requeue = rq, ev_now = 30, ev_jitter = 1\<rparr>"

definition ex_job :: dict where
  "ex_job = new_job None 11 (ex_payout ''queued'' None)"

lemma ex_payout_simps [simp]:
  "p_id (ex_payout st key) = 5" "p_settlement (ex_payout st key) = 1" "p_merchant (ex_payout st key) = 7"
  "p_amount (ex_payout st key) = 250" "p_currency (ex_payout st key) = ''EUR''" "p_state (ex_payout st key) = st"
  "p_key (ex_payout st key) = key" "p_bank_ref (ex_payout st key) = None"
  by (simp_all add: ex_payout_def)

lemma ex_world_ok: "payout_ok (ex_payout st key) \<Longrightarrow> db_ok (w_db (ex_world (ex_payout st key)))"
  by (simp add: ex_world_def db_ok_def unique_keys_def from_settlement_def split: option.split)

lemma ex_row: "payout_row (w_db (ex_world (ex_payout st key))) 5 = Some (ex_payout st key)"
  by (simp add: ex_world_def payout_row_def)

lemma ex_rows: "payouts (w_db (ex_world p)) = [p]"
  by (simp add: ex_world_def)

lemma ex_keys_ok: "key \<noteq> Some [] \<Longrightarrow> keys_ok (w_db (ex_world (ex_payout st key)))"
  by (simp add: ex_world_def keys_ok_def)

lemma ex_job_for: "job_for (ex_payout st key) ex_job"
  by (simp add: job_for_def ex_job_def new_job_def exI [of _ None])

lemma ex_env_done: "all_done (ex_env Done)" "ev_uuid (ex_env rq) = ''K1''" "ev_requeue (ex_env rq) = rq"
  by (simp_all add: all_done_def ex_env_def)

lemmas ex_facts = ex_rows ex_world_ok ex_row ex_keys_ok ex_job_for ex_env_done payout_ok_def



text \<open>A redelivered job of a paid payout is acknowledged and nothing else: no bank call, no
  change of the tables.\<close>

lemma process_skips_paid:
  assumes "db_ok (w_db w)" and "payout_row (w_db w) (p_id p) = Some p" and "p_state p = ''paid''" and "job_for p job"
    and "all_done ev"
  shows "process c R post wid ev (Json (JObj job)) w =
    (None, count_w JOBS_TOTAL ''duplicate_skipped'' (w\<lparr>w_redis := lrem1 R (processing_key wid) (Json (JObj job)) (w_redis w)\<rparr>))"
proof -
  have "ev_claim ev = Done" "ev_ack ev = Done" using assms(5) by (simp_all add: all_done_def)
  with handle_claim_paid [OF assms(1-4)] show ?thesis by (simp add: process_def handle_def ack_def)
qed



text \<open>The claim never changes a payout's idempotency key: on a well-formed table, a claim that
  succeeds returns the key the row then holds, which is the old one if there was one; the row
  can be claimed again and again with the same result; it was queued or sending before.\<close>

lemma claim_key_is_stable:
  assumes "db_ok d" and "claim rep uuid (JInt pid) d = (Inr (Some k, st), d')"
  shows "\<exists>p. payout_row d pid = Some p \<and> claimable p \<and> k = the_key uuid p \<and> st = None
    \<and> payout_row d' pid = Some (p\<lparr>p_state := ''sending'', p_key := Some k\<rparr>)
    \<and> (\<forall>uuid'. fst (claim Done uuid' (JInt pid) d') = Inr (Some k, None))"
proof -
  from claim_Some [OF assms] obtain p where p: "payout_row d pid = Some p" "claimable p"
      "payout_row d' pid = Some (claim_row uuid p)" "p_key (claim_row uuid p) = Some k" "st = None" by blast
  have ok': "db_ok d'" using claim_db_ok [OF assms(1), of rep uuid "JInt pid"] assms(2) by simp
  have "fst (claim Done uuid' (JInt pid) d') = Inr (Some k, None)" for uuid'
    using claim_tx_open [OF ok' p(3), of uuid'] p(4) by (simp add: claim_def)
  with p show ?thesis by (auto simp: claim_row_def the_key_def)
qed

text \<open>A claim that returns no key leaves the table alone and tells the state of the row: absent,
  or neither queued nor sending.\<close>

lemma claim_refuses_closed:
  assumes "db_ok d" and "claim rep uuid (JInt pid) d = (Inr (None, st), d')"
  shows "d' = d \<and> st = map_option p_state (payout_row d pid)
    \<and> (\<forall>p. payout_row d pid = Some p \<longrightarrow> p_state p = ''paid'' \<and> st = Some ''paid'')"
proof -
  note c = claim_None [OF assms]
  have "p_state p = ''paid''" if p: "payout_row d pid = Some p" for p
  proof -
    from p assms(1) have "payout_ok p" by (auto simp: db_ok_def dest: payout_row_some)
    with c p show ?thesis by (auto simp: payout_ok_def)
  qed
  with c show ?thesis by auto
qed

text \<open>C12. The retry horizon: with the default settings and any jitter \<open>random.uniform(0.8, 1.2)\<close> can
  draw, the seven delays before the eighth and last attempt add up to at least 203.2 and at most
  304.8 seconds, well under the quarter of an hour for which the bank has to keep the keys.\<close>

theorem retry_horizon:
  assumes "\<And>i. 4 / 5 \<le> jitter i \<and> jitter i \<le> 6 / 5"
  shows "203.2 \<le> retry_delays default_config jitter (nat (WORKER_MAX_ATTEMPTS default_config - 1))
    \<and> retry_delays default_config jitter (nat (WORKER_MAX_ATTEMPTS default_config - 1)) \<le> 304.8"
  using retry_delays_bounds [of default_config jitter 7, OF _ _ assms]
  by (simp add: default_config_def numeral_eq_Suc)

theorem retry_horizon_witness: "retry_delays default_config (\<lambda>_. 1) 7 \<le> 304.8"
  using retry_horizon [of "\<lambda>_. 1"] by (simp add: default_config_def)

end
