(* ===== verification/Scenario.thy ===== *)
theory Scenario
  imports System_Safety
begin

section \<open>A run of the system: the crash of 14 August, and the redelivery\<close>

text \<open>
  One concrete run of the transition system on the in-memory Redis: a settlement is created
  and executed, worker \<open>a\<close> claims the payout and the bank pays it, the worker dies before it
  records the payment, its job is recovered, and worker \<open>b\<close> runs it again. The bank replays,
  the payout is paid, the ledger has one entry. The run shows that the hypotheses of the
  system's theorems hold in states where money has moved.
\<close>

definition mem_empty :: mem where
  "mem_empty = \<lparr>m_lists = [], m_zsets = [], m_leases = []\<rparr>"

lemma mem_empty_stored: "stored mem_redis mem_empty = {}"
  by (simp add: stored_def mem_redis_def mem_empty_def m_list_def m_zset_def)

abbreviation sc_env :: "string \<Rightarrow> env" where
  "sc_env uuid \<equiv> \<lparr>ev_uuid = uuid, ev_claim = Done, ev_mark = Done, ev_ack = Done, ev_requeue = Done,
     ev_now = 30, ev_jitter = 1\<rparr>"

definition sc_settlement :: "string \<Rightarrow> settlement" where
  "sc_settlement status = \<lparr>s_id = 1, s_merchant = 7, s_date = 0, s_amount = 250, s_currency = ''EUR'', s_status = status\<rparr>"

definition sc_payout :: payout where
  "sc_payout = queued_payout 5 10 (sc_settlement ''executing'')"

definition sc_claimed :: payout where
  "sc_claimed = claim_row ''K1'' sc_payout"

definition sc_entry :: entry where
  "sc_entry = \<lparr>e_bank_ref = ''BNK-B1'', e_merchant = 7, e_amount = 250, e_currency = ''EUR'',
     e_reference = payout_reference (JInt 5), e_ts = 20\<rparr>"

definition sc_paid :: payout where
  "sc_paid = sc_claimed\<lparr>p_state := ''paid'', p_bank_ref := Some ''BNK-B1''\<rparr>"

definition sc_job :: payload where
  "sc_job = json_dumps (JObj (new_job (Some ''r1'') 11 sc_payout))"

definition sc_db :: "settlement list \<Rightarrow> payout list \<Rightarrow> db" where
  "sc_db ss ps = \<lparr>merchants = [7], settlements = ss, payouts = ps\<rparr>"

definition sc_redis :: "(string \<times> payload list) list \<Rightarrow> mem" where
  "sc_redis ls = \<lparr>m_lists = ls, m_zsets = [], m_leases = []\<rparr>"

definition sc_bank :: "entry list \<Rightarrow> bank" where
  "sc_bank es = \<lparr>ledger = es, by_key = map (\<lambda>e. (''K1'', e)) es\<rparr>"

definition sc_sys :: "db \<Rightarrow> mem \<Rightarrow> bank \<Rightarrow> metrics \<Rightarrow> thread list \<Rightarrow> payout list \<Rightarrow> int set \<Rightarrow> mem sys" where
  "sc_sys d r b m ts ps acc =
     \<lparr>sy_world = \<lparr>w_db = d, w_redis = r, w_bank = b, w_metrics = m\<rparr>, sy_threads = ts, sy_pending = ps, sy_accepted = acc\<rparr>"

abbreviation sc_thread :: "string \<Rightarrow> pc \<Rightarrow> thread" where
  "sc_thread wid pc \<equiv> \<lparr>th_worker = wid, th_raw = sc_job, th_pc = pc\<rparr>"

abbreviation "sc_pid \<equiv> JInt 5"

definition "sc0 = sc_sys (sc_db [] []) mem_empty (sc_bank []) no_metrics [] [] {}"
definition "sc1 = sc_sys (sc_db [sc_settlement ''pending''] []) mem_empty (sc_bank []) no_metrics [] [] {}"

abbreviation "sc_open p \<equiv> sc_db [sc_settlement ''executing''] [p]"

definition "sc2 = sc_sys (sc_open sc_payout) mem_empty (sc_bank []) no_metrics [] [sc_payout] {}"
definition "sc3 = sc_sys (sc_open sc_payout) (sc_redis [(JOBS, [sc_job])]) (sc_bank []) no_metrics [] [] {5}"

abbreviation "held_by_a \<equiv> sc_redis [(JOBS, []), (processing_key ''a'', [sc_job])]"
abbreviation "held_by_b \<equiv> sc_redis [(JOBS, []), (processing_key ''a'', []), (processing_key ''b'', [sc_job])]"

definition "sc4 = sc_sys (sc_open sc_payout) held_by_a (sc_bank []) no_metrics [sc_thread ''a'' Fetched] [] {5}"
definition "sc5 = sc_sys (sc_open sc_claimed) held_by_a (sc_bank []) no_metrics [sc_thread ''a'' (Claimed sc_pid ''K1'')] [] {5}"
definition "sc6 = sc_sys (sc_open sc_claimed) held_by_a (sc_bank [sc_entry]) no_metrics
   [sc_thread ''a'' (Answered sc_pid (entry_json sc_entry False))] [] {5}"
definition "sc7 = sc_sys (sc_open sc_claimed) held_by_a (sc_bank [sc_entry]) no_metrics [] [] {5}"
definition "sc8 = sc_sys (sc_open sc_claimed) (sc_redis [(JOBS, [sc_job]), (processing_key ''a'', [])]) (sc_bank [sc_entry])
   no_metrics [] [] {5}"
definition "sc9 = sc_sys (sc_open sc_claimed) held_by_b (sc_bank [sc_entry]) no_metrics [sc_thread ''b'' Fetched] [] {5}"
definition "sc10 = sc_sys (sc_open sc_claimed) held_by_b (sc_bank [sc_entry]) no_metrics
   [sc_thread ''b'' (Claimed sc_pid ''K1'')] [] {5}"
definition "sc11 = sc_sys (sc_open sc_claimed) held_by_b (sc_bank [sc_entry]) no_metrics
   [sc_thread ''b'' (Answered sc_pid (entry_json sc_entry True))] [] {5}"
definition "sc12 = sc_sys (sc_open sc_paid) held_by_b (sc_bank [sc_entry])
   (observe PAYOUT_LATENCY 19 (inc BANK_CALLS ''replayed'' no_metrics)) [sc_thread ''b'' (Settled ''paid'')] [] {5}"

lemma step_eq: "sys_step c R s s' \<Longrightarrow> s' = s'' \<Longrightarrow> sys_step c R s s''"
  by simp

lemmas sc_defs = sc_sys_def sc_db_def sc_redis_def sc_bank_def sc_settlement_def sc_payout_def sc_claimed_def
  sc_entry_def sc_paid_def mem_empty_def queued_payout_def set_db_def set_redis_def

lemma sc_step0: "sys_step default_config mem_redis sc0 sc1"
  by (rule step_eq [OF sys_step.create [where rep = Done and new_id = 1 and
        body = "\<lparr>in_merchant_id = 7, in_settlement_date = 0, in_amount_minor = 250, in_currency = ''EUR''\<rparr>"]])
     (simp_all add: sc0_def sc1_def sc_defs create_settlement_def insert_settlement_def bigint_def char3_def)

lemma sc_step1: "sys_step default_config mem_redis sc1 sc2"
  by (rule step_eq [OF sys_step.execute [where rep = Done and sid = 1 and new_id = 5 and created = 10]])
     (simp_all add: sc1_def sc2_def sc_defs execute_tx_def sql_update_def insert_payout_def settlement_row_def)

lemma sc_step2: "sys_step default_config mem_redis sc2 sc3"
  by (rule step_eq [OF sys_step.push [where rep = Done and us = "[]" and vs = "[]" and p = sc_payout
        and rid = "Some ''r1''" and now = 11]])
     (simp_all add: sc2_def sc3_def sc_defs sc_job_def mem_redis_def m_put_def m_list_def)

lemma sc_step3: "sys_step default_config mem_redis sc3 sc4"
  by (rule step_eq [OF sys_step.fetch [where wid = "''a''"]])
     (simp_all add: sc3_def sc4_def sc_defs mem_redis_def m_move_def m_put_def m_list_def)

lemma sc_job_of: "job_of sc_job = Some (new_job (Some ''r1'') 11 sc_payout)"
  by (simp add: sc_job_def json_dumps_def)

lemma sc_step4: "sys_step default_config mem_redis sc4 sc5"
  by (rule step_eq [OF sys_step.work [where us = "[]" and vs = "[]" and t = "sc_thread ''a'' Fetched"
        and ev = "sc_env ''K1''" and net = Done and fails = False and bank_uuid = "[]" and bank_now = 0]])
     ((simp_all add: sc4_def sc5_def sc_defs sc_job_of thread_step_def handle_claim_def new_job_def dict_item_def
        claim_def claim_tx_def update_payouts_def sql_update_def claim_row_def unique_keys_def)+)

lemma sc_step5: "sys_step default_config mem_redis sc5 sc6"
  by (rule step_eq [OF sys_step.work [where us = "[]" and vs = "[]" and t = "sc_thread ''a'' (Claimed sc_pid ''K1'')"
        and ev = "sc_env ''K1''" and net = Done and fails = False and bank_uuid = "''B1''" and bank_now = 20]])
     ((simp_all add: sc5_def sc6_def sc_defs sc_job_of thread_step_def handle_pay_def new_job_def dict_item_def dict_get_def
        pay_def pay_request_def bank_post_def bank_endpoint_def payout_in_of_def create_payout_def booked_def
        new_entry_def json_response_def interpret_response_def Let_def claim_row_def)+)

lemma sc_step6: "sys_step default_config mem_redis sc6 sc7"
  by (rule step_eq [OF sys_step.worker_crash [where us = "[]" and vs = "[]"]]) (simp_all add: sc6_def sc7_def sc_sys_def)

lemma sc_step7: "sys_step default_config mem_redis sc7 sc8"
  by (rule step_eq [OF sys_step.rescue [where owner = "''a''"]])
     (simp_all add: sc7_def sc8_def sc_defs mem_redis_def m_move_def m_put_def m_list_def)

lemma sc_step8: "sys_step default_config mem_redis sc8 sc9"
  by (rule step_eq [OF sys_step.fetch [where wid = "''b''"]])
     (simp_all add: sc8_def sc9_def sc_defs mem_redis_def m_move_def m_put_def m_list_def)

lemma sc_step9: "sys_step default_config mem_redis sc9 sc10"
  by (rule step_eq [OF sys_step.work [where us = "[]" and vs = "[]" and t = "sc_thread ''b'' Fetched"
        and ev = "sc_env ''K2''" and net = Done and fails = False and bank_uuid = "[]" and bank_now = 0]])
     ((simp_all add: sc9_def sc10_def sc_defs sc_job_of thread_step_def handle_claim_def new_job_def dict_item_def
        claim_def claim_tx_def update_payouts_def sql_update_def claim_row_def unique_keys_def)+)

lemma sc_step10: "sys_step default_config mem_redis sc10 sc11"
  by (rule step_eq [OF sys_step.work [where us = "[]" and vs = "[]" and t = "sc_thread ''b'' (Claimed sc_pid ''K1'')"
        and ev = "sc_env ''K2''" and net = Done and fails = False and bank_uuid = "''B2''" and bank_now = 25]])
     ((simp_all add: sc10_def sc11_def sc_defs sc_job_of thread_step_def handle_pay_def new_job_def dict_item_def dict_get_def
        pay_def pay_request_def bank_post_def bank_endpoint_def payout_in_of_def create_payout_def booked_def
        new_entry_def json_response_def interpret_response_def Let_def claim_row_def)+)

lemma sc_step11: "sys_step default_config mem_redis sc11 sc12"
  by (rule step_eq [OF sys_step.work [where us = "[]" and vs = "[]"
        and t = "sc_thread ''b'' (Answered sc_pid (entry_json sc_entry True))"
        and ev = "sc_env ''K2''" and net = Done and fails = False and bank_uuid = "[]" and bank_now = 0]])
     ((simp_all add: sc11_def sc12_def sc_defs sc_job_of thread_step_def handle_record_def entry_json_def new_job_def
        dict_item_def dict_get_def mark_paid_def mark_paid_tx_def update_payouts_def sql_update_def claim_row_def
        unique_keys_def observe_latency_def count_w_def)+)

lemma sc0_init: "sc0 = init_sys [7] mem_empty"
  by (simp add: sc0_def init_sys_def sc_sys_def sc_db_def empty_db_def sc_bank_def)

lemma sc11_reachable: "reachable default_config mem_redis [7] mem_empty sc11"
proof -
  have "reachable default_config mem_redis [7] mem_empty sc0" unfolding sc0_init by (rule reachable.start)
  note reachable.step [OF this sc_step0]
  note reachable.step [OF this sc_step1]
  note reachable.step [OF this sc_step2]
  note reachable.step [OF this sc_step3]
  note reachable.step [OF this sc_step4]
  note reachable.step [OF this sc_step5]
  note reachable.step [OF this sc_step6]
  note reachable.step [OF this sc_step7]
  note reachable.step [OF this sc_step8]
  note reachable.step [OF this sc_step9]
  from reachable.step [OF this sc_step10] show ?thesis .
qed

lemma sc12_reachable: "reachable default_config mem_redis [7] mem_empty sc12"
  by (rule reachable.step [OF sc11_reachable sc_step11])

end
