(* ===== verification/Worker_Correct.thy ===== *)
theory Worker_Correct
  imports Worker
begin

section \<open>What housekeeping guarantees\<close>

text \<open>
  Exact effects of the recovery loop, the promotion script, the heartbeat, the metrics export
  and the main loop, for every Redis that keeps the contract \<open>redis_service\<close>: who may be
  robbed of its jobs and who may not, that no job is lost or duplicated while it moves, that
  nothing is promoted before it is due, that the loops end.
\<close>

subsection \<open>First occurrences\<close>

lemma remdups_snoc: "remdups (xs @ [x]) = filter (\<lambda>y. y \<noteq> x) (remdups xs) @ [x]"
  by (induction xs) auto

lemma first_occurrences_Cons:
  "first_occurrences (x # xs) = x # filter (\<lambda>y. y \<noteq> x) (first_occurrences xs)"
  by (simp add: first_occurrences_def remdups_snoc rev_filter)

lemma first_occurrences_Nil [simp]: "first_occurrences [] = []"
  by (simp add: first_occurrences_def)

subsection \<open>Who is recovered\<close>

text \<open>The keys of the workers a rescuer takes jobs from: not its own, and no live lease.\<close>

definition dead_keys :: "'r redis_api \<Rightarrow> string \<Rightarrow> real \<Rightarrow> string list \<Rightarrow> 'r \<Rightarrow> string list" where
  "dead_keys R me now keys r =
     filter (\<lambda>k. drop (length PROCESSING_PREFIX) k \<noteq> me
               \<and> \<not> lease_alive R (drop (length PROCESSING_PREFIX) k) now r) keys"

text \<open>What they hold, in the order it is moved: worker after worker, from the right end.\<close>

definition rescued :: "'r redis_api \<Rightarrow> string list \<Rightarrow> 'r \<Rightarrow> payload list" where
  "rescued R keys r = concat (map (\<lambda>k. rev (lrange R r k)) (first_occurrences keys))"

lemma rescued_Nil [simp]: "rescued R [] r = []"
  by (simp add: rescued_def)

lemma mset_rescued: "mset (rescued R keys r) = (\<Sum>k \<in> set keys. mset (lrange R r k))"
proof -
  have "mset (rescued R keys r) = sum_list (map (\<lambda>k. mset (lrange R r k)) (first_occurrences keys))"
    by (simp add: rescued_def mset_concat comp_def)
  also have "\<dots> = (\<Sum>k \<in> set (first_occurrences keys). mset (lrange R r k))"
    by (rule sum_list_distinct_conv_sum_set) simp
  finally show ?thesis by simp
qed

lemma rescued_Cons:
  assumes "lrange R r' = (lrange R r)(k := [], JOBS := js)" and "JOBS \<notin> set keys"
  shows "rescued R (k # keys) r = rev (lrange R r k) @ rescued R keys r'"
proof -
  have eq: "rev (lrange R r' x) = (if x = k then [] else rev (lrange R r x))" if "x \<in> set keys" for x
    using that assms by auto
  have "concat (map (\<lambda>x. if x = k then [] else rev (lrange R r x)) xs) =
      concat (map (\<lambda>x. rev (lrange R r x)) (filter (\<lambda>y. y \<noteq> k) xs))" for xs :: "string list"
    by (induction xs) auto
  moreover have "map (\<lambda>x. rev (lrange R r' x)) (first_occurrences keys) =
      map (\<lambda>x. if x = k then [] else rev (lrange R r x)) (first_occurrences keys)"
    using eq by auto
  ultimately show ?thesis by (simp add: rescued_def first_occurrences_Cons del: map_eq_conv)
qed

definition proper_key :: "string \<Rightarrow> bool" where
  "proper_key k \<longleftrightarrow> prefix PROCESSING_PREFIX k"

lemma proper_keyD: "proper_key k \<Longrightarrow> list_key k \<and> k \<noteq> JOBS \<and> k \<noteq> DEAD"
  using prefixed_key [of k] key_kinds(3) keys_distinct(3,5) unfolding proper_key_def by metis

lemma proper_key_processing [simp]: "proper_key (processing_key w)"
  by (simp add: proper_key_def processing_key_def)

context redis_service begin

lemma rescue_loop_result:
  assumes "proper_key key" and "\<forall>x \<in> set (lrange R r key). payload_truthy x"
    and "length (lrange R r key) < fuel"
  shows "\<exists>r'. rescue_loop fuel R key cnt r = Some (cnt + length (lrange R r key), r')
     \<and> lrange R r' = (lrange R r)(key := [], JOBS := lrange R r JOBS @ rev (lrange R r key))
     \<and> zscores R r' = zscores R r \<and> expiry R r' = expiry R r"
  using assms
proof (induction fuel arbitrary: cnt r)
  case (Suc fuel)
  from Suc.prems(1) have k: "list_key key" "key \<noteq> JOBS" by (auto dest: proper_keyD)
  show ?case
  proof (cases "lrange R r key" rule: rev_cases)
    case Nil
    with k show ?thesis by (intro exI [of _ r]) (auto simp: fun_eq_iff)
  next
    case (snoc xs x)
    let ?m = "lmove R key JOBS RIGHT RIGHT r"
    note mv = lmove_right_right [OF k(1) key_kinds(1) k(2) snoc]
    have "\<exists>r'. rescue_loop fuel R key (cnt + 1) (snd ?m) = Some (cnt + 1 + length (lrange R (snd ?m) key), r')
       \<and> lrange R r' = (lrange R (snd ?m))(key := [], JOBS := lrange R (snd ?m) JOBS @ rev (lrange R (snd ?m) key))
       \<and> zscores R r' = zscores R (snd ?m) \<and> expiry R r' = expiry R (snd ?m)"
      by (rule Suc.IH) (use Suc.prems snoc mv(2) k in auto)
    moreover have "rescue_loop (Suc fuel) R key cnt r = rescue_loop fuel R key (cnt + 1) (snd ?m)"
      using mv(1) Suc.prems(2) snoc by (cases ?m) auto
    ultimately show ?thesis using mv(2) snoc k by (auto simp: fun_eq_iff)
  qed
qed simp

lemma rescue_list_result:
  assumes "proper_key key" and "\<forall>x \<in> set (lrange R r key). payload_truthy x"
  shows "\<exists>r'. rescue_list R key cnt r = Some (cnt + length (lrange R r key), r')
     \<and> lrange R r' = (lrange R r)(key := [], JOBS := lrange R r JOBS @ rev (lrange R r key))
     \<and> zscores R r' = zscores R r \<and> expiry R r' = expiry R r"
  unfolding rescue_list_def by (rule rescue_loop_result [OF assms]) simp

text \<open>Whatever the list holds, the loop ends: the fuel is enough.\<close>

lemma rescue_loop_ends:
  assumes "proper_key key" and "length (lrange R r key) < fuel"
  shows "rescue_loop fuel R key cnt r \<noteq> None"
  using assms
proof (induction fuel arbitrary: cnt r)
  case (Suc fuel)
  from Suc.prems(1) have k: "list_key key" "key \<noteq> JOBS" by (auto dest: proper_keyD)
  show ?case
  proof (cases "lrange R r key" rule: rev_cases)
    case (snoc xs x)
    note mv = lmove_right_right [OF k(1) key_kinds(1) k(2) snoc]
    have "rescue_loop fuel R key (cnt + 1) (snd (lmove R key JOBS RIGHT RIGHT r)) \<noteq> None"
      by (rule Suc.IH) (use Suc.prems snoc mv(2) k in auto)
    with mv(1) show ?thesis by (cases "lmove R key JOBS RIGHT RIGHT r") auto
  qed (use k in simp)
qed simp

lemma lease_alive_cong: "expiry R r' = expiry R r \<Longrightarrow> lease_alive R owner now r' = lease_alive R owner now r"
  by (simp add: lease_alive_def exists_iff)

lemma recover_keys_result:
  assumes "\<forall>k \<in> set keys. proper_key k" and "\<forall>k \<in> set keys. \<forall>x \<in> set (lrange R r k). payload_truthy x"
  shows "\<exists>r'. recover_keys R me now keys cnt r = Some (cnt + length (rescued R (dead_keys R me now keys r) r), r')
     \<and> (\<forall>k. lrange R r' k = (if k = JOBS then lrange R r JOBS @ rescued R (dead_keys R me now keys r) r
              else if k \<in> set (dead_keys R me now keys r) then [] else lrange R r k))
     \<and> zscores R r' = zscores R r \<and> expiry R r' = expiry R r"
  using assms
proof (induction keys arbitrary: cnt r)
  case Nil
  show ?case by (intro exI [of _ r]) (simp add: dead_keys_def)
next
  case (Cons key keys)
  let ?o = "drop (length PROCESSING_PREFIX) key"
  show ?case
  proof (cases "?o = me \<or> lease_alive R ?o now r")
    case True
    then have same: "dead_keys R me now (key # keys) r = dead_keys R me now keys r"
        "recover_keys R me now (key # keys) cnt r = recover_keys R me now keys cnt r"
      by (auto simp: dead_keys_def Let_def)
    show ?thesis unfolding same by (rule Cons.IH) (use Cons.prems in auto)
  next
    case False
    have pk: "proper_key key" and pks: "\<forall>k \<in> set keys. proper_key k" using Cons.prems by auto
    from rescue_list_result [OF pk, of r cnt] Cons.prems obtain r1 where r1:
        "rescue_list R key cnt r = Some (cnt + length (lrange R r key), r1)"
        "lrange R r1 = (lrange R r)(key := [], JOBS := lrange R r JOBS @ rev (lrange R r key))"
        "zscores R r1 = zscores R r" "expiry R r1 = expiry R r" by auto
    let ?d = "dead_keys R me now keys r"
    have d1: "dead_keys R me now keys r1 = ?d"
      using lease_alive_cong [OF r1(4)] by (simp add: dead_keys_def)
    have d: "dead_keys R me now (key # keys) r = key # ?d" using False by (simp add: dead_keys_def)
    have nj: "JOBS \<notin> set ?d" using pks by (auto simp: dead_keys_def dest: proper_keyD)
    have "\<forall>k \<in> set keys. \<forall>x \<in> set (lrange R r1 k). payload_truthy x"
      using Cons.prems pks r1(2) by (auto dest: proper_keyD)
    from Cons.IH [OF pks this, of "cnt + length (lrange R r key)"] obtain r2 where r2:
        "recover_keys R me now keys (cnt + length (lrange R r key)) r1 =
           Some (cnt + length (lrange R r key) + length (rescued R ?d r1), r2)"
        "\<forall>k. lrange R r2 k = (if k = JOBS then lrange R r1 JOBS @ rescued R ?d r1
              else if k \<in> set ?d then [] else lrange R r1 k)"
        "zscores R r2 = zscores R r1" "expiry R r2 = expiry R r1" unfolding d1 by blast
    note res = rescued_Cons [OF r1(2) nj]
    show ?thesis
    proof (intro exI [of _ r2] conjI allI)
      show "recover_keys R me now (key # keys) cnt r =
          Some (cnt + length (rescued R (dead_keys R me now (key # keys) r) r), r2)"
        using False r1(1) r2(1) res by (simp add: d Let_def)
      show "lrange R r2 k = (if k = JOBS then lrange R r JOBS @ rescued R (dead_keys R me now (key # keys) r) r
          else if k \<in> set (dead_keys R me now (key # keys) r) then [] else lrange R r k)" for k
        using r2(2) r1(2) res by (auto simp: d)
    qed (use r1 r2 in auto)
  qed
qed

text \<open>The scan finds every processing list that holds something.\<close>

lemma scan_proper: "k \<in> set (scan_prefix R PROCESSING_PREFIX r) \<Longrightarrow> proper_key k"
  using scan_prefixed by (simp add: proper_key_def)

lemma recover_result:
  assumes truthy: "\<forall>w. \<forall>x \<in> set (lrange R r (processing_key w)). payload_truthy x"
  shows "\<exists>js r'. recover_dead_workers R me now r m =
        Some (length js, r', if js = [] then m else inc_by RECOVERED [] (length js) m)
     \<and> lrange R r' JOBS = lrange R r JOBS @ js
     \<and> lrange R r' DEAD = lrange R r DEAD
     \<and> (\<forall>w. lrange R r' (processing_key w) =
          (if w = me \<or> lease_alive R w now r then lrange R r (processing_key w) else []))
     \<and> mset js = (\<Sum>k \<in> set (dead_keys R me now (scan_prefix R PROCESSING_PREFIX r) r). mset (lrange R r k))
     \<and> set js = (\<Union>w \<in> {w. w \<noteq> me \<and> \<not> lease_alive R w now r}. set (lrange R r (processing_key w)))
     \<and> zscores R r' = zscores R r \<and> expiry R r' = expiry R r"
proof -
  let ?keys = "scan_prefix R PROCESSING_PREFIX r"
  let ?d = "dead_keys R me now ?keys r"
  have proper: "\<forall>k \<in> set ?keys. proper_key k" by (simp add: scan_proper)
  have tr: "\<forall>k \<in> set ?keys. \<forall>x \<in> set (lrange R r k). payload_truthy x"
  proof (intro ballI)
    fix k x assume k: "k \<in> set ?keys" and x: "x \<in> set (lrange R r k)"
    from k obtain w where "k = processing_key w"
      using prefixed_key [of k] scan_proper by (auto simp: proper_key_def)
    with x truthy show "payload_truthy x" by blast
  qed
  from recover_keys_result [OF proper tr, of me now 0] obtain r' where r':
      "recover_keys R me now ?keys 0 r = Some (length (rescued R ?d r), r')"
      "\<forall>k. lrange R r' k = (if k = JOBS then lrange R r JOBS @ rescued R ?d r
              else if k \<in> set ?d then [] else lrange R r k)"
      "zscores R r' = zscores R r" "expiry R r' = expiry R r" by auto
  have dead: "k \<in> set ?d \<longleftrightarrow> k \<in> set ?keys \<and> (\<exists>w. k = processing_key w \<and> w \<noteq> me \<and> \<not> lease_alive R w now r)" for k
  proof
    assume k: "k \<in> set ?d"
    then have "k = processing_key (drop (length PROCESSING_PREFIX) k)"
      using scan_proper prefixed_key by (auto simp: dead_keys_def proper_key_def)
    with k show "k \<in> set ?keys \<and> (\<exists>w. k = processing_key w \<and> w \<noteq> me \<and> \<not> lease_alive R w now r)"
      unfolding dead_keys_def by auto
  qed (auto simp: dead_keys_def processing_key_def)
  have found: "lrange R r (processing_key w) \<noteq> [] \<Longrightarrow> processing_key w \<in> set ?keys" for w
    using scan_complete [of "processing_key w" PROCESSING_PREFIX r] key_kinds(3) by (simp add: processing_key_def)
  have not_special: "DEAD \<notin> set ?d" using dead by auto
  have lists: "lrange R r' (processing_key w) =
      (if w = me \<or> lease_alive R w now r then lrange R r (processing_key w) else [])" for w
    using r'(2) dead [of "processing_key w"] found [of w] by auto
  have "set (rescued R ?d r) = (\<Union>k \<in> set ?d. set (lrange R r k))" by (auto simp: rescued_def)
  also have "\<dots> = (\<Union>w \<in> {w. w \<noteq> me \<and> \<not> lease_alive R w now r}. set (lrange R r (processing_key w)))"
  proof (intro equalityI subsetI)
    fix x assume "x \<in> (\<Union>k \<in> set ?d. set (lrange R r k))"
    then obtain k where "k \<in> set ?d" "x \<in> set (lrange R r k)" by blast
    with dead [of k] show "x \<in> (\<Union>w \<in> {w. w \<noteq> me \<and> \<not> lease_alive R w now r}. set (lrange R r (processing_key w)))"
      by blast
  next
    fix x assume "x \<in> (\<Union>w \<in> {w. w \<noteq> me \<and> \<not> lease_alive R w now r}. set (lrange R r (processing_key w)))"
    then obtain w where w: "w \<noteq> me" "\<not> lease_alive R w now r" "x \<in> set (lrange R r (processing_key w))" by blast
    then have "processing_key w \<in> set ?keys" by (intro found) auto
    with w(1,2) dead [of "processing_key w"] have "processing_key w \<in> set ?d" by blast
    with w(3) show "x \<in> (\<Union>k \<in> set ?d. set (lrange R r k))" by blast
  qed
  finally have held: "set (rescued R ?d r) = (\<Union>w \<in> {w. w \<noteq> me \<and> \<not> lease_alive R w now r}. set (lrange R r (processing_key w)))" .
  have jobs: "lrange R r' JOBS = lrange R r JOBS @ rescued R ?d r" "lrange R r' DEAD = lrange R r DEAD"
    using r'(2) not_special by simp_all
  have res: "recover_dead_workers R me now r m =
      Some (length (rescued R ?d r), r', if rescued R ?d r = [] then m else inc_by RECOVERED [] (length (rescued R ?d r)) m)"
    by (simp add: recover_dead_workers_def r'(1))
  show ?thesis
    by (intro exI [of _ "rescued R ?d r"] exI [of _ r'] conjI allI)
       (rule res jobs lists mset_rescued held r'(3,4))+
qed

subsection \<open>Promotion\<close>

lemma promote_fold:
  "lrange R (fold (promote_one R) due r) = (lrange R r)(JOBS := lrange R r JOBS @ due)
   \<and> zscores R (fold (promote_one R) due r) RETRY = (\<lambda>x. if x \<in> set due then None else zscores R r RETRY x)
   \<and> expiry R (fold (promote_one R) due r) = expiry R r"
  by (induction due arbitrary: r) (auto simp: promote_one_def fun_eq_iff)

lemma promote_result:
  assumes "promote_due_retries R now r = (n, r')"
  shows "\<exists>due. n = length due \<and> distinct due
    \<and> (\<forall>x \<in> set due. \<exists>t. zscores R r RETRY x = Some t \<and> t \<le> now)
    \<and> n = min 100 (card {x. \<exists>t. zscores R r RETRY x = Some t \<and> t \<le> now})
    \<and> (n < 100 \<longrightarrow> set due = {x. \<exists>t. zscores R r RETRY x = Some t \<and> t \<le> now})
    \<and> lrange R r' = (lrange R r)(JOBS := lrange R r JOBS @ due)
    \<and> zscores R r' RETRY = (\<lambda>x. if x \<in> set due then None else zscores R r RETRY x)
    \<and> expiry R r' = expiry R r"
proof -
  let ?due = "zrangebyscore R RETRY now 100 r"
  have r: "n = length ?due" "r' = fold (promote_one R) ?due r"
    using assms by (simp_all add: promote_due_retries_def Let_def)
  note facts = promote_fold [of ?due r] zrange_distinct [OF key_kinds(4), of now 100 r]
    zrange_length [OF key_kinds(4), of now 100 r]
  have "\<forall>x \<in> set ?due. \<exists>t. zscores R r RETRY x = Some t \<and> t \<le> now"
    using zrange_due [OF key_kinds(4), of _ now 100 r] by blast
  moreover have "n < 100 \<longrightarrow> set ?due = {x. \<exists>t. zscores R r RETRY x = Some t \<and> t \<le> now}"
    unfolding r(1) using zrange_all_due [OF key_kinds(4), of now 100 r] by blast
  ultimately show ?thesis
    by (intro exI [of _ ?due] conjI) (use r facts in \<open>simp_all only:\<close>)
qed

subsection \<open>Leases\<close>

lemma heartbeat_alive:
  "lease_alive R owner now (heartbeat c R wid version t r) \<longleftrightarrow>
     (if owner = wid then now < t + real_of_int (WORKER_LEASE_SECONDS c) else lease_alive R owner now r)"
  by (simp add: lease_alive_def heartbeat_def exists_iff)

lemma heartbeat_frame:
  "lrange R (heartbeat c R wid version t r) = lrange R r" "zscores R (heartbeat c R wid version t r) = zscores R r"
  by (simp_all add: heartbeat_def)

lemma drain_finish_lease:
  "drain_finish R wid r = (n, r') \<Longrightarrow> n = length (lrange R r (processing_key wid))
     \<and> lrange R r' = lrange R r \<and> zscores R r' = zscores R r
     \<and> (\<forall>owner. lease_alive R owner now r' \<longleftrightarrow> owner \<noteq> wid \<and> lease_alive R owner now r)"
  by (auto simp: drain_finish_def lease_alive_def exists_iff split: if_splits)

end

end
