(* ===== verification/Housekeeping.thy ===== *)
theory Housekeeping
  imports Worker_Loop System_Safety
begin

section \<open>The housekeeping loop survives\<close>

text \<open>
  A turn of the housekeeping loop loses no job and keeps the thread alive, whichever Redis
  command fails in it, as long as the jobs in Redis are JSON objects whose \<open>enqueued_at\<close> is a
  number or absent; jobs of the API and of the retry path are. One job that is another JSON
  value at the end of the queue kills the thread, and with it the worker's heartbeat.
\<close>

definition measurable :: "payload \<Rightarrow> bool" where
  "measurable x \<longleftrightarrow> (\<exists>job. x = Json (JObj job)
     \<and> (let e = dict_get job ''enqueued_at'' JNull in py_truth e \<longrightarrow> py_number e \<noteq> None \<or> (\<exists>s. e = JStr s)))"

lemma json_float_number: "py_number v = Some x \<Longrightarrow> json_float v = Inr (Fin x)"
  by (cases v) simp_all

lemma json_float_text: "\<exists>m. json_float (JStr s) = Inl (ValueError m) \<or> (\<exists>f. json_float (JStr s) = Inr f)"
  by (auto simp: py_float_def Let_def split: prod.split option.split)

lemma age_since_nonneg: "age_since now f = PosInf \<or> (\<exists>x \<ge> 0. age_since now f = Fin x)"
  by (cases f) (auto simp: age_since_def Let_def)

text \<open>The age of a measurable job is never negative, and not a number only when it is infinite.\<close>

lemma oldest_age_measurable:
  assumes "measurable x"
  shows "\<exists>age. oldest_age now (Some x) = Inr age \<and> (age = PosInf \<or> (\<exists>a \<ge> 0. age = Fin a))"
proof -
  from assms obtain job where x: "x = Json (JObj job)" and
      m: "let e = dict_get job ''enqueued_at'' JNull in py_truth e \<longrightarrow> py_number e \<noteq> None \<or> (\<exists>s. e = JStr s)"
    by (auto simp: measurable_def)
  define e where "e = dict_get job ''enqueued_at'' JNull"
  define v where "v = (if py_truth e then e else JFloat now)"
  have "(\<exists>m. json_float v = Inl (ValueError m)) \<or> (\<exists>f. json_float v = Inr f)"
  proof (cases "py_truth e")
    case True
    with m have "(\<exists>t. py_number v = Some t) \<or> (\<exists>s. v = JStr s)" by (auto simp: e_def v_def Let_def)
    then show ?thesis
    proof
      assume "\<exists>t. py_number v = Some t"
      then show ?thesis using json_float_number by blast
    next
      assume "\<exists>s. v = JStr s"
      then show ?thesis using json_float_text by blast
    qed
  next
    case False
    then show ?thesis by (simp add: v_def)
  qed
  moreover have "job_age now x = bind_res (json_float v) (\<lambda>t. Inr (age_since now t))"
    by (simp add: x job_age_def Let_def e_def v_def)
  ultimately show ?thesis using age_since_nonneg [of now] by (auto simp: oldest_age_def x payload_truthy_def)
qed

lemma oldest_age_poison:
  assumes "\<And>job. v \<noteq> JObj job"
  shows "oldest_age now (Some (Json v)) = Inl (AttributeError ''object has no attribute get'')"
proof (cases v)
  case (JObj job)
  with assms show ?thesis by blast
qed (simp_all add: oldest_age_def job_age_def payload_truthy_def)

lemma export_dead: "fst (export_queue_metrics R now r m) =
    (case oldest_age now (last_option (lrange R r JOBS)) of Inl e \<Rightarrow> Some e | Inr _ \<Rightarrow> None)"
  by (simp add: export_queue_metrics_def Let_def split: sum.splits)

context redis_service begin

lemma rescue_loop_stored:
  "rescue_loop fuel R key cnt r = Some (n, r') \<Longrightarrow> list_key key \<Longrightarrow> stored R r' = stored R r"
proof (induction fuel arbitrary: cnt r)
  case (Suc fuel)
  obtain out r1 where m: "lmove R key JOBS RIGHT RIGHT r = (out, r1)" by fastforce
  with stored_lmove [OF Suc.prems(2) key_kinds(1), of RIGHT RIGHT r] have "stored R r1 = stored R r" by simp
  with m Suc show ?case by (auto split: option.splits if_splits)
qed simp

lemma recover_keys_stored:
  "recover_keys R me now keys cnt r = Some (n, r') \<Longrightarrow> \<forall>k \<in> set keys. list_key k \<Longrightarrow> stored R r' = stored R r"
proof (induction keys arbitrary: cnt r)
  case (Cons key keys)
  let ?o = "drop (length PROCESSING_PREFIX) key"
  show ?case
  proof (cases "?o = me \<or> lease_alive R ?o now r")
    case True
    with Cons show ?thesis by (auto simp: Let_def)
  next
    case False
    with Cons.prems(1) obtain a where "rescue_list R key cnt r = Some a"
      by (cases "rescue_list R key cnt r") (auto simp: Let_def)
    then obtain n1 r1 where r1: "rescue_list R key cnt r = Some (n1, r1)" by (cases a) auto
    with False Cons.prems(1) have next_keys: "recover_keys R me now keys n1 r1 = Some (n, r')"
      by (simp add: Let_def)
    from r1 rescue_loop_stored Cons.prems(2) have "stored R r1 = stored R r"
      by (auto simp: rescue_list_def simp del: rescue_loop.simps)
    with Cons.IH [OF next_keys] Cons.prems(2) show ?thesis by simp
  qed
qed simp

lemma recover_stored:
  assumes "recover_dead_workers R me now r m = Some (n, r', m')" shows "stored R r' = stored R r"
proof -
  have "\<forall>k \<in> set (scan_prefix R PROCESSING_PREFIX r). list_key k"
    using scan_proper by (auto dest: proper_keyD)
  with assms recover_keys_stored show ?thesis
    by (auto simp: recover_dead_workers_def split: option.splits prod.splits)
qed

lemma jobs_stored: "x \<in> set (lrange R r JOBS) \<Longrightarrow> x \<in> stored R r"
  by (auto simp: stored_def intro: exI [of _ JOBS])

lemma housekeeping_result:
  assumes "housekeeping_turn c R me version fault now mono_now dups rep h w = (h', w')"
    and ok: "\<forall>x \<in> stored R (w_redis w). measurable x"
  shows "h_dead h' = h_dead h \<and> w_db w' = w_db w \<and> w_bank w' = w_bank w
    \<and> stored R (w_redis w') = stored R (w_redis w)"
proof -
  let ?r1 = "heartbeat c R me version now (w_redis w)"
  have s1: "stored R ?r1 = stored R (w_redis w)" by (simp add: heartbeat_def)
  have alive: "fst (export_queue_metrics R now r m) = None" if "stored R r = stored R (w_redis w)" for r m
  proof (cases "lrange R r JOBS = []")
    case False
    then have "last (lrange R r JOBS) \<in> stored R r" by (intro jobs_stored) simp
    with ok that have "measurable (last (lrange R r JOBS))" by simp
    with oldest_age_measurable obtain age where "oldest_age now (Some (last (lrange R r JOBS))) = Inr age"
      by blast
    with False show ?thesis by (simp add: export_dead last_option_def)
  qed (simp add: export_dead last_option_def oldest_age_def)
  consider "fault = Some 0" | "fault = Some 1" | "fault \<noteq> Some 0" "fault \<noteq> Some 1" by blast
  then show ?thesis
  proof cases
    case 1
    then have "(h', w') = (h, w)" using assms(1) unfolding housekeeping_turn_def Let_def by (simp only: simp_thms if_True)
    then show ?thesis by simp
  next
    case 2
    then have "(h', w') = (h, w\<lparr>w_redis := ?r1\<rparr>)" using assms(1)
      unfolding housekeeping_turn_def Let_def by (simp only: simp_thms if_True if_False option.inject one_neq_zero zero_neq_one)
    with s1 show ?thesis by simp
  next
    case 3
    note no_fault = 3
    show ?thesis
    proof (cases "recover_dead_workers R me now ?r1 (w_metrics w)")
      case None
      then have "(h', w') = (h, w\<lparr>w_redis := ?r1\<rparr>)"
        using no_fault assms(1) by (simp add: housekeeping_turn_def)
      with s1 show ?thesis by simp
    next
      case (Some a)
      obtain n r2 m2 where rec: "recover_dead_workers R me now ?r1 (w_metrics w) = Some (n, r2, m2)"
        using Some by (cases a) auto
      have s2: "stored R r2 = stored R (w_redis w)" using recover_stored [OF rec] s1 by simp
      obtain k r3 where pr: "promote_due_retries R now r2 = (k, r3)" by fastforce
      have s3: "stored R r3 = stored R (w_redis w)" using stored_promote [of now r2] pr s2 by simp
      obtain out m4 where ex: "export_queue_metrics R now r3 m2 = (out, m4)" by fastforce
      with alive [OF s3, of m2] have "out = None" by simp
      then have "h_dead h' = h_dead h \<and> w_db w' = w_db w \<and> w_bank w' = w_bank w \<and> (w_redis w' = r2 \<or> w_redis w' = r3)"
        using assms(1) no_fault rec pr ex by (auto simp: housekeeping_turn_def Let_def split: if_splits)
      with s2 s3 show ?thesis by auto
    qed
  qed
qed

lemma housekeeping_poisoned:
  assumes "rev (lrange R (w_redis w) JOBS) = Json v # rest" and "\<And>job. v \<noteq> JObj job"
    and "\<forall>k. list_key k \<longrightarrow> k \<noteq> JOBS \<longrightarrow> lrange R (w_redis w) k = []"
    and "\<forall>x t. zscores R (w_redis w) RETRY x = Some t \<longrightarrow> now < t"
  shows "h_dead (fst (housekeeping_turn c R me version None now mono_now dups rep h w)) =
    Some (AttributeError ''object has no attribute get'')"
proof -
  let ?r1 = "heartbeat c R me version now (w_redis w)"
  have l1: "lrange R ?r1 = lrange R (w_redis w)" "zscores R ?r1 = zscores R (w_redis w)"
    by (simp_all add: heartbeat_def)
  with assms(3) have none: "lrange R ?r1 (processing_key k) = []" for k
    using key_kinds(3) keys_distinct(3) by auto
  then have "\<forall>k. \<forall>x \<in> set (lrange R ?r1 (processing_key k)). payload_truthy x" by simp
  from recover_result [OF this, of me now "w_metrics w"] none obtain r2 m2 js where
      rec: "recover_dead_workers R me now ?r1 (w_metrics w) = Some (length js, r2, m2)"
      "lrange R r2 JOBS = lrange R ?r1 JOBS @ js" "set js = {}" "zscores R r2 = zscores R ?r1"
    by auto
  obtain k r3 where pr: "promote_due_retries R now r2 = (k, r3)" by fastforce
  from promote_result [OF this] obtain due where due:
      "\<forall>x \<in> set due. \<exists>t. zscores R r2 RETRY x = Some t \<and> t \<le> now"
      "lrange R r3 = (lrange R r2)(JOBS := lrange R r2 JOBS @ due)" by blast
  have "due = []"
  proof (cases due)
    case (Cons x xs)
    with due(1) rec(4) l1(2) assms(4) show ?thesis by fastforce
  qed
  with due(2) rec(2,3) l1(1) have "lrange R r3 JOBS = lrange R (w_redis w) JOBS" by simp
  moreover from assms(1) have "lrange R (w_redis w) JOBS = rev rest @ [Json v]"
    by (metis rev.simps(2) rev_rev_ident)
  ultimately have "last_option (lrange R r3 JOBS) = Some (Json v)" by (simp add: last_option_def)
  then have ex: "fst (export_queue_metrics R now r3 m2) = Some (AttributeError ''object has no attribute get'')"
    by (simp add: export_dead oldest_age_poison [OF assms(2)])
  then obtain m4 where "export_queue_metrics R now r3 m2 =
      (Some (AttributeError ''object has no attribute get''), m4)"
    by (cases "export_queue_metrics R now r3 m2") auto
  with rec(1) pr show ?thesis by (simp add: housekeeping_turn_def Let_def)
qed

lemma good_job_measurable: "good_job d x \<Longrightarrow> measurable x"
  by (auto simp: good_job_def job_for_def measurable_def dict_get_def)

end

end
