(* ===== verification/Api_Correct.thy ===== *)
theory Api_Correct
  imports Api Payout_Correct
begin

section \<open>The HTTP service: what the endpoints guarantee\<close>

text \<open>
  On tables that satisfy \<open>db_ok\<close>: a settlement is executed at most once, the join shows each
  settlement once, the list is the newest page, the report adds every settlement once; and
  whatever the endpoint does, the middleware restores the context and echoes the request id.
\<close>

subsection \<open>The join of settlements with payouts\<close>

lemma joined_at_most_one:
  assumes "distinct (map p_settlement ps)"
  shows "filter (\<lambda>p. p_settlement p = k) ps = (case find (\<lambda>p. p_settlement p = k) ps of None \<Rightarrow> [] | Some p \<Rightarrow> [p])"
  using assms
  by (induction ps) (auto split: option.splits simp: find_None_iff find_Some_iff image_iff)

definition payout_of :: "db \<Rightarrow> settlement \<Rightarrow> payout option" where
  "payout_of d s = find (\<lambda>p. p_settlement p = s_id s) (payouts d)"

lemma left_join_rows: "db_ok d \<Longrightarrow> left_join d = map (\<lambda>s. (s, payout_of d s)) (settlements d)"
proof -
  assume "db_ok d"
  then have "joined d = (\<lambda>s. [(s, payout_of d s)])"
    by (simp add: fun_eq_iff joined_def joined_at_most_one db_ok_def payout_of_def split: option.splits)
  then show ?thesis by (simp add: left_join_def concat_map_singleton)
qed

subsection \<open>Executing a settlement\<close>

lemma sql_update_none: "\<forall>r \<in> set t. \<not> P r \<Longrightarrow> sql_update P f t = ([], t)"
  by (auto simp: sql_update_def intro: map_idI)

lemma execute_tx_conflict:
  assumes "\<forall>s \<in> set (settlements d). s_id s = sid \<longrightarrow> s_status s \<noteq> ''pending''"
  shows "execute_tx sid nid created d = (Inl (HTTPException 409 ''settlement is not pending''), d)"
proof -
  have "\<forall>s \<in> set (settlements d). \<not> (s_id s = sid \<and> s_status s = ''pending'')" using assms by blast
  from sql_update_none [OF this] show ?thesis by (simp add: execute_tx_def)
qed

lemma insert_payout_settlements: "settlements (snd (insert_payout p d)) = settlements d"
  by (simp add: insert_payout_def)

lemma execute_tx_settlements:
  assumes "execute_tx sid nid created d = (Inr p, d')"
  shows "settlements d' = map (\<lambda>s. if s_id s = sid \<and> s_status s = ''pending'' then s\<lparr>s_status := ''executing''\<rparr> else s) (settlements d)"
proof -
  obtain rows t where u: "sql_update (\<lambda>s. s_id s = sid \<and> s_status s = ''pending'')
      (\<lambda>s. s\<lparr>s_status := ''executing''\<rparr>) (settlements d) = (rows, t)" by fastforce
  show ?thesis
  proof (cases "first_row rows")
    case None
    with assms u show ?thesis by (simp add: execute_tx_def)
  next
    case (Some s)
    obtain out d2 where i: "insert_payout (queued_payout nid created s) (d\<lparr>settlements := t\<rparr>) = (out, d2)" by fastforce
    with insert_payout_settlements [of "queued_payout nid created s" "d\<lparr>settlements := t\<rparr>"]
    have "settlements d2 = t" by simp
    moreover from assms u Some i have "d' = d2" by (cases out) (simp_all add: execute_tx_def)
    moreover from u have "t = map (\<lambda>s. if s_id s = sid \<and> s_status s = ''pending'' then s\<lparr>s_status := ''executing''\<rparr> else s) (settlements d)"
      by (simp add: sql_update_def)
    ultimately show ?thesis by simp
  qed
qed

lemma execute_tx_closes:
  assumes "execute_tx sid nid created d = (Inr p, d')"
  shows "\<forall>s \<in> set (settlements d'). s_id s = sid \<longrightarrow> s_status s \<noteq> ''pending''"
proof (intro ballI impI)
  fix s assume "s \<in> set (settlements d')" and sid: "s_id s = sid"
  then obtain r where "s = (if s_id r = sid \<and> s_status r = ''pending'' then r\<lparr>s_status := ''executing''\<rparr> else r)"
    unfolding execute_tx_settlements [OF assms] set_map by (elim imageE)
  with sid show "s_status s \<noteq> ''pending''" by (cases "s_id r = sid \<and> s_status r = ''pending''") simp_all
qed

text \<open>A 202 and also a lost answer close the settlement; only a refused transaction leaves it open.\<close>

lemma execute_settlement_cases:
  assumes "execute_settlement R rep_db rep_push sid nid created rid now w = (out, w')"
  shows "(\<exists>e. out = Inl e \<and> w' = w)
    \<or> (\<exists>p d r. execute_tx sid nid created (w_db w) = (Inr p, d) \<and> w' = w\<lparr>w_db := d, w_redis := r\<rparr>
        \<and> (r = w_redis w \<or> r = lpush R JOBS (json_dumps (JObj (new_job rid now p))) (w_redis w))
        \<and> ((\<exists>e. out = Inl e)
           \<or> out = Inr (JObj [(''payout_id'', JInt (p_id p)), (''state'', JStr ''queued'')])
             \<and> r = lpush R JOBS (json_dumps (JObj (new_job rid now p))) (w_redis w)))"
proof -
  obtain res d where tx: "transaction rep_db (execute_tx sid nid created) (w_db w) = (res, d)" by fastforce
  show ?thesis
  proof (cases res)
    case (Inl e)
    with assms tx have o: "out = Inl e" "w' = w\<lparr>w_db := d\<rparr>" by (auto simp: execute_settlement_def)
    from transaction_cases [of rep_db "execute_tx sid nid created" "w_db w"] tx
    have "d = w_db w \<or> (\<exists>p. execute_tx sid nid created (w_db w) = (Inr p, d))" by auto
    then show ?thesis
    proof (elim disjE exE)
      assume "d = w_db w"
      with o show ?thesis by simp
    next
      fix p assume "execute_tx sid nid created (w_db w) = (Inr p, d)"
      with o show ?thesis by (intro disjI2 exI [of _ p] exI [of _ d] exI [of _ "w_redis w"]) simp
    qed
  next
    case (Inr p)
    with tx have ex: "execute_tx sid nid created (w_db w) = (Inr p, d)" by (auto dest: transaction_ok)
    let ?f = "\<lambda>r. ((), lpush R JOBS (json_dumps (JObj (new_job rid now p))) r)"
    obtain a r where pf: "perform rep_push ?f (w_redis w) = (a, r)" by fastforce
    from perform_cases [of rep_push ?f "w_redis w"] pf
    have r: "r = w_redis w \<or> r = snd (?f (w_redis w))" by simp
    show ?thesis
    proof (cases a)
      case (Inl e)
      with assms tx Inr pf have "out = Inl e" "w' = w\<lparr>w_db := d, w_redis := r\<rparr>"
        by (auto simp: execute_settlement_def)
      with ex r show ?thesis by (intro disjI2 exI [of _ p] exI [of _ d] exI [of _ r]) simp
    next
      case (Inr u)
      with pf have "r = snd (?f (w_redis w))" by (auto dest: perform_ok)
      moreover from assms tx \<open>res = Inr p\<close> pf Inr
      have "out = Inr (JObj [(''payout_id'', JInt (p_id p)), (''state'', JStr ''queued'')])"
        "w' = w\<lparr>w_db := d, w_redis := r\<rparr>" by (auto simp: execute_settlement_def)
      ultimately show ?thesis using ex by (intro disjI2 exI [of _ p] exI [of _ d] exI [of _ r]) simp
    qed
  qed
qed

subsection \<open>Listing\<close>

definition matches_date :: "int option \<Rightarrow> settlement \<Rightarrow> bool" where
  "matches_date date s \<longleftrightarrow> date = None \<or> Some (s_date s) = date"

lemma sorted_desc_take:
  fixes ids :: "int list"
  assumes "sorted (map uminus ids)" and "x \<in> set (take n ids)" and "y \<in> set (drop n ids)"
  shows "y \<le> x"
proof -
  have "sorted (map uminus (take n ids) @ map uminus (drop n ids))"
    using assms(1) by (simp flip: map_append)
  with assms(2,3) show ?thesis by (auto simp: sorted_append)
qed

lemma list_settlements_result:
  assumes ok: "db_ok d" and res: "list_settlements date limit d = Inr rows"
  shows "length rows = min (nat (min limit 500)) (length (filter (matches_date date) (settlements d)))
    \<and> sorted_wrt (\<lambda>x y. s_id (fst x) > s_id (fst y)) rows
    \<and> (\<forall>(s, q) \<in> set rows. s \<in> set (settlements d) \<and> matches_date date s \<and> q = payout_of d s)
    \<and> (\<forall>s \<in> set (settlements d). matches_date date s \<longrightarrow> s \<notin> fst ` set rows \<longrightarrow> (\<forall>(t, q) \<in> set rows. s_id s < s_id t))"
proof -
  let ?n = "nat (min limit 500)"
  define ss where "ss = sort_key (\<lambda>s. - s_id s) (filter (matches_date date) (settlements d))"
  let ?row = "\<lambda>s. (s, payout_of d s)"
  have sort_map: "sort_key (\<lambda>(s, p). - s_id s) (map ?row xs) = map ?row (sort_key (\<lambda>s. - s_id s) xs)" for xs
    by (simp add: sort_key_map)
  have flt: "filter (\<lambda>(s, p). date = None \<or> Some (s_date s) = date) (map ?row xs) = map ?row (filter (matches_date date) xs)" for xs
    by (induction xs) (simp_all add: matches_date_def)
  have rows: "rows = map ?row (take ?n ss)"
    using res unfolding list_settlements_def left_join_rows [OF ok] Let_def
    by (simp add: flt sort_map ss_def take_map split: if_splits)
  have ids: "sorted (map uminus (map s_id ss))" unfolding ss_def by (simp add: comp_def)
  have dist: "distinct (map s_id ss)" unfolding ss_def using ok
    by (auto simp: db_ok_def distinct_map intro: inj_on_subset)
  have sset: "set ss = {s \<in> set (settlements d). matches_date date s}" by (simp add: ss_def)
  have "sorted_wrt (\<lambda>x y. s_id x > s_id y) ss"
    using ids dist by (induction ss) (auto simp: image_iff order.strict_iff_order)
  then have "sorted_wrt (\<lambda>x y. s_id x > s_id y) (take ?n ss)" by (rule sorted_wrt_take)
  then have "sorted_wrt (\<lambda>x y. s_id (fst x) > s_id (fst y)) rows" by (simp add: rows sorted_wrt_map)
  moreover have "s_id s < s_id t"
    if s: "s \<in> set (settlements d)" "matches_date date s" "s \<notin> fst ` set rows" and t: "(t, q) \<in> set rows" for s t q
  proof -
    from s(3) have "s \<notin> set (take ?n ss)" by (auto simp: rows image_iff)
    moreover have "s \<in> set ss" using s sset by simp
    ultimately have sd: "s \<in> set (drop ?n ss)" using append_take_drop_id [of ?n ss] by (metis Un_iff set_append)
    from t have tt: "t \<in> set (take ?n ss)" by (auto simp: rows)
    have "s_id s \<le> s_id t"
      by (rule sorted_desc_take [OF ids, of _ ?n]) (use sd tt in \<open>auto simp: take_map drop_map\<close>)
    moreover have "s_id s \<noteq> s_id t"
    proof
      assume "s_id s = s_id t"
      then have "s = t" using distinct_key_eq [OF dist] sd tt by (meson in_set_dropD in_set_takeD)
      with t s(3) show False by force
    qed
    ultimately show ?thesis by simp
  qed
  moreover have "length rows = min ?n (length (filter (matches_date date) (settlements d)))"
    by (simp add: rows ss_def min.commute)
  moreover have "\<forall>(s, q) \<in> set rows. s \<in> set (settlements d) \<and> matches_date date s \<and> q = payout_of d s"
    using sset by (auto simp: rows dest: in_set_takeD)
  ultimately show ?thesis by blast
qed

subsection \<open>One settlement\<close>

lemma get_settlement_result:
  assumes "db_ok d"
  shows "get_settlement sid d =
    (case settlement_row d sid of
       None \<Rightarrow> Inl (HTTPException 404 ''settlement not found'')
     | Some s \<Rightarrow>
         Inr (JObj (settlement_cells s @
           [(''payout_id'', case payout_of d s of None \<Rightarrow> JNull | Some q \<Rightarrow> JInt (p_id q)),
            (''payout_state'', nullable (map_option p_state (payout_of d s))),
            (''bank_ref'', nullable (Option.bind (payout_of d s) p_bank_ref))])))"
proof -
  have "find (\<lambda>(s, p). s_id s = sid) (map (\<lambda>s. (s, payout_of d s)) xs) =
      map_option (\<lambda>s. (s, payout_of d s)) (find (\<lambda>s. s_id s = sid) xs)" for xs
    by (induction xs) simp_all
  then have "first_row (filter (\<lambda>(s, p). s_id s = sid) (left_join d)) =
      map_option (\<lambda>s. (s, payout_of d s)) (settlement_row d sid)"
    by (simp add: first_row_filter left_join_rows [OF assms] settlement_row_def)
  then show ?thesis by (simp add: get_settlement_def split: option.splits)
qed

lemma payout_of_paid:
  assumes "db_ok d"
  shows "map_option p_state (payout_of d s) = Some st \<longleftrightarrow>
    (\<exists>p \<in> set (payouts d). p_settlement p = s_id s \<and> p_state p = st)"
proof
  assume "map_option p_state (payout_of d s) = Some st"
  then show "\<exists>p \<in> set (payouts d). p_settlement p = s_id s \<and> p_state p = st"
    by (auto simp: payout_of_def dest!: find_some_mem)
next
  assume "\<exists>p \<in> set (payouts d). p_settlement p = s_id s \<and> p_state p = st"
  then obtain p where p: "p \<in> set (payouts d)" "p_settlement p = s_id s" "p_state p = st" by blast
  with find_unique_key [of p_settlement "payouts d" p] assms
  show "map_option p_state (payout_of d s) = Some st" by (simp add: payout_of_def db_ok_def)
qed

subsection \<open>The daily report\<close>

definition on_day :: "int \<Rightarrow> string \<Rightarrow> db \<Rightarrow> settlement set" where
  "on_day date cur d = {s \<in> set (settlements d). s_date s = date \<and> s_currency s = cur}"

lemma daily_report_lines:
  assumes ok: "db_ok d" and line: "l \<in> set (daily_report date d)"
  shows "r_settlements l = card (on_day date (r_currency l) d)
    \<and> r_total_minor l = (\<Sum>s \<in> on_day date (r_currency l) d. s_amount s)
    \<and> r_paid l = card {s \<in> on_day date (r_currency l) d. \<exists>p \<in> set (payouts d). p_settlement p = s_id s \<and> p_state p = ''paid''}"
proof -
  let ?row = "\<lambda>s. (s, payout_of d s)" and ?g = "filter (\<lambda>s. s_date s = date \<and> s_currency s = r_currency l) (settlements d)"
  have flt: "filter (\<lambda>(s, p). P s) (map ?row xs) = map ?row (filter P xs)" for P xs
    by (induction xs) simp_all
  have g: "filter (\<lambda>(s, p). s_currency s = r_currency l) (filter (\<lambda>(s, p). s_date s = date) (left_join d)) = map ?row ?g"
    by (simp add: left_join_rows [OF ok] flt conj_commute)
  from line have l: "r_settlements l = length (map ?row ?g)"
      "r_total_minor l = sum_list (map (\<lambda>(s, p). s_amount s) (map ?row ?g))"
      "r_paid l = length (filter (\<lambda>(s, p). map_option p_state p = Some ''paid'') (map ?row ?g))"
    unfolding daily_report_def Let_def by (auto simp: g [symmetric])
  have dist: "distinct ?g" using ok by (simp add: db_ok_def distinct_map)
  have set_g: "set ?g = on_day date (r_currency l) d" by (auto simp: on_day_def)
  have "r_settlements l = card (set ?g)" using l(1) distinct_card [OF dist] by simp
  moreover have "r_total_minor l = (\<Sum>s \<in> set ?g. s_amount s)"
    using l(2) sum_list_distinct_conv_sum_set [OF dist, of s_amount] by (simp add: comp_def)
  moreover have pf: "filter (\<lambda>(s, p). map_option p_state p = Some ''paid'') (map ?row xs) =
      map ?row (filter (\<lambda>s. map_option p_state (payout_of d s) = Some ''paid'') xs)" for xs
    by (induction xs) simp_all
  have "r_paid l = length (filter (\<lambda>s. map_option p_state (payout_of d s) = Some ''paid'') ?g)"
    by (simp only: l(3) pf [of ?g] length_map)
  then have "r_paid l = card {s \<in> set ?g. map_option p_state (payout_of d s) = Some ''paid''}"
    using dist by (simp only: set_filter [symmetric] distinct_card distinct_filter)
  ultimately show ?thesis unfolding set_g payout_of_paid [OF ok] by blast
qed

lemma daily_report_currencies:
  assumes ok: "db_ok d"
  shows "distinct (map r_currency (daily_report date d))"
    and "set (map r_currency (daily_report date d)) = s_currency ` {s \<in> set (settlements d). s_date s = date}"
proof -
  have cur: "map r_currency (daily_report date d) =
      first_occurrences (map (\<lambda>(s, p). s_currency s) (filter (\<lambda>(s, p). s_date s = date) (left_join d)))"
    by (simp add: daily_report_def comp_def Let_def)
  then show "distinct (map r_currency (daily_report date d))" by simp
  show "set (map r_currency (daily_report date d)) = s_currency ` {s \<in> set (settlements d). s_date s = date}"
    unfolding cur set_first_occurrences left_join_rows [OF ok] by force
qed

subsection \<open>The middleware and the handlers\<close>

lemma serve_result:
  assumes e: "endpoint (Some (request_id_of req uuid)) w = (res, w1)"
    and s: "serve endpoint req uuid version elapsed ctx w = (out, ctx', w')"
  shows "ctx' = ctx \<and> w_db w' = w_db w1 \<and> w_redis w' = w_redis w1 \<and> w_bank w' = w_bank w1
    \<and> (\<forall>resp. out = Inr resp \<longrightarrow> map_of (rp_headers resp) ''X-Request-ID'' = Some (request_id_of req uuid))
    \<and> (\<forall>resp. res = Inr resp \<longrightarrow> (\<exists>hs. out = Inr (resp\<lparr>rp_headers := hs\<rparr>)))"
  using s e
  by (auto simp: serve_def observe_request_def with_handlers_def update_conv' Let_def
      split: sum.splits prod.splits)

lemma serve_database_error:
  assumes "endpoint (Some (request_id_of req uuid)) w = (Inl (if pool then PoolTimeout m else OperationalError m), w1)"
    and "serve endpoint req uuid version elapsed ctx w = (out, ctx', w')"
  shows "\<exists>resp. out = Inr resp \<and> rp_status resp = 503 \<and> map_of (rp_headers resp) ''Retry-After'' = Some ''2''
    \<and> counters (w_metrics w') DB_ERRORS (db_error_kind (if pool then PoolTimeout m else OperationalError m)) =
        Suc (counters (w_metrics w1) DB_ERRORS (db_error_kind (if pool then PoolTimeout m else OperationalError m)))"
  using assms
  by (cases pool) (auto simp: serve_def observe_request_def with_handlers_def handle_exception_def db_unavailable_def
      update_conv' Let_def)

section \<open>Properties of the HTTP service\<close>

text \<open>Tables with two settlements of one day, one of them executed and paid.\<close>

definition api_db :: db where
  "api_db = \<lparr>merchants = [7, 8],
     settlements = [\<lparr>s_id = 1, s_merchant = 7, s_date = 3, s_amount = 250, s_currency = ''EUR'', s_status = ''executing''\<rparr>,
                    \<lparr>s_id = 2, s_merchant = 8, s_date = 3, s_amount = 100, s_currency = ''EUR'', s_status = ''pending''\<rparr>],
     payouts = [\<lparr>p_id = 5, p_settlement = 1, p_merchant = 7, p_amount = 250, p_currency = ''EUR'', p_state = ''paid'',
                 p_key = Some ''K1'', p_bank_ref = Some ''BNK-1'', p_created_at = 10\<rparr>]\<rparr>"

lemma api_db_ok: "db_ok api_db"
  by (simp add: api_db_def db_ok_def unique_keys_def payout_ok_def from_settlement_def)

definition api_world :: "(mem, bank) world" where
  "api_world = \<lparr>w_db = api_db, w_redis = \<lparr>m_lists = [], m_zsets = [], m_leases = []\<rparr>,
     w_bank = \<lparr>ledger = [], by_key = []\<rparr>, w_metrics = no_metrics\<rparr>"

text \<open>C21. A settlement is executed at most once: after an execution request that was answered with 202
  exactly one job was pushed, and any further execution request for it, with whatever failures, is
  refused without touching Redis or the tables; if its transaction is answered, with a 409.\<close>

theorem executed_once:
  assumes "execute_settlement R rep_db rep_push sid nid created rid now w = (Inr v, w')"
  shows "(\<exists>p. w_redis w' = lpush R JOBS (json_dumps (JObj (new_job rid now p))) (w_redis w))
    \<and> (case execute_settlement R rep_db' rep_push' sid nid' created' rid' now' w' of
         (out, w'') \<Rightarrow> w'' = w' \<and> (\<exists>e. out = Inl e)
           \<and> (rep_db' = Done \<longrightarrow> out = Inl (HTTPException 409 ''settlement is not pending'')))"
proof -
  from execute_settlement_cases [OF assms] obtain p d r where p: "execute_tx sid nid created (w_db w) = (Inr p, d)"
      "w' = w\<lparr>w_db := d, w_redis := r\<rparr>" "r = lpush R JOBS (json_dumps (JObj (new_job rid now p))) (w_redis w)" by auto
  have c: "execute_tx sid nid' created' (w_db w') = (Inl (HTTPException 409 ''settlement is not pending''), w_db w')"
    by (rule execute_tx_conflict) (use execute_tx_closes [OF p(1)] p(2) in simp)
  have "\<exists>e. transaction rep_db' (execute_tx sid nid' created') (w_db w') = (Inl e, w_db w')
      \<and> (rep_db' = Done \<longrightarrow> e = HTTPException 409 ''settlement is not pending'')"
    by (cases rep_db') (simp_all add: c)
  then show ?thesis using p by (auto simp: execute_settlement_def)
qed

theorem executed_once_witness:
  "\<exists>v w. execute_settlement mem_redis Done Done 2 6 20 None 21 api_world = (Inr v, w)
     \<and> fst (execute_settlement mem_redis Done Done 2 7 22 None 23 w) = Inl (HTTPException 409 ''settlement is not pending'')"
proof -
  obtain v w where e: "execute_settlement mem_redis Done Done 2 6 20 None 21 api_world = (Inr v, w)"
    by (simp add: execute_settlement_def api_world_def api_db_def execute_tx_def sql_update_def insert_payout_def
        queued_payout_def settlement_row_def)
  from executed_once [OF e, of Done Done 7 22 None 23] show ?thesis using e by (auto split: prod.splits)
qed

text \<open>C22. The list of settlements is the newest page: at most \<open>min(limit, 500)\<close> of the settlements of
  the day asked for, newest first, each once with its payout, and every one left out is older
  than every one shown.\<close>

theorem list_is_newest_page:
  assumes "db_ok d" and "list_settlements date limit d = Inr rows"
  shows "length rows = min (nat (min limit 500)) (length (filter (matches_date date) (settlements d)))
    \<and> sorted_wrt (\<lambda>x y. s_id (fst x) > s_id (fst y)) rows
    \<and> (\<forall>(s, q) \<in> set rows. s \<in> set (settlements d) \<and> matches_date date s \<and> q = payout_of d s)
    \<and> (\<forall>s \<in> set (settlements d). matches_date date s \<longrightarrow> s \<notin> fst ` set rows \<longrightarrow> (\<forall>(t, q) \<in> set rows. s_id s < s_id t))"
  by (rule list_settlements_result [OF assms])

theorem list_is_newest_page_witness:
  "\<exists>rows. list_settlements None 1 api_db = Inr rows \<and> length rows = 1"
proof -
  obtain rows where r: "list_settlements None 1 api_db = Inr rows"
    by (simp add: list_settlements_def Let_def)
  from list_is_newest_page [OF api_db_ok r] r show ?thesis
    by (simp add: api_db_def matches_date_def)
qed

text \<open>C23. The daily report adds every settlement of the day exactly once: one line per currency, with
  the number of its settlements, the sum of their amounts, and the number whose payout is paid.\<close>

theorem report_adds_up:
  assumes "db_ok d"
  shows "distinct (map r_currency (daily_report date d))
    \<and> set (map r_currency (daily_report date d)) = s_currency ` {s \<in> set (settlements d). s_date s = date}
    \<and> (\<forall>l \<in> set (daily_report date d).
         r_settlements l = card (on_day date (r_currency l) d)
       \<and> r_total_minor l = (\<Sum>s \<in> on_day date (r_currency l) d. s_amount s)
       \<and> r_paid l = card {s \<in> on_day date (r_currency l) d.
           \<exists>p \<in> set (payouts d). p_settlement p = s_id s \<and> p_state p = ''paid''})"
  using daily_report_currencies [OF assms] daily_report_lines [OF assms] by blast

theorem report_adds_up_witness: "s_currency ` {s \<in> set (settlements api_db). s_date s = 3} = set (map r_currency (daily_report 3 api_db))"
  using report_adds_up [OF api_db_ok, of 3] by simp

text \<open>C24. Every request that reaches an endpoint keeps the service's promises whatever the endpoint does:
  the context variable is restored, a response echoes the request id, a pool timeout or an
  operational error of the database becomes a 503 with \<open>Retry-After\<close> that is counted by kind, an
  \<open>HTTPException\<close> its own status, and an observed request is counted once under its final status.\<close>

theorem requests_are_answered:
  assumes "endpoint (Some (request_id_of req uuid)) w = (res, w1)"
    and "serve endpoint req uuid version elapsed ctx w = (out, ctx', w')"
  shows "ctx' = ctx \<and> w_db w' = w_db w1 \<and> w_redis w' = w_redis w1 \<and> w_bank w' = w_bank w1
    \<and> (\<forall>resp. out = Inr resp \<longrightarrow> map_of (rp_headers resp) ''X-Request-ID'' = Some (request_id_of req uuid))
    \<and> (case res of
         Inr resp \<Rightarrow> (\<exists>hs. out = Inr (resp\<lparr>rp_headers := hs\<rparr>))
       | Inl (HTTPException st detail) \<Rightarrow> (\<exists>resp. out = Inr resp \<and> rp_status resp = st)
       | Inl e \<Rightarrow>
           if (\<exists>m. e = PoolTimeout m \<or> e = OperationalError m)
           then (\<exists>resp. out = Inr resp \<and> rp_status resp = 503 \<and> map_of (rp_headers resp) ''Retry-After'' = Some ''2'')
             \<and> counters (w_metrics w') DB_ERRORS (db_error_kind e) = Suc (counters (w_metrics w1) DB_ERRORS (db_error_kind e))
           else out = Inl e)
    \<and> (let st = (case out of Inl _ \<Rightarrow> 500 | Inr resp \<Rightarrow> rp_status resp);
           l = labels [q_method req, route_of req, str_int st, version]
       in counters (w_metrics w') HTTP_REQUESTS l =
            counters (w_metrics w1) HTTP_REQUESTS l + (if unobserved (route_of req) then 0 else 1))"
proof -
  have common: "ctx' = ctx \<and> w_db w' = w_db w1 \<and> w_redis w' = w_redis w1 \<and> w_bank w' = w_bank w1
    \<and> (\<forall>resp. out = Inr resp \<longrightarrow> map_of (rp_headers resp) ''X-Request-ID'' = Some (request_id_of req uuid))"
    using serve_result [of endpoint, OF assms] by blast
  show ?thesis
  proof (cases res)
    case (Inr resp)
    with assms common show ?thesis
      by (auto simp: serve_def observe_request_def with_handlers_def Let_def)
  next
    case (Inl e)
    obtain r m where m: "handle_exception e (w_metrics w1) = (r, m)" by fastforce
    have "out = (case r of Inl e' \<Rightarrow> Inl e' | Inr resp \<Rightarrow>
          Inr (resp\<lparr>rp_headers := AList.update ''X-Request-ID'' (request_id_of req uuid) (rp_headers resp)\<rparr>))"
      and "counters (w_metrics w') f l = counters m f l +
          (if unobserved (route_of req) then 0
           else if f = HTTP_REQUESTS \<and> l = labels [q_method req, route_of req, str_int (case out of Inl _ \<Rightarrow> 500 | Inr resp \<Rightarrow> rp_status resp), version]
           then 1 else 0)" for f l
      using assms m Inl
      by (auto simp: serve_def observe_request_def with_handlers_def Let_def split: sum.splits)
    note served = this
    show ?thesis
      unfolding Inl sum.case using m common
      by (cases e; clarsimp simp: served handle_exception_def db_unavailable_def respond_def update_conv' Let_def)
  qed
qed

theorem requests_are_answered_witness:
  "\<exists>resp. fst (serve (\<lambda>rid w. (Inl (PoolTimeout ''QueuePool limit''), w)) \<lparr>q_method = ''GET'', q_route = None, q_request_id = None\<rparr>
     ''u1'' ''1.9'' 1 None api_world) = Inr resp \<and> rp_status resp = 503"
proof -
  let ?e = "\<lambda>rid w. (Inl (PoolTimeout ''QueuePool limit''), w) :: api_response res \<times> (mem, bank) world"
  let ?req = "\<lparr>q_method = ''GET'', q_route = None, q_request_id = None\<rparr>"
  obtain out ctx' w' where s: "serve ?e ?req ''u1'' ''1.9'' 1 None api_world = (out, ctx', w')"
    by (metis prod_cases3)
  have "?e (Some (request_id_of ?req ''u1'')) api_world = (Inl (PoolTimeout ''QueuePool limit''), api_world)" by simp
  from requests_are_answered [of ?e, OF this s] s show ?thesis by auto
qed

end
