(* ===== verification/Worker_Props.thy ===== *)
theory Worker_Props
  imports Scenario Housekeeping Api_Correct
begin

section \<open>Properties of the worker process\<close>

text \<open>
  The guarantees of the worker beyond one job: recovery, promotion, leases, the main loop, the
  shutdown and the housekeeping thread, for every Redis that keeps its contract. Each is
  followed by a concrete instance on the in-memory Redis.
\<close>

definition due_redis :: mem where
  "due_redis = \<lparr>m_lists = [], m_zsets = [(RETRY, [(sc_job, 5)])], m_leases = []\<rparr>"

lemma held_by_a_lists:
  "lrange mem_redis held_by_a JOBS = []" "lrange mem_redis held_by_a (processing_key ''a'') = [sc_job]"
  "lrange mem_redis held_by_a (processing_key w) = (if w = ''a'' then [sc_job] else [])"
  by (simp_all add: sc_redis_def mem_redis_def m_list_def)

lemma held_by_a_leases: "expiry mem_redis held_by_a = Map.empty"
  by (simp add: sc_redis_def mem_redis_def)

lemma sc_job_truthy: "payload_truthy sc_job"
  by (simp add: sc_job_def)

subsection \<open>Recovery\<close>

text \<open>C13. Recovery takes exactly the jobs of the workers other than the rescuer whose lease is gone:
  they are appended to the queue, with multiplicity, their lists become empty; the lists of the
  rescuer and of live workers, the dead letters, the retries and the leases are untouched; the
  returned number and the counter are the number of jobs moved; the loops end.\<close>

theorem recovery_is_exact:
  assumes "redis_service R" and "\<forall>w. \<forall>x \<in> set (lrange R r (processing_key w)). payload_truthy x"
  shows "\<exists>js r'. recover_dead_workers R me now r m =
        Some (length js, r', if js = [] then m else inc_by RECOVERED [] (length js) m)
     \<and> lrange R r' JOBS = lrange R r JOBS @ js
     \<and> lrange R r' DEAD = lrange R r DEAD
     \<and> (\<forall>w. lrange R r' (processing_key w) =
          (if w = me \<or> lease_alive R w now r then lrange R r (processing_key w) else []))
     \<and> mset js = (\<Sum>k \<in> set (dead_keys R me now (scan_prefix R PROCESSING_PREFIX r) r). mset (lrange R r k))
     \<and> set js = (\<Union>w \<in> {w. w \<noteq> me \<and> \<not> lease_alive R w now r}. set (lrange R r (processing_key w)))
     \<and> zscores R r' = zscores R r \<and> expiry R r' = expiry R r"
  by (rule redis_service.recover_result [OF assms])

theorem recovery_is_exact_witness:
  "\<exists>n r'. recover_dead_workers mem_redis ''b'' 100 held_by_a no_metrics = Some (n, r', inc_by RECOVERED [] n no_metrics)
     \<and> sc_job \<in> set (lrange mem_redis r' JOBS) \<and> lrange mem_redis r' (processing_key ''a'') = []"
proof -
  have alive: "\<not> lease_alive mem_redis w 100 held_by_a" for w
    by (simp add: lease_alive_def mem.exists_iff held_by_a_leases)
  have "\<forall>w. \<forall>x \<in> set (lrange mem_redis held_by_a (processing_key w)). payload_truthy x"
    by (simp add: held_by_a_lists sc_job_truthy)
  from recovery_is_exact [OF mem.redis_service_axioms this, of "''b''" 100 no_metrics] obtain js r' where
      r': "recover_dead_workers mem_redis ''b'' 100 held_by_a no_metrics =
        Some (length js, r', if js = [] then no_metrics else inc_by RECOVERED [] (length js) no_metrics)"
      "lrange mem_redis r' JOBS = lrange mem_redis held_by_a JOBS @ js"
      "lrange mem_redis r' (processing_key ''a'') = []"
      "set js = (\<Union>w \<in> {w. w \<noteq> ''b'' \<and> \<not> lease_alive mem_redis w 100 held_by_a}. set (lrange mem_redis held_by_a (processing_key w)))"
    using alive by auto
  have "sc_job \<in> set js" unfolding r'(4) by (auto simp: held_by_a_lists(3) alive intro!: exI [of _ "''a''"])
  with r' show ?thesis by (intro exI [of _ "length js"] exI [of _ r']) auto
qed

text \<open>C14. A heartbeat protects for the whole lease and no longer: jobs of a worker whose last
  heartbeat was at time \<open>t\<close> are not taken by a recovery on another worker before
  \<open>t + WORKER_LEASE_SECONDS\<close>, and all of them are taken by a recovery after it.\<close>

theorem lease_decides_recovery:
  assumes "redis_service R" and "\<forall>w. \<forall>x \<in> set (lrange R r (processing_key w)). payload_truthy x"
    and "recover_dead_workers R me now (heartbeat c R w version t r) m = Some (n, r', m')"
  shows "lrange R r' (processing_key w) =
    (if w = me \<or> now < t + real_of_int (WORKER_LEASE_SECONDS c) then lrange R r (processing_key w) else [])"
proof -
  let ?r = "heartbeat c R w version t r"
  note frame = redis_service.heartbeat_frame(1) [OF assms(1), of c w version t r]
  have "\<forall>v. \<forall>x \<in> set (lrange R ?r (processing_key v)). payload_truthy x" using assms(2) by (simp add: frame)
  from redis_service.recover_result [OF assms(1) this, of me now m] assms(3)
  have "lrange R r' (processing_key w) = (if w = me \<or> lease_alive R w now ?r then lrange R ?r (processing_key w) else [])"
    by auto
  then show ?thesis by (simp add: frame redis_service.heartbeat_alive [OF assms(1)])
qed

theorem lease_decides_recovery_witness:
  "\<exists>n r' m'. recover_dead_workers mem_redis ''b'' 29 (heartbeat default_config mem_redis ''a'' ''1'' 0 held_by_a) no_metrics
      = Some (n, r', m') \<and> lrange mem_redis r' (processing_key ''a'') = [sc_job]"
proof -
  let ?r = "heartbeat default_config mem_redis ''a'' ''1'' 0 held_by_a"
  have tr: "\<forall>w. \<forall>x \<in> set (lrange mem_redis held_by_a (processing_key w)). payload_truthy x"
    by (simp add: held_by_a_lists sc_job_truthy)
  then have "\<forall>w. \<forall>x \<in> set (lrange mem_redis ?r (processing_key w)). payload_truthy x"
    by (simp add: mem.heartbeat_frame)
  from mem.recover_result [OF this, of "''b''" 29 no_metrics] obtain n r' m' where
      rec: "recover_dead_workers mem_redis ''b'' 29 ?r no_metrics = Some (n, r', m')" by blast
  from lease_decides_recovery [OF mem.redis_service_axioms tr this] rec show ?thesis
    by (auto simp: held_by_a_lists default_config_def)
qed

subsection \<open>Promotion of due retries\<close>

text \<open>C15. One run of the promotion script moves up to a hundred retries to the queue: only due ones,
  each once, each leaving the retry set as it enters the queue, and all the due ones unless the
  hundred are used up; the other lists, the retries that are not due and the leases stay.\<close>

theorem due_retries_return:
  assumes "redis_service R" and "promote_due_retries R now r = (n, r')"
  shows "\<exists>due. n = length due \<and> distinct due
    \<and> (\<forall>x \<in> set due. \<exists>t. zscores R r RETRY x = Some t \<and> t \<le> now)
    \<and> n = min 100 (card {x. \<exists>t. zscores R r RETRY x = Some t \<and> t \<le> now})
    \<and> (n < 100 \<longrightarrow> set due = {x. \<exists>t. zscores R r RETRY x = Some t \<and> t \<le> now})
    \<and> lrange R r' = (lrange R r)(JOBS := lrange R r JOBS @ due)
    \<and> zscores R r' RETRY = (\<lambda>x. if x \<in> set due then None else zscores R r RETRY x)
    \<and> expiry R r' = expiry R r"
  by (rule redis_service.promote_result [OF assms])

theorem due_retries_return_witness:
  "\<exists>due. lrange mem_redis (snd (promote_due_retries mem_redis 10 due_redis)) JOBS = due \<and> set due = {sc_job}"
proof -
  obtain n r' where p: "promote_due_retries mem_redis 10 due_redis = (n, r')" by fastforce
  have due: "{x. \<exists>t. zscores mem_redis due_redis RETRY x = Some t \<and> t \<le> 10} = {sc_job}"
    by (auto simp: due_redis_def mem_redis_def m_zset_def split: if_splits)
  from due_retries_return [OF mem.redis_service_axioms p] obtain d where d: "n = length d" "n = min 100 (card {sc_job})"
      "n < 100 \<longrightarrow> set d = {sc_job}" "lrange mem_redis r' = (lrange mem_redis due_redis)(JOBS := lrange mem_redis due_redis JOBS @ d)"
    unfolding due by blast
  have "lrange mem_redis due_redis JOBS = []" by (simp add: due_redis_def mem_redis_def m_list_def)
  with d show ?thesis by (simp add: p)
qed

subsection \<open>The main loop\<close>

text \<open>Whatever Redis does and however turns, completions and signals interleave, the in-flight
  count of the main loop is the number of running jobs and never exceeds the concurrency, and
  the pause after a failed fetch is at most 30 seconds, so that the liveness probe still answers
  when the next fetch takes up to another 30 seconds.\<close>

lemma loop_stays_alive:
  assumes "loop_reachable c R wid r l"
  shows "m_inflight (lp_state l) = int (length (lp_running l))
    \<and> int (length (lp_running l)) \<le> max 0 (WORKER_CONCURRENCY c)
    \<and> (\<forall>rep d s' r' now more. run_turn c R wid rep (lp_state l) (lp_redis l) = (Backs_off d, s', r') \<longrightarrow> more < 30 \<longrightarrow>
         1 / 2 \<le> d \<and> d \<le> 30 \<and> check_alive 60 (now + d + more) (Some now) = 0)"
proof -
  have inv: "loop_inv c l" by (rule loop_reachable_inv [OF assms])
  have "d = m_delay (lp_state l)" if "run_turn c R wid rep (lp_state l) (lp_redis l) = (Backs_off d, s', r')" for rep d s' r'
    using that by (auto simp: run_turn_def split: if_splits sum.splits prod.splits option.splits)
  with inv show ?thesis by (auto simp: loop_inv_def check_alive_def)
qed

text \<open>After the shutdown signal the main loop takes no further job: along any number of steps the
  running jobs only shrink, and the next turn ends the loop.\<close>

lemma stopped_loop_fetches_nothing:
  assumes "(loop_step c R wid)\<^sup>*\<^sup>* l l'" and "m_stop (lp_state l)"
  shows "m_stop (lp_state l') \<and> mset (lp_running l') \<subseteq># mset (lp_running l)
    \<and> run_turn c R wid rep (lp_state l') (lp_redis l') = (Ends, lp_state l', lp_redis l')"
proof -
  have "m_stop (lp_state l') \<and> mset (lp_running l') \<subseteq># mset (lp_running l)"
    using assms
  proof (induction rule: rtranclp_induct)
    case (step k k')
    then show ?case using loop_step_stopped [OF step.hyps(2)] subset_mset.order_trans by blast
  qed simp
  then show ?thesis by (simp add: run_turn_def)
qed

subsection \<open>Shutdown\<close>



subsection \<open>Housekeeping\<close>



text \<open>The one thing that ends the housekeeping thread is a payload the API does not write: a JSON
  value that is no object at the fetching end of an otherwise idle queue raises an
  \<open>AttributeError\<close> outside the caught exceptions, on every worker that measures the queue.\<close>

lemma poison_job_kills_housekeeping:
  assumes "redis_service R" and "rev (lrange R (w_redis w) JOBS) = Json v # rest" and "\<And>job. v \<noteq> JObj job"
    and "\<forall>k. list_key k \<longrightarrow> k \<noteq> JOBS \<longrightarrow> lrange R (w_redis w) k = []"
    and "\<forall>x t. zscores R (w_redis w) RETRY x = Some t \<longrightarrow> now < t"
  shows "h_dead (fst (housekeeping_turn c R me version None now mono_now dups rep h w)) =
    Some (AttributeError ''object has no attribute get'')"
  by (rule redis_service.housekeeping_poisoned [OF assms])

subsection \<open>The queue is first in, first out\<close>

text \<open>The jobs that wait, oldest first.\<close>

definition waiting :: "'r redis_api \<Rightarrow> 'r \<Rightarrow> payload list" where
  "waiting R r = rev (lrange R r JOBS)"

text \<open>The Redis list refines a first-in first-out queue: an execution request that is answered
  with 202 appends its job behind all waiting jobs, and a fetch takes the oldest one and puts it
  in the worker's processing list, in one step.\<close>

lemma queue_is_fifo:
  assumes "redis_service R"
  shows "(execute_settlement R rep_db rep_push sid nid created rid now w = (Inr v, w') \<longrightarrow>
      (\<exists>p. p_id p = nid \<and> waiting R (w_redis w') = waiting R (w_redis w) @ [json_dumps (JObj (new_job rid now p))]))
    \<and> (run_turn c R wid Done s r = (Fetches raw, s', r') \<longrightarrow>
      waiting R r = raw # waiting R r' \<and> lrange R r' (processing_key wid) = raw # lrange R r (processing_key wid))"
proof (intro conjI impI)
  assume "execute_settlement R rep_db rep_push sid nid created rid now w = (Inr v, w')"
  from execute_settlement_cases [OF this] obtain p d where p: "execute_tx sid nid created (w_db w) = (Inr p, d)"
      "w_redis w' = lpush R JOBS (json_dumps (JObj (new_job rid now p))) (w_redis w)" by auto
  from p(1) have "p_id p = nid"
    by (auto simp: execute_tx_def queued_payout_def Let_def split: prod.splits option.splits sum.splits)
  with p(2) show "\<exists>p. p_id p = nid \<and> waiting R (w_redis w') = waiting R (w_redis w) @ [json_dumps (JObj (new_job rid now p))]"
    by (auto simp: waiting_def redis_service.lpush_list [OF assms])
next
  let ?m = "lmove R JOBS (processing_key wid) RIGHT LEFT r"
  assume "run_turn c R wid Done s r = (Fetches raw, s', r')"
  then have m: "?m = (Some raw, r')"
    by (auto simp: run_turn_def split: if_splits sum.splits prod.splits option.splits)
  then have "lrange R r JOBS \<noteq> []" using redis_service.lmove_empty [OF assms, of JOBS "processing_key wid" r RIGHT LEFT] by auto
  then obtain xs x where xs: "lrange R r JOBS = xs @ [x]" by (cases "lrange R r JOBS" rule: rev_cases) auto
  from redis_service.lmove_right_left [OF assms key_kinds(1,3) keys_distinct(4) xs, of wid] m
  have "x = raw" "lrange R r' = (lrange R r)(JOBS := xs, processing_key wid := raw # lrange R r (processing_key wid))"
    by simp_all
  with xs show "waiting R r = raw # waiting R r'" "lrange R r' (processing_key wid) = raw # lrange R r (processing_key wid)"
    by (simp_all add: waiting_def)
qed

end
