(* ===== verification/Protocol.thy ===== *)
theory Protocol
  imports System_Safety Scenario
begin

section \<open>The payout protocol as an abstract machine\<close>

text \<open>
  What the system promises about one payout, without queue, threads, retries, crashes or lost
  answers: it is owed, then started under a key no other payout has, then charged once at the
  bank with what is owed, then recorded, and never goes back. \<open>stage_of\<close> reads the stage off
  the database and the bank; the property shows that every step of the system is a step of this
  machine, for all payouts at once.
\<close>

type_synonym due = "string \<times> int \<times> int \<times> string"

datatype stage =
    Absent
  | Owed due
  | Started due string
  | Charged due string entry
  | Recorded due string entry

definition due_of_entry :: "entry \<Rightarrow> due" where
  "due_of_entry e = (e_reference e, e_merchant e, e_amount e, e_currency e)"

definition due_of_payout :: "payout \<Rightarrow> due" where
  "due_of_payout p = (payout_reference (JInt (p_id p)), p_merchant p, p_amount p, p_currency p)"

fun stage_key :: "stage \<Rightarrow> string option" where
  "stage_key (Started x k) = Some k"
| "stage_key (Charged x k e) = Some k"
| "stage_key (Recorded x k e) = Some k"
| "stage_key _ = None"

text \<open>One payout moves on; a new key is one that no payout has.\<close>

inductive advance_stage :: "(int \<Rightarrow> stage) \<Rightarrow> stage \<Rightarrow> stage \<Rightarrow> bool" for f :: "int \<Rightarrow> stage" where
  owing: "advance_stage f Absent (Owed x)"
| starting: "\<forall>j. stage_key (f j) \<noteq> Some k \<Longrightarrow> advance_stage f (Owed x) (Started x k)"
| charging: "due_of_entry e = x \<Longrightarrow> advance_stage f (Started x k) (Charged x k e)"
| recording: "advance_stage f (Charged x k e) (Recorded x k e)"

inductive_cases advance_stageE: "advance_stage f a b"

definition protocol_step :: "(int \<Rightarrow> stage) \<Rightarrow> (int \<Rightarrow> stage) \<Rightarrow> bool" where
  "protocol_step f g \<longleftrightarrow> g = f \<or> (\<exists>i a. advance_stage f (f i) a \<and> g = f(i := a))"

text \<open>The stage of a payout in the system.\<close>

definition row_stage :: "bank \<Rightarrow> payout \<Rightarrow> stage" where
  "row_stage b p =
     (case p_key p of
        None \<Rightarrow> Owed (due_of_payout p)
      | Some k \<Rightarrow>
          (case booked b k of
             None \<Rightarrow> Started (due_of_payout p) k
           | Some e \<Rightarrow> if p_state p = ''paid'' then Recorded (due_of_payout p) k e else Charged (due_of_payout p) k e))"

definition stage_of :: "db \<Rightarrow> bank \<Rightarrow> int \<Rightarrow> stage" where
  "stage_of d b i = (case payout_row d i of None \<Rightarrow> Absent | Some p \<Rightarrow> row_stage b p)"

lemma stage_key_row: "stage_key (row_stage b p) = p_key p"
  by (simp add: row_stage_def split: option.split)

lemma protocol_refl [simp]: "protocol_step f f"
  by (simp add: protocol_step_def)

lemma stage_of_cong: "(\<And>i. payout_row d' i = payout_row d i) \<Longrightarrow> stage_of d' b = stage_of d b"
  by (simp add: stage_of_def fun_eq_iff)

lemma protocol_row:
  assumes "\<And>j. j \<noteq> i \<Longrightarrow> payout_row d' j = payout_row d j" and "payout_row d' i = Some q"
    and "advance_stage (stage_of d b) (stage_of d b i) (row_stage b q)"
  shows "protocol_step (stage_of d b) (stage_of d' b)"
proof -
  have "stage_of d' b = (stage_of d b)(i := row_stage b q)"
    using assms(1,2) by (auto simp: stage_of_def fun_eq_iff)
  with assms(3) show ?thesis unfolding protocol_step_def by blast
qed

subsection \<open>The steps that change a payout or the bank\<close>

lemma update_payouts_snd:
  "snd (update_payouts P f d) = d \<or> snd (update_payouts P f d) = d\<lparr>payouts := map (\<lambda>r. if P r then f r else r) (payouts d)\<rparr>"
  by (simp add: update_payouts_def sql_update_def)

lemma claim_stage:
  assumes ok: "db_ok d" "bank_ok d b"
  shows "protocol_step (stage_of d b) (stage_of (snd (claim rep key pid d)) b)"
proof -
  let ?d = "snd (claim rep key pid d)"
  have ok': "db_ok ?d" by (rule claim_db_ok [OF ok(1)])
  have tx: "snd (claim_tx key pid d) = d \<or>
      (\<exists>v. snd (claim_tx key pid d) = d\<lparr>payouts := map (\<lambda>r. if Some (p_id r) = v \<and> claimable r then claim_row key r else r) (payouts d)\<rparr>)"
    using claim_tx_snd [of key pid d]
  proof (elim disjE exE)
    fix v assume "snd (claim_tx key pid d) = snd (update_payouts (\<lambda>p. Some (p_id p) = v \<and> claimable p) (claim_row key) d)"
    with update_payouts_snd [of "\<lambda>p. Some (p_id p) = v \<and> claimable p" "claim_row key" d] show ?thesis by (simp only:) blast
  qed simp
  have "?d = d \<or> (\<exists>v. ?d = d\<lparr>payouts := map (\<lambda>r. if Some (p_id r) = v \<and> claimable r then claim_row key r else r) (payouts d)\<rparr>)"
    using transaction_state [of rep "claim_tx key pid" d] tx unfolding claim_def by (elim disjE) (simp_all only: simp_thms)
  then show ?thesis
  proof (elim disjE exE)
    fix v assume d: "?d = d\<lparr>payouts := map (\<lambda>r. if Some (p_id r) = v \<and> claimable r then claim_row key r else r) (payouts d)\<rparr>"
    have rows: "payout_row ?d j = map_option (\<lambda>r. if Some (p_id r) = v \<and> claimable r then claim_row key r else r) (payout_row d j)" for j
      unfolding d by (rule payout_row_update) simp
    show ?thesis
    proof (cases "\<exists>i r. v = Some i \<and> payout_row d i = Some r \<and> claimable r \<and> p_key r = None")
      case True
      then obtain i r where r: "v = Some i" "payout_row d i = Some r" "claimable r" "p_key r = None" by blast
      have id: "p_id r = i" using payout_row_some [OF r(2)] by simp
      have new: "payout_row ?d i = Some (claim_row key r)" using rows [of i] r id by simp
      have other: "payout_row ?d j = payout_row d j" if "j \<noteq> i" for j
        using rows [of j] r(1) that by (cases "payout_row d j") (auto dest: payout_row_some)
      have fresh: "p_key q \<noteq> Some key" if q: "payout_row d j = Some q" for j q
      proof
        assume k: "p_key q = Some key"
        then have "j \<noteq> i" using q r(2,4) by auto
        with other q have "payout_row ?d j = Some q" by simp
        with new have "q \<in> set (payouts ?d)" "claim_row key r \<in> set (payouts ?d)" by (auto dest: payout_row_some)
        from db_ok_same_key [OF ok' this k] have "q = claim_row key r" using r(4) by simp
        then have "p_id q = i" using id by simp
        with payout_row_some [OF q] \<open>j \<noteq> i\<close> show False by simp
      qed
      have unbooked: "booked b key = None"
      proof (cases "booked b key")
        case (Some e)
        with ok(2) obtain q where "payout_row d (p_id q) = Some q" "p_key q = Some key" unfolding bank_ok_def by blast
        with fresh show ?thesis by blast
      qed
      have unused: "\<forall>j. stage_key (stage_of d b j) \<noteq> Some key"
        using fresh by (auto simp: stage_of_def stage_key_row split: option.split)
      have "stage_of d b i = Owed (due_of_payout r)" using r by (simp add: stage_of_def row_stage_def)
      moreover have "row_stage b (claim_row key r) = Started (due_of_payout r) key"
        using r(4) unbooked by (simp add: row_stage_def due_of_payout_def)
      ultimately show ?thesis using protocol_row [of i ?d d, OF other new, of b] starting [OF unused] by simp
    next
      case False
      have "payout_row ?d j = payout_row d j" for j
      proof (cases "payout_row d j")
        case (Some r)
        have "claim_row key r = r" if "Some (p_id r) = v" "claimable r"
        proof -
          have "p_key r \<noteq> None" using False Some that payout_row_some [OF Some] by auto
          moreover have "payout_ok r" using payout_ok_row [OF ok(1) Some] .
          ultimately show ?thesis using that(2) by (auto simp: payout_ok_def claim_row_def)
        qed
        with Some rows [of j] show ?thesis by simp
      qed (use rows in simp)
      then have "stage_of ?d b = stage_of d b" by (rule stage_of_cong)
      then show ?thesis by (simp only: protocol_refl)
    qed
  qed simp
qed

lemma pay_stage:
  assumes ok: "db_ok d" "bank_ok d b" "paid_ok d b" and row: "payout_row d (p_id p) = Some p" "p_key p = Some k" "k \<noteq> []"
  shows "protocol_step (stage_of d b) (stage_of d (snd (bank_charge (body_for p) k n b)))"
proof (cases "booked b k")
  case (Some e)
  with mock.charge_replay [OF row(3) Some] show ?thesis by simp
next
  case None
  let ?b = "snd (bank_charge (body_for p) k n b)" and ?e = "fst (bank_charge (body_for p) k n b)"
  note new = mock.charge_new [OF row(3) None, of "body_for p" n]
  have e: "?e = new_entry (body_for p) (fst n) (snd n)"
    using None row(3) by (simp add: bank_charge_def create_payout_def Let_def)
  have due: "due_of_entry ?e = due_of_payout p"
    using entry_for_new [of p "fst n" "snd n"] unfolding e by (simp add: entry_for_def due_of_entry_def due_of_payout_def)
  have mem: "p \<in> set (payouts d)" using payout_row_some [OF row(1)] by simp
  have "p_state p \<noteq> ''paid''" using ok(3) mem row(2) None unfolding paid_ok_def by fastforce
  then have here: "stage_of d b (p_id p) = Started (due_of_payout p) k" "stage_of d ?b (p_id p) = Charged (due_of_payout p) k ?e"
    unfolding stage_of_def row(1) row_stage_def using row(2) None conjunct2 [OF new] by simp_all
  have "stage_of d ?b j = stage_of d b j" if "j \<noteq> p_id p" for j
  proof (cases "payout_row d j")
    case (Some q)
    have "p_key q \<noteq> Some k"
    proof
      assume "p_key q = Some k"
      with db_ok_same_key [OF ok(1) _ mem _ row(2)] payout_row_some [OF Some] have "q = p" by blast
      with payout_row_some [OF Some] that show False by simp
    qed
    then have "booked ?b k' = booked b k'" if "p_key q = Some k'" for k' using that conjunct2 [OF new] by simp
    then have "row_stage ?b q = row_stage b q" by (cases "p_key q") (simp_all add: row_stage_def)
    with Some show ?thesis by (simp add: stage_of_def)
  qed (simp add: stage_of_def)
  then have "stage_of d ?b = (stage_of d b)(p_id p := Charged (due_of_payout p) k ?e)" using here(2) by auto
  moreover have "advance_stage (stage_of d b) (stage_of d b (p_id p)) (Charged (due_of_payout p) k ?e)"
    unfolding here(1) by (rule charging [OF due])
  ultimately show ?thesis unfolding protocol_step_def by blast
qed

lemma record_stage:
  assumes ok: "db_ok d" and row: "payout_row d i = Some p" "p_key p = Some k" "booked b k = Some e"
  shows "protocol_step (stage_of d b) (stage_of (snd (mark_paid rep (JInt i) (JStr ref) d)) b)"
proof -
  let ?d = "snd (mark_paid rep (JInt i) (JStr ref) d)" and ?p = "p\<lparr>p_state := ''paid'', p_bank_ref := Some ref\<rparr>"
  have id: "p_id p = i" using payout_row_some [OF row(1)] by simp
  have "?d = d \<or> ?d = snd (mark_paid_tx (JInt i) (JStr ref) d)"
    unfolding mark_paid_def by (rule transaction_state)
  moreover have "protocol_step (stage_of d b) (stage_of (snd (mark_paid_tx (JInt i) (JStr ref) d)) b)"
  proof (cases "p_state p = ''sending''")
    case True
    have tx: "snd (mark_paid_tx (JInt i) (JStr ref) d) =
        d\<lparr>payouts := map (\<lambda>r. if p_id r = i then r\<lparr>p_state := ''paid'', p_bank_ref := Some ref\<rparr> else r) (payouts d)\<rparr>"
      by (simp add: mark_paid_tx_sending [OF ok row(1) True])
    have rows: "payout_row (snd (mark_paid_tx (JInt i) (JStr ref) d)) j =
        map_option (\<lambda>r. if p_id r = i then r\<lparr>p_state := ''paid'', p_bank_ref := Some ref\<rparr> else r) (payout_row d j)" for j
      unfolding tx by (rule payout_row_update) simp
    show ?thesis
    proof (rule protocol_row)
      show "payout_row (snd (mark_paid_tx (JInt i) (JStr ref) d)) i = Some ?p" using rows row(1) id by simp
      show "payout_row (snd (mark_paid_tx (JInt i) (JStr ref) d)) j = payout_row d j" if "j \<noteq> i" for j
        using rows [of j] that by (cases "payout_row d j") (auto dest: payout_row_some)
      have "stage_of d b i = Charged (due_of_payout p) k e" using row True by (simp add: stage_of_def row_stage_def)
      moreover have "row_stage b ?p = Recorded (due_of_payout p) k e" using row(2,3) by (simp add: row_stage_def due_of_payout_def)
      ultimately show "advance_stage (stage_of d b) (stage_of d b i) (row_stage b ?p)" by (simp add: recording)
    qed
  next
    case False
    then show ?thesis using mark_paid_tx_other [OF ok, of i ref] row(1) by simp
  qed
  ultimately show ?thesis by auto
qed

lemma owe_stage:
  assumes ok: "db_ok d" "bank_ok d b" and ex: "execute_tx sid nid created d = (Inr p, d')"
  shows "protocol_step (stage_of d b) (stage_of d' b)"
proof -
  from execute_tx_result [OF ok(1) ex] obtain s where s: "p = queued_payout nid created s"
      "payouts d' = payouts d @ [p]" "payout_row d nid = None" by blast
  have rows: "payout_row d' j = (case payout_row d j of Some q \<Rightarrow> Some q | None \<Rightarrow> if p_id p = j then Some p else None)" for j
    using payout_row_append [of d p j] s(2) by (simp add: payout_row_def)
  have id: "p_id p = nid" "p_key p = None" by (simp_all add: s(1) queued_payout_def)
  show ?thesis
  proof (rule protocol_row)
    show "payout_row d' nid = Some p" using rows [of nid] s(3) id by simp
    show "payout_row d' j = payout_row d j" if "j \<noteq> nid" for j
      using rows [of j] that id by (simp split: option.split)
    show "advance_stage (stage_of d b) (stage_of d b nid) (row_stage b p)"
      using s(3) id by (simp add: stage_of_def row_stage_def owing)
  qed
qed

lemma handle_claim_db:
  assumes "job_for p job" shows "snd (handle_claim ev job d) = snd (claim (ev_claim ev) (ev_uuid ev) (JInt (p_id p)) d)"
proof -
  have "dict_item job ''payout_id'' = Inr (JInt (p_id p))" using assms by (simp add: dict_item_def job_for_def)
  then show ?thesis by (simp add: handle_claim_def split: prod.splits sum.splits option.splits)
qed

lemma retry_keeps_money: "w_db (snd (retry_or_dead c R wid ev raw job e b w)) = w_db w
    \<and> w_bank (snd (retry_or_dead c R wid ev raw job e b w)) = w_bank w"
  by (simp add: retry_or_dead_def Let_def split: sum.splits prod.splits)

lemma on_error_keeps_money: "w_db (snd (on_error c R wid ev raw job e w)) = w_db w
    \<and> w_bank (snd (on_error c R wid ev raw job e w)) = w_bank w"
  by (cases e) (simp_all add: on_error_def retry_keeps_money)

lemma handle_record_money:
  "w_bank (snd (handle_record ev job (JInt i) (entry_json e rep) w)) = w_bank w
   \<and> w_db (snd (handle_record ev job (JInt i) (entry_json e rep) w)) =
      snd (mark_paid (ev_mark ev) (JInt i) (JStr (e_bank_ref e)) (w_db w))"
  by (simp add: handle_record_def entry_json_def dict_item_def Let_def observe_latency_def
      split: prod.splits sum.splits option.splits)

subsection \<open>Every step\<close>

lemma thread_step_stage:
  assumes w: "world_ok R w" and good: "good_job (w_db w) (th_raw t)"
    and pc: "pc_ok (w_db w) (w_bank w) (th_raw t) (th_pc t)"
    and st: "thread_step c R (bank_post net fails bu bn) ev t w = (t', w')"
  shows "protocol_step (stage_of (w_db w) (w_bank w)) (stage_of (w_db w') (w_bank w'))"
proof -
  have ok: "db_ok (w_db w)" "bank_ok (w_db w) (w_bank w)" "paid_ok (w_db w) (w_bank w)" and keys: "keys_ok (w_db w)"
    using w by (simp_all add: world_ok_def)
  from good obtain job p where job: "job_of (th_raw t) = Some job" "payout_row (w_db w) (p_id p) = Some p" "job_for p job"
    by (auto simp: good_job_def)
  then have pid: "job_pid (th_raw t) = Some (p_id p)" by (simp add: job_pid_def job_for_def)
  show ?thesis
  proof (cases "th_pc t")
    case Fetched
    have "w_db w' = snd (handle_claim ev job (w_db w))" "w_bank w' = w_bank w"
      using st job(1) Fetched by (auto simp: thread_step_def split: prod.splits sum.splits claimed.splits)
    with claim_stage [OF ok(1,2)] show ?thesis by (simp only: handle_claim_db [OF job(3)])
  next
    case (Claimed q key)
    obtain p' where p': "q = JInt (p_id p')" "job_pid (th_raw t) = Some (p_id p')" "payout_row (w_db w) (p_id p') = Some p'"
      "p_key p' = Some key" using pc unfolding Claimed pc_ok_def pc.case by blast
    from p'(2) pid have "p_id p' = p_id p" by simp
    then have "p' = p" by (rule row_id_inject [OF p'(3) job(2)])
    with p' have q: "q = JInt (p_id p)" "p_key p = Some key" by simp_all
    have key: "key \<noteq> []" using keys payout_row_some [OF job(2)] q(2) by (auto simp: keys_ok_def)
    obtain out b where hp: "handle_pay c (bank_post net fails bu bn) job q key (w_bank w) = (out, b)" by fastforce
    have same: "w_db w' = w_db w" "w_bank w' = b"
      using st job(1) Claimed hp by (auto simp: thread_step_def split: sum.splits)
    from handle_pay_cases [OF job(3) key hp [unfolded q(1)]]
    have "b = w_bank w \<or> b = snd (bank_charge (body_for p) key (bu, bn) (w_bank w))" by blast
    with pay_stage [OF ok job(2) q(2) key, of "(bu, bn)"] show ?thesis unfolding same by (elim disjE) simp_all
  next
    case (Answered q result)
    obtain p' k e rep where p': "q = JInt (p_id p')" "job_pid (th_raw t) = Some (p_id p')" "payout_row (w_db w) (p_id p') = Some p'"
      "p_key p' = Some k" "booked (w_bank w) k = Some e" "result = entry_json e rep"
      using pc unfolding Answered pc_ok_def pc.case by blast
    from p'(2) pid have "p_id p' = p_id p" by simp
    then have "p' = p" by (rule row_id_inject [OF p'(3) job(2)])
    with p' have q: "q = JInt (p_id p)" "p_key p = Some k" "booked (w_bank w) k = Some e" "result = entry_json e rep" by simp_all
    have "w_db w' = w_db (snd (handle_record ev job q result w))" "w_bank w' = w_bank (snd (handle_record ev job q result w))"
      using st job(1) Answered by (auto simp: thread_step_def split: prod.splits sum.splits)
    with record_stage [OF ok(1) job(2) q(2,3)] show ?thesis unfolding q(1,4) by (simp only: handle_record_money)
  next
    case (Settled outcome)
    then have "w_db w' = w_db w" "w_bank w' = w_bank w"
      using st job(1) by (auto simp: thread_step_def split: prod.splits sum.splits)
    then show ?thesis by simp
  next
    case (Failing e)
    then have "w' = snd (on_error c R (th_worker t) ev (th_raw t) job e w)" using st job(1) by (simp add: thread_step_def)
    then show ?thesis by (simp add: on_error_keeps_money)
  qed
qed

lemma sys_step_stage:
  "sys_step c R s s' \<Longrightarrow> sys_inv R s \<Longrightarrow> protocol_step (stage_of (sy_db s) (sy_bank s)) (stage_of (sy_db s') (sy_bank s'))"
proof (induction rule: sys_step.induct)
  case (create rep body new_id s out d)
  from create_settlement_db [OF create.hyps] have "payouts d = payouts (sy_db s)" by (auto simp: insert_settlement_payouts)
  then have "stage_of d (sy_bank s) = stage_of (sy_db s) (sy_bank s)" by (intro stage_of_cong) (simp add: payout_row_def)
  then show ?case by simp
next
  case (execute rep sid new_id created s p d)
  then have "execute_tx sid new_id created (sy_db s) = (Inr p, d)" by (auto dest: transaction_ok)
  from owe_stage [OF _ _ this] execute.prems show ?case by (simp add: sys_inv_def)
next
  case (execute_fails rep sid new_id created s e d)
  from transaction_cases [of rep "execute_tx sid new_id created" "sy_db s"] execute_fails.hyps
  have "d = sy_db s \<or> (\<exists>p. execute_tx sid new_id created (sy_db s) = (Inr p, d))" by auto
  then show ?case using owe_stage [of "sy_db s" "sy_bank s"] execute_fails.prems by (auto simp: sys_inv_def)
next
  case (work s us t vs ev net fails bu bn t' w)
  from work.prems work.hyps(1) have "world_ok R (sy_world s)" "good_job (sy_db s) (th_raw t)"
    "pc_ok (sy_db s) (sy_bank s) (th_raw t) (th_pc t)" by (auto simp: sys_inv_world)
  from thread_step_stage [OF this work.hyps(3)] show ?case by simp
qed simp_all

subsection \<open>Runs\<close>

text \<open>A simulation: a relation of steps that keeps an invariant and is matched, through a map of
  states, by steps of another relation. It carries over to runs.\<close>

locale simulation =
  fixes cstep :: "'s \<Rightarrow> 's \<Rightarrow> bool" and inv :: "'s \<Rightarrow> bool" and astep :: "'a \<Rightarrow> 'a \<Rightarrow> bool" and lift :: "'s \<Rightarrow> 'a"
  assumes inv_kept: "inv s \<Longrightarrow> cstep s s' \<Longrightarrow> inv s'"
    and matched: "inv s \<Longrightarrow> cstep s s' \<Longrightarrow> astep (lift s) (lift s')"
begin

lemma runs_matched: "cstep\<^sup>*\<^sup>* s s' \<Longrightarrow> inv s \<Longrightarrow> inv s' \<and> astep\<^sup>*\<^sup>* (lift s) (lift s')"
proof (induction rule: rtranclp_induct)
  case (step t u)
  then show ?case using inv_kept [of t u] matched [of t u] by (auto intro: rtranclp.rtrancl_into_rtrancl)
qed simp

end

locale payout_system = redis_service R for R :: "'r redis_api" +
  fixes c :: config

sublocale payout_system \<subseteq> run: simulation "sys_step c R" "sys_inv R" protocol_step "\<lambda>s. stage_of (sy_db s) (sy_bank s)"
  by unfold_locales (auto intro: redis_service.sys_step_inv [OF redis_service_axioms] sys_step_stage)

context payout_system begin

lemma system_runs:
  "(sys_step c R)\<^sup>*\<^sup>* s s' \<Longrightarrow> sys_inv R s \<Longrightarrow>
     sys_inv R s' \<and> protocol_step\<^sup>*\<^sup>* (stage_of (sy_db s) (sy_bank s)) (stage_of (sy_db s') (sy_bank s'))"
  by (rule run.runs_matched)

end

interpretation mem_system: payout_system mem_redis default_config
  by unfold_locales

text \<open>On the protocol: money that has moved stays as it is.\<close>

fun money_moved :: "stage \<Rightarrow> (due \<times> string \<times> entry) option" where
  "money_moved (Charged x k e) = Some (x, k, e)"
| "money_moved (Recorded x k e) = Some (x, k, e)"
| "money_moved _ = None"

lemma money_stays: "protocol_step\<^sup>*\<^sup>* f g \<Longrightarrow> money_moved (f i) = Some m \<Longrightarrow> money_moved (g i) = Some m"
proof (induction rule: rtranclp_induct)
  case (step g h)
  from step.hyps(2) show ?case unfolding protocol_step_def
  proof (elim disjE exE conjE)
    fix j a assume a: "advance_stage g (g j) a" "h = g(j := a)"
    show ?thesis
    proof (cases "i = j")
      case True
      with a step.IH [OF step.prems] show ?thesis by (auto elim!: advance_stageE)
    qed (use a step.IH [OF step.prems] in simp)
  qed (use step.IH [OF step.prems] in simp)
qed

section \<open>Property of the protocol\<close>

text \<open>C8. The system refines the payout protocol: seen through \<open>stage_of\<close>, nothing is owed at the
  start, and every run from a reachable state, whatever threads, requests, operators and
  failures take part in it, is a run of the protocol, in which each step leaves all payouts in
  their stages or moves one of them to the next stage: owed, started under a key that no other
  payout has, charged with what is owed, recorded. So once the bank has paid a payout, its key
  and its bank entry never change.\<close>

theorem system_refines_protocol:
  assumes "redis_service R" and "stored R r0 = {}" and "reachable c R ms r0 s" and "(sys_step c R)\<^sup>*\<^sup>* s s'"
  shows "stage_of (sy_db (init_sys ms r0)) (sy_bank (init_sys ms r0)) = (\<lambda>i. Absent)
    \<and> protocol_step\<^sup>*\<^sup>* (stage_of (sy_db s) (sy_bank s)) (stage_of (sy_db s') (sy_bank s'))
    \<and> (\<forall>i m. money_moved (stage_of (sy_db s) (sy_bank s) i) = Some m \<longrightarrow>
         money_moved (stage_of (sy_db s') (sy_bank s') i) = Some m)"
proof -
  have start: "stage_of (sy_db (init_sys ms r0)) (sy_bank (init_sys ms r0)) = (\<lambda>i. Absent)"
    by (simp add: init_sys_def stage_of_def payout_row_def payouts_empty_db fun_eq_iff)
  have run: "protocol_step\<^sup>*\<^sup>* (stage_of (sy_db s) (sy_bank s)) (stage_of (sy_db s') (sy_bank s'))"
    using payout_system.system_runs [OF payout_system.intro [OF assms(1)] assms(4) redis_service.reachable_inv [OF assms(1,3,2)]]
    by (rule conjunct2)
  show ?thesis using start run money_stays [OF run] by blast
qed

theorem system_refines_protocol_witness:
  "\<exists>e. money_moved (stage_of (sy_db sc11) (sy_bank sc11) 5) = Some (due_of_payout sc_claimed, ''K1'', e)
     \<and> money_moved (stage_of (sy_db sc12) (sy_bank sc12) 5) = Some (due_of_payout sc_claimed, ''K1'', e)"
proof -
  have "money_moved (stage_of (sy_db sc11) (sy_bank sc11) 5) = Some (due_of_payout sc_claimed, ''K1'', sc_entry)"
    by (simp add: stage_of_def row_stage_def payout_row_def sc11_def sc_defs claim_row_def booked_def)
  with system_refines_protocol [OF mem.redis_service_axioms mem_empty_stored sc11_reachable,
      OF r_into_rtranclp [where r = "sys_step default_config mem_redis", OF sc_step11]]
  show ?thesis by blast
qed

end
