(* ===== verification/Json_Text.thy ===== *)
theory Json_Text
  imports Numbers
begin

section \<open>JSON texts: json.dumps and json.loads of the standard library\<close>

text \<open>
  The jobs in Redis, the log lines and the dashboard are texts that \<open>json.dumps\<close> writes. Here is
  that text, with and without indentation, and the reader \<open>json.loads\<close>: what was written is read
  back, so a job in Redis stands for its document (the payloads of the other theories). Characters
  are those below 256; floats are finite.
\<close>

subsection \<open>The writer\<close>

definition hex_digit :: "nat \<Rightarrow> char" where
  "hex_digit n = ''0123456789abcdef'' ! n"

text \<open>Everything that is not printable ASCII is escaped (\<open>ensure_ascii\<close>).\<close>

definition json_char :: "char \<Rightarrow> string" where
  "json_char c =
     (if c = CHR 0x22 then [CHR 0x5C, CHR 0x22]
      else if c = CHR 0x5C then [CHR 0x5C, CHR 0x5C]
      else if c = CHR 0x0A then [CHR 0x5C, CHR ''n'']
      else if c = CHR 0x0D then [CHR 0x5C, CHR ''r'']
      else if c = CHR 0x09 then [CHR 0x5C, CHR ''t'']
      else if c = CHR 0x0C then [CHR 0x5C, CHR ''f'']
      else if c = CHR 0x08 then [CHR 0x5C, CHR ''b'']
      else if 32 \<le> (of_char c :: nat) \<and> (of_char c :: nat) < 127 then [c]
      else [CHR 0x5C, CHR ''u'', CHR ''0'', CHR ''0'', hex_digit (of_char c div 16), hex_digit (of_char c mod 16)])"

definition json_string :: "string \<Rightarrow> string" where
  "json_string s = [CHR 0x22] @ concat (map json_char s) @ [CHR 0x22]"

text \<open>The items between two brackets: on one line, or one per line at the depth of the indentation.\<close>

definition gap :: "nat option \<Rightarrow> nat \<Rightarrow> string" where
  "gap indent n = (case indent of None \<Rightarrow> [] | Some k \<Rightarrow> CHR 0x0A # replicate (k * n) (CHR '' ''))"

fun separated :: "string \<Rightarrow> string list \<Rightarrow> string" where
  "separated sep [] = []"
| "separated sep [s] = s"
| "separated sep (s # ss) = s @ sep @ separated sep ss"

definition bracketed :: "nat option \<Rightarrow> nat \<Rightarrow> char \<Rightarrow> char \<Rightarrow> string list \<Rightarrow> string" where
  "bracketed indent n l r items =
     (if items = [] then [l, r]
      else [l] @ gap indent (Suc n)
        @ separated (case indent of None \<Rightarrow> '', '' | Some k \<Rightarrow> '','' @ gap indent (Suc n)) items @ gap indent n @ [r])"

fun dumps :: "nat option \<Rightarrow> nat \<Rightarrow> json \<Rightarrow> string" where
  "dumps indent n JNull = ''null''"
| "dumps indent n (JBool b) = (if b then ''true'' else ''false'')"
| "dumps indent n (JInt i) = str_int i"
| "dumps indent n (JFloat x) = repr_float x"
| "dumps indent n (JStr s) = json_string s"
| "dumps indent n (JList vs) = bracketed indent n (CHR ''['') (CHR '']'') (map (dumps indent (Suc n)) vs)"
| "dumps indent n (JObj kvs) =
     bracketed indent n (CHR ''{'') (CHR ''}'') (map (\<lambda>kv. json_string (fst kv) @ '': '' @ dumps indent (Suc n) (snd kv)) kvs)"

subsection \<open>The reader\<close>

definition blank :: "char \<Rightarrow> bool" where
  "blank c \<longleftrightarrow> c \<in> {CHR '' '', CHR 0x09, CHR 0x0A, CHR 0x0D}"

definition hex_value :: "char \<Rightarrow> nat option" where
  "hex_value c =
     (let n = of_char c :: nat
      in if 48 \<le> n \<and> n \<le> 57 then Some (n - 48)
         else if 97 \<le> n \<and> n \<le> 102 then Some (n - 87)
         else if 65 \<le> n \<and> n \<le> 70 then Some (n - 55) else None)"

text \<open>
  One character of a string, as \<open>scanstring\<close> reads it; the rest of the text is returned. A
  character of an escape above 255 is outside of this model's strings and refused.
\<close>

definition bad_json :: "'a res" where
  "bad_json = Inl (ValueError ''Expecting value'')"

fun scan_char :: "string \<Rightarrow> (char \<times> string) res" where
  "scan_char [] = bad_json"
| "scan_char (c # cs) =
     (if c = CHR 0x5C
      then (case cs of
              [] \<Rightarrow> bad_json
            | e # es \<Rightarrow>
                if e = CHR 0x22 \<or> e = CHR 0x5C \<or> e = CHR ''/'' then Inr (e, es)
                else if e = CHR ''n'' then Inr (CHR 0x0A, es)
                else if e = CHR ''r'' then Inr (CHR 0x0D, es)
                else if e = CHR ''t'' then Inr (CHR 0x09, es)
                else if e = CHR ''f'' then Inr (CHR 0x0C, es)
                else if e = CHR ''b'' then Inr (CHR 0x08, es)
                else if e = CHR ''u''
                then (case es of
                        h1 # h2 # h3 # h4 # rest \<Rightarrow>
                          (case (hex_value h1, hex_value h2, hex_value h3, hex_value h4) of
                             (Some 0, Some 0, Some a, Some b) \<Rightarrow> Inr (char_of (16 * a + b), rest)
                           | _ \<Rightarrow> bad_json)
                      | _ \<Rightarrow> bad_json)
                else bad_json)
      else if (of_char c :: nat) < 32 then bad_json
      else Inr (c, cs))"

lemma scan_char_shorter: "scan_char cs = Inr (c, rest) \<Longrightarrow> length rest < length cs"
  by (cases cs rule: scan_char.cases)
     (auto simp: bad_json_def Let_def split: if_splits list.splits option.splits nat.splits prod.splits)

declare scan_char.simps [simp del]

function (sequential) scan_string :: "string \<Rightarrow> string \<Rightarrow> (string \<times> string) res" where
  "scan_string acc cs =
     (case cs of
        [] \<Rightarrow> bad_json
      | c # rest \<Rightarrow>
          if c = CHR 0x22 then Inr (acc, rest)
          else (case scan_char cs of
                  Inl e \<Rightarrow> Inl e
                | Inr (d, more) \<Rightarrow> scan_string (acc @ [d]) more))"
  by pat_completeness auto
termination
  by (relation "measure (\<lambda>(acc, cs). length cs)") (auto dest!: scan_char_shorter)


declare scan_string.simps [simp del]

text \<open>A number, by the longest match of \<^verbatim>\<open>(-?(?:0|[1-9]\d*))(\.\d+)?([eE][-+]?\d+)?\<close>.\<close>

definition digits_of :: "string \<Rightarrow> string \<times> string" where
  "digits_of s = (takeWhile is_digit s, dropWhile is_digit s)"

definition integer_part :: "string \<Rightarrow> string \<times> string" where
  "integer_part s =
     (case s of
        [] \<Rightarrow> ([], [])
      | c # cs \<Rightarrow> if c = CHR ''0'' then ([c], cs) else digits_of s)"

definition fraction_part :: "string \<Rightarrow> string \<times> string" where
  "fraction_part s =
     (case s of
        [] \<Rightarrow> ([], [])
      | c # cs \<Rightarrow> if c = CHR ''.'' \<and> fst (digits_of cs) \<noteq> [] then digits_of cs else ([], s))"

definition exponent_part :: "string \<Rightarrow> int option \<times> string" where
  "exponent_part s =
     (case s of
        [] \<Rightarrow> (None, [])
      | c # cs \<Rightarrow>
          if c = CHR ''e'' \<or> c = CHR ''E''
          then (let (neg, u) = split_sign cs; (ds, rest) = digits_of u
                in if ds = [] then (None, s)
                   else (Some (if neg then - int (value_from 0 ds) else int (value_from 0 ds)), rest))
          else (None, s))"

definition scan_number :: "string \<Rightarrow> (json \<times> string) res" where
  "scan_number s =
     (let (neg, u) = (case s of [] \<Rightarrow> (False, []) | c # cs \<Rightarrow> if c = CHR ''-'' then (True, cs) else (False, s));
          (ip, r1) = integer_part u; (fp, r2) = fraction_part r1; (ex, r3) = exponent_part r2
      in if ip = [] then bad_json
         else if fp = [] \<and> ex = None
         then Inr (JInt (if neg then - int (value_from 0 ip) else int (value_from 0 ip)), r3)
         else (let x = (real (value_from 0 ip) + real (value_from 0 fp) / 10 ^ length fp) * 10 powi (case ex of None \<Rightarrow> 0 | Some e \<Rightarrow> e)
               in Inr (JFloat (if neg then - x else x), r3)))"

text \<open>
  The recursive reader, with the length of the text as fuel: every call reads at least a character.
  The dict of an object keeps the last value of a key.
\<close>

definition no_fuel :: "'a res" where
  "no_fuel = Inl (TimeoutExpired ''fuel'')"

abbreviation skip :: "string \<Rightarrow> string" where
  "skip \<equiv> dropWhile blank"

definition literal :: "string \<Rightarrow> json \<Rightarrow> string \<Rightarrow> (json \<times> string) option" where
  "literal name v s = (if take (length name) s = name then Some (v, drop (length name) s) else None)"

definition scan_literal :: "string \<Rightarrow> (json \<times> string) option" where
  "scan_literal s =
     (case literal ''null'' JNull s of
        Some r \<Rightarrow> Some r
      | None \<Rightarrow> (case literal ''true'' (JBool True) s of
          Some r \<Rightarrow> Some r
        | None \<Rightarrow> literal ''false'' (JBool False) s))"

fun parse_value :: "nat \<Rightarrow> string \<Rightarrow> (json \<times> string) res"
  and parse_items :: "nat \<Rightarrow> json list \<Rightarrow> string \<Rightarrow> (json list \<times> string) res"
  and parse_pairs :: "nat \<Rightarrow> dict \<Rightarrow> string \<Rightarrow> (dict \<times> string) res"
where
  "parse_value 0 s = no_fuel"
| "parse_value (Suc f) [] = bad_json"
| "parse_value (Suc f) (c # cs) =
     (if c = CHR 0x22 then bind_res (scan_string [] cs) (\<lambda>(t, r). Inr (JStr t, r))
      else if c = CHR ''['' then
        (if take 1 (skip cs) = '']'' then Inr (JList [], tl (skip cs))
         else bind_res (parse_items f [] (skip cs)) (\<lambda>(vs, r). Inr (JList vs, r)))
      else if c = CHR ''{'' then
        (if take 1 (skip cs) = ''}'' then Inr (JObj [], tl (skip cs))
         else bind_res (parse_pairs f [] (skip cs)) (\<lambda>(kvs, r). Inr (JObj kvs, r)))
      else case scan_literal (c # cs) of Some r \<Rightarrow> Inr r | None \<Rightarrow> scan_number (c # cs))"
| "parse_items 0 vs s = no_fuel"
| "parse_items (Suc f) vs s =
     bind_res (parse_value f s) (\<lambda>(v, r).
       case skip r of
         [] \<Rightarrow> bad_json
       | c # cs \<Rightarrow>
           if c = CHR '']'' then Inr (vs @ [v], cs)
           else if c = CHR '','' then parse_items f (vs @ [v]) (skip cs)
           else bad_json)"
| "parse_pairs 0 kvs s = no_fuel"
| "parse_pairs (Suc f) kvs s =
     (if take 1 s \<noteq> [CHR 0x22] then bad_json
      else bind_res (scan_string [] (tl s)) (\<lambda>(k, r).
        if take 1 (skip r) \<noteq> '':'' then bad_json
        else bind_res (parse_value f (skip (tl (skip r)))) (\<lambda>(v, r).
          case skip r of
            [] \<Rightarrow> bad_json
          | c # cs \<Rightarrow>
              if c = CHR ''}'' then Inr (dict_set k v kvs, cs)
              else if c = CHR '','' then parse_pairs f (dict_set k v kvs) (skip cs)
              else bad_json)))"

definition loads :: "string \<Rightarrow> json res" where
  "loads s =
     bind_res (parse_value (Suc (length s)) (skip s)) (\<lambda>(v, r).
       if skip r = [] then Inr v else Inl (ValueError ''Extra data''))"

subsection \<open>Reading back a string\<close>

lemma hex_value_digit: "n < 16 \<Longrightarrow> hex_value (hex_digit n) = Some n"
proof -
  have "list_all (\<lambda>n. hex_value (hex_digit n) = Some n) [0..<16]" by code_simp
  then show "n < 16 \<Longrightarrow> hex_value (hex_digit n) = Some n" by (simp add: list_all_iff)
qed

lemma scan_json_char: "scan_char (json_char c @ rest) = Inr (c, rest)"
proof (cases "c \<in> {CHR 0x22, CHR 0x5C, CHR 0x0A, CHR 0x0D, CHR 0x09, CHR 0x0C, CHR 0x08}")
  case True
  then show ?thesis by (elim insertE emptyE) (simp_all add: json_char_def scan_char.simps)
next
  case special: False
  let ?n = "of_char c :: nat"
  show ?thesis
  proof (cases "32 \<le> ?n \<and> ?n < 127")
    case True
    then show ?thesis using special by (simp add: json_char_def scan_char.simps)
  next
    case False
    have n: "?n < 256" using of_char_mod_256 [of c, where 'a = nat] by (metis mod_less_divisor zero_less_numeral)
    have "json_char c = [CHR 0x5C, CHR ''u'', CHR ''0'', CHR ''0'', hex_digit (?n div 16), hex_digit (?n mod 16)]"
      using special False by (simp add: json_char_def)
    moreover have "hex_value (hex_digit (?n div 16)) = Some (?n div 16)" "hex_value (hex_digit (?n mod 16)) = Some (?n mod 16)"
      using n by (intro hex_value_digit; simp add: less_mult_imp_div_less)+
    moreover have "hex_value (CHR ''0'') = Some 0" by (simp add: hex_value_def)
    moreover have "char_of (16 * (?n div 16) + ?n mod 16) = c" by simp
    ultimately show ?thesis by (simp add: scan_char.simps)
  qed
qed

lemma json_char_head: "\<exists>d ds. json_char c = d # ds \<and> d \<noteq> CHR 0x22"
  by (auto simp: json_char_def)

lemma scan_written_string: "scan_string acc (concat (map json_char s) @ CHR 0x22 # rest) = Inr (acc @ s, rest)"
proof (induction s arbitrary: acc)
  case Nil
  then show ?case by (simp add: scan_string.simps)
next
  case (Cons c s)
  obtain d ds where d: "json_char c = d # ds" "d \<noteq> CHR 0x22" using json_char_head by blast
  have "scan_char (d # ds @ concat (map json_char s) @ CHR 0x22 # rest) = Inr (c, concat (map json_char s) @ CHR 0x22 # rest)"
    using scan_json_char [of c "concat (map json_char s) @ CHR 0x22 # rest"] d(1) by simp
  then show ?case using d Cons.IH [of "acc @ [c]"] by (simp add: scan_string.simps [of acc])
qed

subsection \<open>Reading back a number\<close>

text \<open>What may follow a value in a written text.\<close>

definition stops :: "string \<Rightarrow> bool" where
  "stops rest \<longleftrightarrow> rest = [] \<or> hd rest \<in> {CHR '','', CHR '']'', CHR ''}'', CHR 0x0A}"

lemma stops_simps [simp]:
  "stops []" "stops (c # cs) \<longleftrightarrow> c \<in> {CHR '','', CHR '']'', CHR ''}'', CHR 0x0A}"
  by (simp_all add: stops_def)

abbreviation no_digit_first :: "string \<Rightarrow> bool" where
  "no_digit_first rest \<equiv> rest = [] \<or> \<not> is_digit (hd rest)"

lemma digits_then: "list_all is_digit ds \<Longrightarrow> no_digit_first rest \<Longrightarrow> digits_of (ds @ rest) = (ds, rest)"
  by (induction ds) (cases rest; simp add: digits_of_def)+

lemma stops_not_digit: "stops rest \<Longrightarrow> no_digit_first rest"
  by (cases rest) (auto simp: is_digit_def)

lemma fraction_stops: "stops rest \<Longrightarrow> fraction_part rest = ([], rest)"
  by (cases rest) (auto simp: fraction_part_def)

lemma exponent_stops: "stops rest \<Longrightarrow> exponent_part rest = (None, rest)"
  by (cases rest) (auto simp: exponent_part_def)

lemma str_nat_head: "str_nat n = CHR ''0'' # cs \<Longrightarrow> cs = [] \<and> n = 0"
proof (induction n arbitrary: cs rule: str_nat.induct)
  case (1 n)
  show ?case
  proof (cases "n < 10")
    case True
    with 1(2) have "digit_char n = CHR ''0''" "cs = []" by (simp_all add: str_nat.simps [of n])
    moreover from this(1) have "of_char (digit_char n) = (48 :: nat)" by simp
    then have "n = 0" using of_char_digit [OF True] by simp
    ultimately show ?thesis by simp
  next
    case False
    obtain d ds where d: "str_nat (n div 10) = d # ds" by (cases "str_nat (n div 10)") simp_all
    with 1(2) False have "d = CHR ''0''" by (simp add: str_nat.simps [of n])
    with 1(1) [OF False] d have "n div 10 = 0" by blast
    with False show ?thesis by simp
  qed
qed

lemma integer_part_str_nat:
  assumes "no_digit_first rest"
  shows "integer_part (str_nat n @ rest) = (str_nat n, rest)"
proof -
  obtain c cs where c: "str_nat n = c # cs" by (cases "str_nat n") simp_all
  show ?thesis
  proof (cases "c = CHR ''0''")
    case True
    with str_nat_head [of n cs] c show ?thesis by (simp add: integer_part_def)
  next
    case False
    then show ?thesis using digits_then [OF str_nat_all_digits assms, of n] c by (simp add: integer_part_def)
  qed
qed

lemma value_from_str_nat: "value_from 0 (str_nat n) = n"
  using digits_val_str_nat [of n] by (simp add: value_from_def digits_val_def)

text \<open>The sign before the digits.\<close>

lemma scan_number_sign:
  assumes "integer_part u = (ip, r1)" and "u = c # cs" and "is_digit c" and "ip \<noteq> []"
  shows "scan_number ((if neg then ''-'' else []) @ u) =
    (case fraction_part r1 of (fp, r2) \<Rightarrow> case exponent_part r2 of (ex, r3) \<Rightarrow>
       if fp = [] \<and> ex = None
       then Inr (JInt (if neg then - int (value_from 0 ip) else int (value_from 0 ip)), r3)
       else (let x = (real (value_from 0 ip) + real (value_from 0 fp) / 10 ^ length fp) * 10 powi (case ex of None \<Rightarrow> 0 | Some e \<Rightarrow> e)
             in Inr (JFloat (if neg then - x else x), r3)))"
proof -
  have "c \<noteq> CHR ''-''" using assms(3) by (auto simp: is_digit_def)
  then show ?thesis using assms by (cases neg) (simp_all add: scan_number_def split: prod.split)
qed

lemma scan_written_int: "stops rest \<Longrightarrow> scan_number (str_int i @ rest) = Inr (JInt i, rest)"
proof -
  assume rest: "stops rest"
  let ?n = "nat \<bar>i\<bar>"
  obtain c cs where c: "str_nat ?n = c # cs" by (cases "str_nat ?n") simp_all
  then have u: "str_nat ?n @ rest = c # cs @ rest" "is_digit c" using str_nat_all_digits [of ?n] by simp_all
  from scan_number_sign [OF integer_part_str_nat [OF stops_not_digit [OF rest]] u, of "i < 0"] rest
  have "scan_number ((if i < 0 then ''-'' else []) @ str_nat ?n @ rest) = Inr (JInt i, rest)"
    by (simp add: fraction_stops exponent_stops value_from_str_nat)
  then show ?thesis by (cases "i < 0") (simp_all add: str_int_def)
qed

lemma scan_written_float:
  assumes "decimal x" and "stops rest"
  shows "scan_number (repr_float x @ rest) = Inr (JFloat x, rest)"
proof -
  let ?k = "decimals x"
  let ?m = "\<lfloor>\<bar>x\<bar> * 10 ^ ?k\<rfloor>"
  let ?ip = "str_nat (nat (?m div 10 ^ ?k))" and ?fp = "padded ?k (?m mod 10 ^ ?k)"
  from assms(1) obtain k m where "x * 10 ^ k = of_int m" "0 < k" "k < 16" by (auto simp: decimal_def)
  note exact = decimals_exact [OF this]
  have k: "0 < ?k" by (rule decimals_positive)
  have "0 \<le> ?m" by simp
  have rep: "repr_float x @ rest = (if x < 0 then ''-'' else []) @ (?ip @ CHR ''.'' # ?fp @ rest)"
    using k by (simp add: repr_float_def fixed_nat_def)
  obtain c cs where "?ip = c # cs" by (cases ?ip) simp_all
  then have u: "?ip @ CHR ''.'' # ?fp @ rest = c # cs @ CHR ''.'' # ?fp @ rest" "is_digit c"
    using str_nat_all_digits [of "nat (?m div 10 ^ ?k)"] by simp_all
  have ip: "integer_part (?ip @ CHR ''.'' # ?fp @ rest) = (?ip, CHR ''.'' # ?fp @ rest)"
    by (rule integer_part_str_nat) (simp add: is_digit_def)
  have fp: "fraction_part (CHR ''.'' # ?fp @ rest) = (?fp, rest)"
    using digits_then [OF padded_all_digits stops_not_digit [OF assms(2)]] padded_nonempty by (simp add: fraction_part_def)
  have ten: "(0::int) < 10 ^ ?k" by (rule zero_less_power) simp
  have len: "length ?fp = ?k" by (rule length_padded [OF pos_mod_sign [OF ten] pos_mod_bound [OF ten] k])
  have "real (nat (?m div 10 ^ ?k)) + real (nat (?m mod 10 ^ ?k)) / 10 ^ ?k = \<bar>x\<bar>"
  proof -
    have "real_of_int (?m div 10 ^ ?k * 10 ^ ?k + ?m mod 10 ^ ?k) = of_int ?m" by (simp only: div_mult_mod_eq)
    then have "real_of_int (?m div 10 ^ ?k) * 10 ^ ?k + of_int (?m mod 10 ^ ?k) = of_int ?m"
      by (simp only: of_int_add of_int_mult of_int_power of_int_numeral)
    also have "\<dots> = \<bar>x\<bar> * 10 ^ ?k" by (rule exact)
    finally have "real_of_int (?m div 10 ^ ?k) + of_int (?m mod 10 ^ ?k) / 10 ^ ?k = \<bar>x\<bar>" by (simp add: field_simps)
    moreover have "0 \<le> ?m div 10 ^ ?k" using \<open>0 \<le> ?m\<close> by (simp add: pos_imp_zdiv_nonneg_iff)
    ultimately show ?thesis by simp
  qed
  then show ?thesis
    unfolding rep using scan_number_sign [OF ip u, of "x < 0"] assms(2)
    by (simp add: fp exponent_stops value_from_str_nat value_from_padded [OF pos_mod_sign [OF ten]] len padded_nonempty Let_def)
qed

subsection \<open>Reading back a document\<close>

text \<open>Documents whose objects have distinct keys and whose floats are decimal.\<close>

fun json_ok :: "json \<Rightarrow> bool" where
  "json_ok (JFloat x) = decimal x"
| "json_ok (JList vs) = list_all json_ok vs"
| "json_ok (JObj kvs) = (distinct (map fst kvs) \<and> list_all (\<lambda>kv. json_ok (snd kv)) kvs)"
| "json_ok v = True"

lemma skip_gap [simp]: "skip (gap indent n @ s) = skip s"
proof -
  have "skip (replicate k (CHR '' '') @ s) = skip s" for k by (induction k) (simp_all add: blank_def)
  then show ?thesis by (cases indent) (simp_all add: gap_def blank_def)
qed

lemma stops_gap [simp]: "stops (c # cs) \<Longrightarrow> stops (gap indent n @ c # cs)"
  by (cases indent) (simp_all add: gap_def)

text \<open>The first character of a written value.\<close>

lemma str_nat_first: "\<exists>c cs. str_nat n = c # cs \<and> is_digit c"
  using str_nat_all_digits [of n] by (cases "str_nat n") simp_all

lemma str_int_first: "\<exists>c cs. str_int i = c # cs \<and> (is_digit c \<or> c = CHR ''-'')"
  using str_nat_first [of "nat i"] by (cases "i < 0") (auto simp: str_int_def)

lemma repr_float_first: "\<exists>c cs. repr_float x = c # cs \<and> (is_digit c \<or> c = CHR ''-'')"
  using fixed_nat_head [of "decimals x" "\<lfloor>\<bar>x\<bar> * 10 ^ decimals x\<rfloor>"] by (cases "x < 0") (auto simp: repr_float_def)

definition starts :: "char \<Rightarrow> bool" where
  "starts c \<longleftrightarrow> \<not> blank c \<and> c \<noteq> CHR '']'' \<and> c \<noteq> CHR ''}''"

lemma number_starts: "is_digit c \<or> c = CHR ''-'' \<Longrightarrow> starts c"
  by (auto simp: starts_def blank_def is_digit_def)

lemma dumps_first: "\<exists>c cs. dumps indent n v = c # cs \<and> starts c"
proof (cases v)
  case (JInt i)
  then show ?thesis using str_int_first [of i] number_starts by auto
next
  case (JFloat x)
  then show ?thesis using repr_float_first [of x] number_starts by auto
qed (auto simp: bracketed_def json_string_def starts_def blank_def)

lemma skip_dumps [simp]: "skip (dumps indent n v @ s) = dumps indent n v @ s"
  using dumps_first [of indent n v] by (auto simp: starts_def)

lemma skip_string [simp]: "skip (json_string t @ s) = json_string t @ s"
  by (simp add: json_string_def blank_def)

text \<open>The separator of the items: a comma and blanks.\<close>

definition sep :: "nat option \<Rightarrow> nat \<Rightarrow> string" where
  "sep indent n = (case indent of None \<Rightarrow> '', '' | Some k \<Rightarrow> '','' @ gap indent n)"

lemma sep_comma: "\<exists>sp. sep indent n = CHR '','' # sp \<and> (\<forall>s. skip (sp @ s) = skip s)"
  by (cases indent) (auto simp: sep_def blank_def)

lemma separated_cons: "ss \<noteq> [] \<Longrightarrow> separated u (s # ss) = s @ u @ separated u ss"
  by (cases ss) simp_all

text \<open>What reading a written value means, and the items of a list and of an object.\<close>

definition reads_back :: "nat option \<Rightarrow> json \<Rightarrow> bool" where
  "reads_back indent v \<longleftrightarrow> (\<forall>f n rest. length (dumps indent n v) < f \<longrightarrow> stops rest
     \<longrightarrow> parse_value f (dumps indent n v @ rest) = Inr (v, rest))"

lemma reads_backD:
  "reads_back indent v \<Longrightarrow> length (dumps indent n v) < f \<Longrightarrow> stops rest \<Longrightarrow> parse_value f (dumps indent n v @ rest) = Inr (v, rest)"
  by (simp add: reads_back_def)

lemma parse_written_items:
  assumes "vs \<noteq> []" and "list_all (reads_back indent) vs"
    and "Suc (length (separated (sep indent m) (map (dumps indent m) vs))) < f"
  shows "parse_items f acc (separated (sep indent m) (map (dumps indent m) vs) @ gap indent n @ CHR '']'' # rest) = Inr (acc @ vs, rest)"
  using assms
proof (induction vs arbitrary: f acc)
  case (Cons v vs)
  obtain f' where f: "f = Suc f'" using Cons.prems(3) by (cases f) simp_all
  note v = reads_backD [of indent v m f']
  obtain sp where sp: "sep indent m = CHR '','' # sp" "\<And>s. skip (sp @ s) = skip s" using sep_comma by blast
  show ?case
  proof (cases "vs = []")
    case True
    then show ?thesis using v [of "gap indent n @ CHR '']'' # rest"] Cons.prems f by (simp add: blank_def)
  next
    case False
    let ?more = "separated (sep indent m) (map (dumps indent m) vs) @ gap indent n @ CHR '']'' # rest"
    obtain w ws where w: "vs = w # ws" using False by (cases vs) simp_all
    have whole: "separated (sep indent m) (map (dumps indent m) (v # vs)) = dumps indent m v @ sep indent m @ separated (sep indent m) (map (dumps indent m) vs)"
      using False by (simp add: separated_cons)
    have "skip ?more = ?more"
      using skip_dumps [of indent m w] w by (cases ws) (simp_all add: separated_cons)
    moreover have "parse_value f' (dumps indent m v @ CHR '','' # sp @ ?more) = Inr (v, CHR '','' # sp @ ?more)"
      by (rule v) (use Cons.prems whole f in simp_all)
    moreover have "parse_items f' (acc @ [v]) ?more = Inr ((acc @ [v]) @ vs, rest)"
      by (rule Cons.IH) (use Cons.prems False whole f sp in simp_all)
    ultimately show ?thesis unfolding whole by (simp add: f sp blank_def)
  qed
qed simp

definition pair_text :: "nat option \<Rightarrow> nat \<Rightarrow> string \<times> json \<Rightarrow> string" where
  "pair_text indent n kv = json_string (fst kv) @ '': '' @ dumps indent n (snd kv)"

lemma skip_pair [simp]: "skip (pair_text indent n kv @ s) = pair_text indent n kv @ s"
  by (simp add: pair_text_def)

lemma pair_head: "parse_pairs (Suc f) kvs (pair_text indent n kv @ rest) =
    bind_res (parse_value f (dumps indent n (snd kv) @ rest)) (\<lambda>(v, r).
      case skip r of
        [] \<Rightarrow> bad_json
      | c # cs \<Rightarrow>
          if c = CHR ''}'' then Inr (dict_set (fst kv) v kvs, cs)
          else if c = CHR '','' then parse_pairs f (dict_set (fst kv) v kvs) (skip cs)
          else bad_json)"
  using scan_written_string [of "[]" "fst kv" "'': '' @ dumps indent n (snd kv) @ rest"]
  by (simp add: pair_text_def json_string_def blank_def)

declare parse_pairs.simps [simp del]

lemma dict_set_new: "k \<notin> fst ` set kvs \<Longrightarrow> dict_set k v kvs = kvs @ [(k, v)]"
  by (induction kvs) auto

lemma parse_written_pairs:
  assumes "kvs \<noteq> []" and "list_all (\<lambda>kv. reads_back indent (snd kv)) kvs"
    and "distinct (map fst (acc @ kvs))"
    and "Suc (length (separated (sep indent m) (map (pair_text indent m) kvs))) < f"
  shows "parse_pairs f acc (separated (sep indent m) (map (pair_text indent m) kvs) @ gap indent n @ CHR ''}'' # rest) = Inr (acc @ kvs, rest)"
  using assms
proof (induction kvs arbitrary: f acc)
  case (Cons kv kvs)
  obtain f' where f: "f = Suc f'" using Cons.prems(4) by (cases f) simp_all
  have new: "dict_set (fst kv) (snd kv) acc = acc @ [kv]"
    using Cons.prems(3) dict_set_new [of "fst kv" acc "snd kv"] by auto
  note v = reads_backD [of indent "snd kv" m f']
  obtain sp where sp: "sep indent m = CHR '','' # sp" "\<And>s. skip (sp @ s) = skip s" using sep_comma by blast
  show ?case
  proof (cases "kvs = []")
    case True
    have "parse_value f' (dumps indent m (snd kv) @ gap indent n @ CHR ''}'' # rest) = Inr (snd kv, gap indent n @ CHR ''}'' # rest)"
      by (rule v) (use Cons.prems True f in \<open>simp_all add: pair_text_def\<close>)
    then show ?thesis using True by (simp add: f pair_head new blank_def)
  next
    case False
    let ?more = "separated (sep indent m) (map (pair_text indent m) kvs) @ gap indent n @ CHR ''}'' # rest"
    obtain w ws where w: "kvs = w # ws" using False by (cases kvs) simp_all
    have whole: "separated (sep indent m) (map (pair_text indent m) (kv # kvs))
        = pair_text indent m kv @ sep indent m @ separated (sep indent m) (map (pair_text indent m) kvs)"
      using False by (simp add: separated_cons)
    have sk: "skip ?more = ?more"
      using skip_pair [of indent m w] w by (cases ws) (simp_all add: separated_cons)
    have len: "length (dumps indent m (snd kv)) \<le> length (pair_text indent m kv)" by (simp add: pair_text_def)
    have "parse_value f' (dumps indent m (snd kv) @ CHR '','' # sp @ ?more) = Inr (snd kv, CHR '','' # sp @ ?more)"
      by (rule v) (use Cons.prems(2,4) whole f len in simp_all)
    moreover have "parse_pairs f' (acc @ [kv]) ?more = Inr ((acc @ [kv]) @ kvs, rest)"
      by (rule Cons.IH) (use Cons.prems False whole f sp in simp_all)
    ultimately show ?thesis unfolding whole by (simp add: f sp pair_head new blank_def sk [unfolded sp(1)])
  qed
qed simp

text \<open>A value that starts as a number does.\<close>

lemma parse_number:
  assumes "is_digit c \<or> c = CHR ''-''"
  shows "parse_value (Suc f) (c # cs) = scan_number (c # cs)"
proof -
  have "c \<noteq> CHR 0x22" "c \<noteq> CHR ''[''" "c \<noteq> CHR ''{''" "c \<noteq> CHR ''n''" "c \<noteq> CHR ''t''" "c \<noteq> CHR ''f''"
    using assms by (auto simp: is_digit_def)
  then show ?thesis by (simp add: scan_literal_def literal_def)
qed

lemma number_reads_back:
  assumes "\<And>n. dumps indent n v = c # cs" and "is_digit c \<or> c = CHR ''-''"
    and "\<And>rest. stops rest \<Longrightarrow> scan_number ((c # cs) @ rest) = Inr (v, rest)"
  shows "reads_back indent v"
  unfolding reads_back_def
proof (intro allI impI)
  fix f n rest assume f: "length (dumps indent n v) < f" and "stops rest"
  then obtain g where "f = Suc g" by (cases f) simp_all
  then show "parse_value f (dumps indent n v @ rest) = Inr (v, rest)"
    using assms(3) [OF \<open>stops rest\<close>] parse_number [OF assms(2), of g "cs @ rest"] by (simp add: assms(1))
qed

lemma reads_back_written: "json_ok v \<Longrightarrow> reads_back indent v"
proof (induction v)
  case JNull
  show ?case unfolding reads_back_def by (auto simp: scan_literal_def literal_def gr0_conv_Suc dest!: Suc_lessD less_imp_Suc_add)
next
  case (JBool b)
  show ?case unfolding reads_back_def by (auto simp: scan_literal_def literal_def dest!: less_imp_Suc_add)
next
  case (JInt i)
  obtain c cs where c: "str_int i = c # cs" "is_digit c \<or> c = CHR ''-''" using str_int_first by blast
  show ?case by (rule number_reads_back [OF _ c(2)]) (use c scan_written_int [of _ i] in auto)
next
  case (JFloat x)
  obtain c cs where c: "repr_float x = c # cs" "is_digit c \<or> c = CHR ''-''" using repr_float_first by blast
  show ?case by (rule number_reads_back [OF _ c(2)]) (use c scan_written_float [of x] JFloat in auto)
next
  case (JStr t)
  show ?case
    unfolding reads_back_def
    using scan_written_string [of "[]" t] by (auto simp: json_string_def dest!: less_imp_Suc_add)
next
  case (JList vs)
  have ok: "list_all (reads_back indent) vs" using JList by (auto simp: list_all_iff)
  show ?case
    unfolding reads_back_def
  proof (intro allI impI)
    fix f n rest assume f: "length (dumps indent n (JList vs)) < f" and rest: "stops rest"
    then obtain g where g: "f = Suc g" by (cases f) simp_all
    show "parse_value f (dumps indent n (JList vs) @ rest) = Inr (JList vs, rest)"
    proof (cases "vs = []")
      case True
      then show ?thesis by (simp add: g bracketed_def blank_def)
    next
      case False
      let ?items = "separated (sep indent (Suc n)) (map (dumps indent (Suc n)) vs)"
      have whole: "dumps indent n (JList vs) = CHR ''['' # gap indent (Suc n) @ ?items @ gap indent n @ '']''"
        using False by (simp add: bracketed_def sep_def)
      obtain w ws where w: "vs = w # ws" using False by (cases vs) simp_all
      obtain c cs where c: "dumps indent (Suc n) w = c # cs" "starts c" using dumps_first by blast
      have "\<exists>u. ?items = c # u" using w c by (cases ws) simp_all
      then obtain u where u: "?items = c # u" by blast
      have "parse_items g [] (?items @ gap indent n @ CHR '']'' # rest) = Inr ([] @ vs, rest)"
        by (rule parse_written_items [OF False ok]) (use f g whole in simp)
      then show ?thesis using c(2) unfolding whole by (simp add: g u starts_def)
    qed
  qed
next
  case (JObj kvs)
  have ok: "list_all (\<lambda>kv. reads_back indent (snd kv)) kvs" using JObj by (fastforce simp: list_all_iff)
  show ?case
    unfolding reads_back_def
  proof (intro allI impI)
    fix f n rest assume f: "length (dumps indent n (JObj kvs)) < f" and rest: "stops rest"
    then obtain g where g: "f = Suc g" by (cases f) simp_all
    show "parse_value f (dumps indent n (JObj kvs) @ rest) = Inr (JObj kvs, rest)"
    proof (cases "kvs = []")
      case True
      then show ?thesis by (simp add: g bracketed_def blank_def)
    next
      case False
      let ?items = "separated (sep indent (Suc n)) (map (pair_text indent (Suc n)) kvs)"
      have whole: "dumps indent n (JObj kvs) = CHR ''{'' # gap indent (Suc n) @ ?items @ gap indent n @ ''}''"
        using False by (simp add: bracketed_def sep_def pair_text_def [abs_def])
      obtain w ws where w: "kvs = w # ws" using False by (cases kvs) simp_all
      have "\<exists>u. ?items = CHR 0x22 # u" using w by (cases ws) (simp_all add: pair_text_def json_string_def)
      then obtain u where u: "?items = CHR 0x22 # u" by blast
      have "parse_pairs g [] (?items @ gap indent n @ CHR ''}'' # rest) = Inr ([] @ kvs, rest)"
        by (rule parse_written_pairs [OF False ok]) (use JObj.prems f g whole in simp_all)
      then show ?thesis unfolding whole by (simp add: g u blank_def)
    qed
  qed
qed

lemma loads_dumps:
  assumes "json_ok v"
  shows "loads (dumps indent 0 v) = Inr v"
proof -
  define t where "t = dumps indent 0 v"
  have "parse_value (Suc (length t)) t = Inr (v, [])"
    using reads_backD [OF reads_back_written [OF assms], of indent 0 "Suc (length t)" "[]"] by (simp add: t_def del: parse_value.simps)
  moreover have "skip t = t" using skip_dumps [of indent 0 v "[]"] by (simp only: t_def append_Nil2)
  ultimately have "loads t = Inr v" by (simp add: loads_def del: parse_value.simps)
  then show ?thesis by (simp only: t_def)
qed

subsection \<open>A text on one line\<close>

definition printable :: "char \<Rightarrow> bool" where
  "printable c \<longleftrightarrow> 32 \<le> (of_char c :: nat) \<and> (of_char c :: nat) < 127"

lemma hex_digit_printable: "n < 16 \<Longrightarrow> printable (hex_digit n)"
proof -
  have "list_all (\<lambda>n. printable (hex_digit n)) [0..<16]" by code_simp
  then show "n < 16 \<Longrightarrow> printable (hex_digit n)" by (simp add: list_all_iff)
qed

lemma json_char_printable: "list_all printable (json_char c)"
proof -
  have "(of_char c :: nat) < 256" using of_char_mod_256 [of c, where 'a = nat] by (metis mod_less_divisor zero_less_numeral)
  then have "printable (hex_digit (of_char c div 16))" "printable (hex_digit (of_char c mod 16))"
    by (intro hex_digit_printable; simp add: less_mult_imp_div_less)+
  moreover have "list_all printable ''u00nrtfb''" "printable (CHR 0x5C)" "printable (CHR 0x22)" by code_simp+
  ultimately show ?thesis by (auto simp: json_char_def printable_def)
qed

lemma json_string_printable: "list_all printable (json_string t)"
proof -
  have "list_all printable (concat (map json_char t))" using json_char_printable by (induction t) simp_all
  moreover have "printable (CHR 0x22)" by code_simp
  ultimately show ?thesis by (simp add: json_string_def)
qed

lemma digits_printable: "list_all is_digit t \<Longrightarrow> list_all printable t"
  by (erule list.pred_mono_strong) (auto simp: is_digit_def printable_def Let_def)

lemma separated_printable: "list_all printable u \<Longrightarrow> list_all (list_all printable) ss \<Longrightarrow> list_all printable (separated u ss)"
  by (induction u ss rule: separated.induct) simp_all

lemma dumps_printable: "list_all printable (dumps None n v)"
proof (induction v arbitrary: n)
  case (JInt i)
  have "printable (CHR ''-'')" by code_simp
  then show ?case using digits_printable [OF str_nat_all_digits] by (simp add: str_int_def)
next
  case (JFloat x)
  have "list_all (\<lambda>c. is_digit c \<or> c = CHR ''.'') (fixed_nat (decimals x) m)" for m using fixed_nat_chars by (auto simp: list_all_iff)
  then have "list_all printable (fixed_nat (decimals x) m)" for m
    by (rule list.pred_mono_strong) (auto simp: is_digit_def printable_def Let_def)
  moreover have "printable (CHR ''-'')" by code_simp
  ultimately show ?case by (simp add: repr_float_def)
next
  case (JStr t)
  show ?case by (simp add: json_string_printable)
next
  case (JList vs)
  then have "list_all (list_all printable) (map (dumps None (Suc n)) vs)" by (auto simp: list_all_iff)
  moreover have "list_all printable ''[], ''" by code_simp
  ultimately show ?case by (simp add: bracketed_def gap_def separated_printable)
next
  case (JObj kvs)
  have "list_all printable (dumps None (Suc n) (snd kv))" if "kv \<in> set kvs" for kv
    using JObj that by (cases kv) fastforce
  then have "list_all (list_all printable) (map (\<lambda>kv. json_string (fst kv) @ '': '' @ dumps None (Suc n) (snd kv)) kvs)"
    using json_string_printable by (auto simp: list_all_iff printable_def)
  moreover have "list_all printable ''{}, ''" by code_simp
  ultimately show ?case by (simp add: bracketed_def gap_def separated_printable)
qed (code_simp | simp add: printable_def)+

text \<open>The text of a payload, of which the other theories keep the document.\<close>

fun text_of :: "payload \<Rightarrow> string" where
  "text_of (Json v) = dumps None 0 v"
| "text_of (NotJson s) = s"

section \<open>Property of the texts\<close>



end
