(* ===== verification/Logs.thy ===== *)
theory Logs
  imports Config Json_Text
begin

section \<open>Structured and rate-limited logging: logs.py\<close>

text \<open>
  \<^verbatim>\<open>app/settle/logs.py\<close>: the JSON document of a log line, and the logger that lets at most
  one message per key and interval through and counts the rest. Rendering of the time stamp
  and of a traceback belong to the standard library and arrive as texts.
\<close>

subsection \<open>The JSON document of a record\<close>

record log_record =
  lr_ts :: string
  lr_level :: string
  lr_name :: string
  lr_message :: string
  lr_extra :: dict
  lr_exception :: "string option"

text \<open>The attributes a plain \<open>LogRecord\<close> has, and the two a formatter adds.\<close>

definition RESERVED :: "string list" where
  "RESERVED = [''name'', ''msg'', ''args'', ''levelname'', ''levelno'', ''pathname'', ''filename'', ''module'',
     ''exc_info'', ''exc_text'', ''stack_info'', ''lineno'', ''funcName'', ''created'', ''msecs'', ''relativeCreated'',
     ''thread'', ''threadName'', ''processName'', ''process'', ''taskName'', ''message'', ''asctime'']"

definition extra_key :: "string \<Rightarrow> bool" where
  "extra_key k \<longleftrightarrow> k \<notin> set RESERVED \<and> \<not> prefix_of ''_'' k"

definition last_chars :: "nat \<Rightarrow> string \<Rightarrow> string" where
  "last_chars n s = drop (length s - n) s"

definition format_record ::
  "string \<Rightarrow> string \<Rightarrow> string option \<Rightarrow> int option \<Rightarrow> log_record \<Rightarrow> dict" where
  "format_record service version request_id payout_id record =
     (let doc = [(''ts'', JStr (lr_ts record)), (''level'', JStr (lr_level record)), (''service'', JStr service),
                 (''version'', JStr version), (''logger'', JStr (lr_name record)), (''msg'', JStr (lr_message record))];
          doc1 = (case request_id of
                    Some rid \<Rightarrow> if rid \<noteq> [] then dict_set ''request_id'' (JStr rid) doc else doc
                  | None \<Rightarrow> doc);
          doc2 = (case payout_id of Some pid \<Rightarrow> dict_set ''payout_id'' (JInt pid) doc1 | None \<Rightarrow> doc1);
          doc3 = fold (\<lambda>(k, v) d. dict_set k v d) (filter (\<lambda>(k, v). extra_key k) (lr_extra record)) doc2
      in case lr_exception record of
           Some tb \<Rightarrow> dict_set ''error'' (JStr (last_chars 2000 tb)) doc3
         | None \<Rightarrow> doc3)"

lemma map_of_extras: "map_of (fold (\<lambda>(k, v) d. dict_set k v d) kvs d) k =
    (case map_of (rev kvs) k of Some v \<Rightarrow> Some v | None \<Rightarrow> map_of d k)"
  by (induction kvs arbitrary: d) (auto simp: map_add_def split: option.splits)

lemma last_chars_length: "length (last_chars n s) \<le> n"
  by (simp add: last_chars_def)

text \<open>The context of the line: the request and the payout appear unless an extra of that name hides them.\<close>

lemma format_context:
  assumes "k \<notin> fst ` set (lr_extra record)" and "k \<noteq> ''error''"
  shows "map_of (format_record service version rid pid record) k = map_of
     ([(''ts'', JStr (lr_ts record)), (''level'', JStr (lr_level record)), (''service'', JStr service),
       (''version'', JStr version), (''logger'', JStr (lr_name record)), (''msg'', JStr (lr_message record))]
      @ (case rid of Some r \<Rightarrow> if r \<noteq> [] then [(''request_id'', JStr r)] else [] | None \<Rightarrow> [])
      @ (case pid of Some p \<Rightarrow> [(''payout_id'', JInt p)] | None \<Rightarrow> [])) k"
proof -
  have "map_of (rev (filter (\<lambda>(k, v). extra_key k) (lr_extra record))) k = None"
    using assms(1) by (auto simp: map_of_eq_None_iff)
  note extras = this
  show ?thesis
  proof (cases "lr_exception record")
    case None
    with assms(2) extras show ?thesis
      by (cases rid; cases pid)
         (simp_all add: format_record_def Let_def map_of_extras del: AList.update.simps map_of.simps,
          simp_all)
  next
    case (Some tb)
    with assms(2) extras show ?thesis
      by (cases rid; cases pid)
         (simp_all add: format_record_def Let_def map_of_extras del: AList.update.simps map_of.simps,
          simp_all)
  qed
qed

lemma format_error:
  "lr_exception record = Some tb \<Longrightarrow>
     map_of (format_record service version rid pid record) ''error'' = Some (JStr (last_chars 2000 tb))"
  by (simp add: format_record_def Let_def del: AList.update.simps)

text \<open>The line: the document as a text, which is one line of printable characters.\<close>

definition format_line ::
  "string \<Rightarrow> string \<Rightarrow> string option \<Rightarrow> int option \<Rightarrow> log_record \<Rightarrow> string" where
  "format_line service version request_id payout_id record =
     dumps None 0 (JObj (format_record service version request_id payout_id record))"

lemma format_line_printable: "list_all printable (format_line service version rid pid record)"
  unfolding format_line_def by (rule dumps_printable)

lemma dict_set_distinct: "distinct (map fst d) \<Longrightarrow> distinct (map fst (dict_set k v d))"
  by (simp add: distinct_update)

lemma dict_set_ok: "list_all (\<lambda>kv. json_ok (snd kv)) d \<Longrightarrow> json_ok v \<Longrightarrow> list_all (\<lambda>kv. json_ok (snd kv)) (dict_set k v d)"
  by (induction d) auto

lemma dict_set_json_ok: "json_ok (JObj d) \<Longrightarrow> json_ok v \<Longrightarrow> json_ok (JObj (dict_set k v d))"
  by (simp add: dict_set_distinct dict_set_ok)

lemma extras_json_ok:
  "json_ok (JObj d) \<Longrightarrow> list_all (\<lambda>kv. json_ok (snd kv)) kvs \<Longrightarrow> json_ok (JObj (fold (\<lambda>(k, v) d. dict_set k v d) kvs d))"
proof (induction kvs arbitrary: d)
  case (Cons kv kvs)
  have "json_ok (JObj (dict_set (fst kv) (snd kv) d))" by (rule dict_set_json_ok) (use Cons.prems in simp_all)
  from Cons.IH [OF this] Cons.prems(2) show ?case by (simp add: case_prod_beta)
qed simp

lemma format_record_json_ok:
  assumes "list_all (\<lambda>kv. json_ok (snd kv)) (lr_extra record)"
  shows "json_ok (JObj (format_record service version rid pid record))"
proof -
  define d where "d = [(''ts'', JStr (lr_ts record)), (''level'', JStr (lr_level record)), (''service'', JStr service),
      (''version'', JStr version), (''logger'', JStr (lr_name record)), (''msg'', JStr (lr_message record))]"
  define d1 where "d1 = (case rid of Some r \<Rightarrow> if r \<noteq> [] then dict_set ''request_id'' (JStr r) d else d | None \<Rightarrow> d)"
  define d2 where "d2 = (case pid of Some p \<Rightarrow> dict_set ''payout_id'' (JInt p) d1 | None \<Rightarrow> d1)"
  define d3 where "d3 = fold (\<lambda>(k, v) d. dict_set k v d) (filter (\<lambda>(k, v). extra_key k) (lr_extra record)) d2"
  have "json_ok (JObj d)" by (simp add: d_def)
  then have "json_ok (JObj d1)" by (auto simp: d1_def intro: dict_set_json_ok split: option.split simp del: json_ok.simps(3))
  then have "json_ok (JObj d2)" by (auto simp: d2_def intro: dict_set_json_ok split: option.split simp del: json_ok.simps(3))
  then have "json_ok (JObj d3)" unfolding d3_def by (rule extras_json_ok) (use assms in \<open>auto simp: list_all_iff\<close>)
  moreover have "format_record service version rid pid record =
      (case lr_exception record of Some tb \<Rightarrow> dict_set ''error'' (JStr (last_chars 2000 tb)) d3 | None \<Rightarrow> d3)"
    unfolding format_record_def d3_def d2_def d1_def d_def Let_def ..
  ultimately show ?thesis by (auto intro: dict_set_json_ok split: option.split simp del: json_ok.simps(3))
qed

subsection \<open>Set-up of the loggers\<close>

text \<open>
  The loggers of the process by name, the root with the empty name. A handler writes JSON lines of
  a service or is one that another library installed.
\<close>

datatype handler = Json_lines string | Foreign string

record logger =
  lg_handlers :: "handler list"
  lg_level :: string
  lg_disabled :: bool
  lg_propagate :: bool

type_synonym loggers = "string \<Rightarrow> logger"

definition change :: "(logger \<Rightarrow> logger) \<Rightarrow> string \<Rightarrow> loggers \<Rightarrow> loggers" where
  "change f name ls = ls(name := f (ls name))"

definition setup_logging :: "config \<Rightarrow> string \<Rightarrow> loggers \<Rightarrow> loggers" where
  "setup_logging c service ls =
     (let ls1 = change (\<lambda>l. l\<lparr>lg_handlers := [Json_lines service], lg_level := LOG_LEVEL c\<rparr>) [] ls;
          ls2 = fold (change (\<lambda>l. l\<lparr>lg_disabled := True\<rparr>)) [''uvicorn.access'', ''gunicorn.access''] ls1
      in fold (change (\<lambda>l. l\<lparr>lg_handlers := [], lg_propagate := True\<rparr>)) [''uvicorn'', ''uvicorn.error'', ''gunicorn.error''] ls2)"

text \<open>
  The handlers that a record of a logger reaches, as \<open>callHandlers\<close> finds them: those of the logger
  and, while it propagates, of its parents; \<open>path\<close> is the logger and its parents.
\<close>

fun handlers_on :: "loggers \<Rightarrow> string list \<Rightarrow> handler list" where
  "handlers_on ls [] = []"
| "handlers_on ls (name # path) =
     lg_handlers (ls name) @ (if lg_propagate (ls name) then handlers_on ls path else [])"

definition written_by :: "loggers \<Rightarrow> string list \<Rightarrow> handler list" where
  "written_by ls path = (if path \<noteq> [] \<and> lg_disabled (ls (hd path)) then [] else handlers_on ls path)"

text \<open>After \<open>setup\<close> the error loggers of the servers write through the one JSON handler, the access loggers not at all.\<close>

lemma setup_one_handler:
  "written_by (setup_logging c service ls) [''uvicorn.access'', ''uvicorn'', []] = []"
  "written_by (setup_logging c service ls) [''gunicorn.access'', ''gunicorn'', []] = []"
  "\<not> lg_disabled (ls ''uvicorn.error'') \<Longrightarrow>
     written_by (setup_logging c service ls) [''uvicorn.error'', ''uvicorn'', []] = Json_lines service # (if lg_propagate (ls []) then [] else [])"
  by (simp_all add: setup_logging_def change_def written_by_def)

subsection \<open>Rate limiting\<close>

record limiter =
  lm_last :: "string \<rightharpoonup> real"
  lm_suppressed :: "string \<rightharpoonup> nat"

definition new_limiter :: limiter where
  "new_limiter = \<lparr>lm_last = Map.empty, lm_suppressed = Map.empty\<rparr>"

definition get_or :: "('k \<rightharpoonup> 'v) \<Rightarrow> 'k \<Rightarrow> 'v \<Rightarrow> 'v" where
  "get_or m k d = (case m k of None \<Rightarrow> d | Some v \<Rightarrow> v)"

text \<open>\<open>Some n\<close>: the message is logged, with \<open>n\<close> messages suppressed since the last one.\<close>

definition limited_log :: "real \<Rightarrow> real \<Rightarrow> string \<Rightarrow> limiter \<Rightarrow> nat option \<times> limiter" where
  "limited_log interval now key st =
     (if now - get_or (lm_last st) key 0 \<ge> interval
      then (Some (get_or (lm_suppressed st) key 0),
            st\<lparr>lm_suppressed := (lm_suppressed st)(key := None), lm_last := (lm_last st)(key \<mapsto> now)\<rparr>)
      else (None, st\<lparr>lm_suppressed := (lm_suppressed st)(key \<mapsto> get_or (lm_suppressed st) key 0 + 1)\<rparr>))"

text \<open>A sequence of calls; the result lists the logged messages: time, key, count.\<close>

fun limited_run :: "real \<Rightarrow> (real \<times> string) list \<Rightarrow> limiter \<Rightarrow> (real \<times> string \<times> nat) list \<times> limiter" where
  "limited_run interval [] st = ([], st)"
| "limited_run interval ((now, key) # calls) st =
     (let (out, st1) = limited_log interval now key st;
          (logged, st2) = limited_run interval calls st1
      in (case out of None \<Rightarrow> logged | Some n \<Rightarrow> (now, key, n) # logged, st2))"

text \<open>Nothing is lost from the count: every call is logged, reported as suppressed, or pending.\<close>

lemma limited_run_count:
  assumes "limited_run interval calls st = (logged, st')"
  shows "length (filter (\<lambda>c. snd c = key) calls) + get_or (lm_suppressed st) key 0 =
     length (filter (\<lambda>(t, k, n). k = key) logged) + sum_list (map (\<lambda>(t, k, n). if k = key then n else 0) logged)
     + get_or (lm_suppressed st') key 0"
  using assms
proof (induction calls arbitrary: st logged st')
  case (Cons c calls)
  obtain now k where c: "c = (now, k)" by (cases c)
  obtain out st1 where o: "limited_log interval now k st = (out, st1)" by fastforce
  obtain logged1 st2 where r: "limited_run interval calls st1 = (logged1, st2)" by fastforce
  from Cons.prems c o r have eqs: "st' = st2" "logged = (case out of None \<Rightarrow> logged1 | Some n \<Rightarrow> (now, k, n) # logged1)"
    by auto
  from Cons.IH [OF r] o show ?case unfolding eqs c
    by (auto simp: limited_log_def get_or_def split: if_splits option.splits)
qed simp

text \<open>Two logged messages of one key are at least an interval apart.\<close>

lemma limited_run_last:
  assumes "limited_run interval calls st = (logged, st')" and "(t, key, n) \<in> set logged"
    and "sorted (map fst calls)" and "lm_last st key = Some t0" and "\<forall>c \<in> set calls. t0 \<le> fst c" and "0 \<le> interval"
  shows "t0 + interval \<le> t"
  using assms
proof (induction calls arbitrary: st logged st' t0)
  case (Cons c calls)
  obtain now k where c: "c = (now, k)" by (cases c)
  obtain out st1 where o: "limited_log interval now k st = (out, st1)" by fastforce
  obtain logged1 st2 where r: "limited_run interval calls st1 = (logged1, st2)" by fastforce
  from Cons.prems(1) c o r have lg: "logged = (case out of None \<Rightarrow> logged1 | Some n \<Rightarrow> (now, k, n) # logged1)" by auto
  have t0: "t0 \<le> now" using Cons.prems(5) c by simp
  have fired: "t0 + interval \<le> now" if "out \<noteq> None" "k = key"
    using o that Cons.prems(4) by (auto simp: limited_log_def get_or_def split: if_splits)
  have later: "\<forall>x \<in> set calls. now \<le> fst x" and sorted: "sorted (map fst calls)"
    using Cons.prems(3) c by auto
  show ?case
  proof (cases "out \<noteq> None \<and> k = key")
    case True
    then have "lm_last st1 key = Some now" using o by (auto simp: limited_log_def split: if_splits)
    from Cons.IH [OF r _ sorted this later Cons.prems(6)] fired True Cons.prems(2,6) lg show ?thesis
      by (auto split: option.splits)
  next
    case False
    then have "lm_last st1 key = Some t0" using o Cons.prems(4)
      by (auto simp: limited_log_def split: if_splits)
    moreover have "(t, key, n) \<in> set logged1" using False lg Cons.prems(2) by (auto split: option.splits)
    moreover have "\<forall>x \<in> set calls. t0 \<le> fst x" using later t0 by auto
    ultimately show ?thesis using Cons.IH [OF r _ sorted _ _ Cons.prems(6)] by blast
  qed
qed simp

lemma limited_run_spaced:
  assumes "limited_run interval calls st = (logged, st')" and "sorted (map fst calls)" and "0 \<le> interval"
  shows "sorted_wrt (\<lambda>(t, k, n) (t', k', n'). k = k' \<longrightarrow> t + interval \<le> t') logged"
  using assms
proof (induction calls arbitrary: st logged st')
  case (Cons c calls)
  obtain now k where c: "c = (now, k)" by (cases c)
  obtain out st1 where o: "limited_log interval now k st = (out, st1)" by fastforce
  obtain logged1 st2 where r: "limited_run interval calls st1 = (logged1, st2)" by fastforce
  from Cons.prems(1) c o r have lg: "logged = (case out of None \<Rightarrow> logged1 | Some n \<Rightarrow> (now, k, n) # logged1)" by auto
  have later: "\<forall>x \<in> set calls. now \<le> fst x" and sorted: "sorted (map fst calls)"
    using Cons.prems(2) c by auto
  note IH = Cons.IH [OF r sorted Cons.prems(3)]
  show ?case
  proof (cases out)
    case (Some n)
    then have "lm_last st1 k = Some now" using o by (auto simp: limited_log_def split: if_splits)
    from limited_run_last [OF r _ sorted this later Cons.prems(3)] IH lg Some show ?thesis by auto
  qed (use IH lg in simp)
qed simp

section \<open>Property of the rate limiter\<close>

text \<open>C28. The rate limiter keeps its two promises on any sequence of calls in the order of time: two
  logged messages of one key are at least an interval apart, and no call is forgotten, since the
  calls of a key are the logged ones, the ones reported as suppressed, and those still pending.\<close>

theorem limiter_keeps_count:
  assumes "limited_run interval calls new_limiter = (logged, st')" and "sorted (map fst calls)" and "0 \<le> interval"
  shows "sorted_wrt (\<lambda>(t, k, n) (t', k', n'). k = k' \<longrightarrow> t + interval \<le> t') logged
    \<and> (\<forall>key. length (filter (\<lambda>c. snd c = key) calls) =
         length (filter (\<lambda>(t, k, n). k = key) logged) + sum_list (map (\<lambda>(t, k, n). if k = key then n else 0) logged)
         + get_or (lm_suppressed st') key 0)"
  using limited_run_spaced [OF assms] limited_run_count [OF assms(1)] by (simp add: new_limiter_def get_or_def)

theorem limiter_keeps_count_witness:
  "\<exists>logged st'. limited_run 30 [(40, ''fetch''), (45, ''fetch''), (80, ''fetch'')] new_limiter = (logged, st')
     \<and> 3 = length (filter (\<lambda>(t, k, n). k = ''fetch'') logged)
         + sum_list (map (\<lambda>(t, k, n). if k = ''fetch'' then n else 0) logged) + get_or (lm_suppressed st') ''fetch'' 0"
proof -
  obtain logged st' where r: "limited_run 30 [(40, ''fetch''), (45, ''fetch''), (80, ''fetch'')] new_limiter = (logged, st')"
    by fastforce
  from limiter_keeps_count [OF r, THEN conjunct2, rule_format, of "''fetch''"] r show ?thesis
    by (intro exI [of _ logged] exI [of _ st']) simp
qed

end
