(* ===== verification/Migrate.thy ===== *)
theory Migrate
  imports Config
begin

section \<open>The migration runner: migrate.py\<close>

text \<open>
  \<^verbatim>\<open>app/settle/migrate.py\<close>: splitting a file into statements, the pending files, applying
  one file in a transaction or statement by statement, the retries on a lock timeout, the
  advisory lock and the exit code of a run. What one SQL statement does to the schema is an
  argument \<open>exec\<close> (its first argument numbers the attempt, so that a lock may be free later);
  the table \<open>schema_migrations\<close> is part of the state.
\<close>

subsection \<open>Splitting a file into statements\<close>

text \<open>\<open>re.match(r"\$[A-Za-z_]*\$", ..)\<close>: the tag with both dollars.\<close>

definition tag_char :: "char \<Rightarrow> bool" where
  "tag_char c \<longleftrightarrow> (let n = (of_char c :: nat) in 65 \<le> n \<and> n \<le> 90 \<or> 97 \<le> n \<and> n \<le> 122 \<or> n = 95)"

definition dollar_tag :: "string \<Rightarrow> string option" where
  "dollar_tag s =
     (case s of
        c # t \<Rightarrow>
          (if c = CHR ''$'' then
             (case dropWhile tag_char t of
                d # _ \<Rightarrow> if d = CHR ''$'' then Some (c # takeWhile tag_char t @ [d]) else None
              | [] \<Rightarrow> None)
           else None)
      | [] \<Rightarrow> None)"

definition newline :: char where "newline = CHR 10"
definition quote :: char where "quote = CHR 39"

definition emit :: "string \<Rightarrow> string list \<Rightarrow> string list" where
  "emit buf out = (let stmt = strip buf in if stmt \<noteq> [] then out @ [stmt] else out)"

text \<open>
  The loop over the rest of the text: \<open>dollar\<close> is the tag of the open dollar-quoted body.
  A comment is dropped with its newline; a quote without an end takes the whole rest.
\<close>

lemma dollar_tag_prefix: "dollar_tag s = Some t \<Longrightarrow> prefix_of t s \<and> t \<noteq> []"
proof -
  assume "dollar_tag s = Some t"
  then obtain u d v where s: "s = CHR ''$'' # u" "dropWhile tag_char u = d # v" "d = CHR ''$''"
      "t = CHR ''$'' # takeWhile tag_char u @ [d]"
    by (auto simp: dollar_tag_def split: list.splits if_splits)
  have "u = takeWhile tag_char u @ d # v" using s(2) by (metis takeWhile_dropWhile_id)
  then have "s = t @ v" using s(1,4) by simp
  with s(4) show ?thesis by (simp add: prefix_of_iff)
qed

lemma after_first_shorter: "length (dropWhile P s) - Suc 0 \<le> length s"
  using length_dropWhile_le [of P s] by linarith

lemma after_first_shorter_Cons: "length (dropWhile P (c # s)) - Suc 0 \<le> length s"
  using length_dropWhile_le [of P "c # s"] by simp

function (sequential) split_loop :: "string option \<Rightarrow> string \<Rightarrow> string list \<Rightarrow> string \<Rightarrow> string list \<times> string" where
  "split_loop dollar buf out [] = (out, buf)"
| "split_loop (Some d) buf out (c # s) =
     (if d \<noteq> [] \<and> prefix_of d (c # s) then split_loop None (buf @ d) out (drop (length d) (c # s))
      else split_loop (Some d) (buf @ [c]) out s)"
| "split_loop None buf out (c # s) =
     (if prefix_of ''--'' (c # s) then split_loop None buf out (drop 1 (dropWhile (\<lambda>x. x \<noteq> newline) (c # s)))
      else if c = quote then
        split_loop None (buf @ c # takeWhile (\<lambda>x. x \<noteq> quote) s @ take 1 (dropWhile (\<lambda>x. x \<noteq> quote) s)) out
          (drop 1 (dropWhile (\<lambda>x. x \<noteq> quote) s))
      else case dollar_tag (c # s) of
        Some t \<Rightarrow> split_loop (Some t) (buf @ t) out (drop (length t) (c # s))
      | None \<Rightarrow>
          (if c = CHR '';'' then split_loop None [] (emit buf out) s
           else split_loop None (buf @ [c]) out s))"
  by pat_completeness auto
termination
  by (relation "measure (\<lambda>(dollar, buf, out, s). length s)")
     (auto simp: le_imp_less_Suc after_first_shorter after_first_shorter_Cons dest: dollar_tag_prefix)

definition split_statements :: "string \<Rightarrow> string list" where
  "split_statements sql = (case split_loop None [] [] sql of (out, buf) \<Rightarrow> emit buf out)"

subsection \<open>The database as the runner sees it\<close>

record 's mig_db =
  schema :: 's
  versions :: "string list"

record migration =
  mg_name :: string
  mg_sql :: string

definition version_of :: "migration \<Rightarrow> string" where
  "version_of f = take 4 (mg_name f)"

definition pending :: "'s mig_db \<Rightarrow> migration list \<Rightarrow> migration list \<times> string list" where
  "pending d files = (filter (\<lambda>f. version_of f \<notin> set (versions d)) files, versions d)"

definition record_version :: "string \<Rightarrow> 's mig_db \<Rightarrow> 's mig_db" where
  "record_version v d = (if v \<in> set (versions d) then d else d\<lparr>versions := versions d @ [v]\<rparr>)"

text \<open>The statements one after the other; the first error stops, what was done stays done.\<close>

fun exec_all :: "(string \<Rightarrow> 's \<Rightarrow> unit res \<times> 's) \<Rightarrow> string list \<Rightarrow> 's \<Rightarrow> unit res \<times> 's" where
  "exec_all ex [] s = (Inr (), s)"
| "exec_all ex (q # qs) s =
     (case ex q s of (Inl e, s') \<Rightarrow> (Inl e, s') | (Inr _, s') \<Rightarrow> exec_all ex qs s')"

definition NO_TX :: string where "NO_TX = ''-- migrate:no-transaction''"

definition no_transaction :: "migration \<Rightarrow> bool" where
  "no_transaction f \<longleftrightarrow> prefix_of NO_TX (lstrip (mg_sql f))"

definition upper_char :: "char \<Rightarrow> char" where
  "upper_char c = (let n = (of_char c :: nat) in if 97 \<le> n \<and> n \<le> 122 then char_of (n - 32) else c)"

definition is_begin_commit :: "string \<Rightarrow> bool" where
  "is_begin_commit stmt \<longleftrightarrow> map upper_char stmt = ''BEGIN'' \<or> map upper_char stmt = ''COMMIT''"

text \<open>
  \<open>invalid s\<close> lists the invalid concurrent indexes of a schema, as the catalog query returns
  them. In the transactional case an error rolls everything back.
\<close>

definition drop_invalid_indexes ::
  "('s \<Rightarrow> string list) \<Rightarrow> (string \<Rightarrow> 's \<Rightarrow> unit res \<times> 's) \<Rightarrow> 's \<Rightarrow> unit res \<times> 's" where
  "drop_invalid_indexes invalid ex s =
     exec_all ex (map (\<lambda>name. ''DROP INDEX CONCURRENTLY IF EXISTS '' @ CHR 34 # name @ [CHR 34]) (invalid s)) s"

definition apply_file ::
  "('s \<Rightarrow> string list) \<Rightarrow> (string \<Rightarrow> 's \<Rightarrow> unit res \<times> 's) \<Rightarrow> migration \<Rightarrow> 's mig_db \<Rightarrow> unit res \<times> 's mig_db" where
  "apply_file invalid ex f d =
     (let v = version_of f
      in if no_transaction f then
           (case drop_invalid_indexes invalid ex (schema d) of
              (Inl e, s) \<Rightarrow> (Inl e, d\<lparr>schema := s\<rparr>)
            | (Inr _, s) \<Rightarrow>
                (case exec_all ex (split_statements (mg_sql f)) s of
                   (Inl e, s') \<Rightarrow> (Inl e, d\<lparr>schema := s'\<rparr>)
                 | (Inr _, s') \<Rightarrow> (Inr (), record_version v (d\<lparr>schema := s'\<rparr>))))
         else
           transaction Done (\<lambda>d.
             (case exec_all ex (filter (\<lambda>q. \<not> is_begin_commit q) (split_statements (mg_sql f))) (schema d) of
                (Inl e, s) \<Rightarrow> (Inl e, d\<lparr>schema := s\<rparr>)
              | (Inr _, s) \<Rightarrow> (Inr (), record_version v (d\<lparr>schema := s\<rparr>)))) d)"

subsection \<open>Connecting\<close>

text \<open>
  \<open>connects i\<close>: attempt \<open>i\<close> succeeds; \<open>clock i\<close>: the monotonic clock after its failure. The
  result is the attempt that succeeded, or \<open>Inl\<close> for the exception that is raised when the next
  sleep would pass the deadline; \<open>None\<close> is running out of fuel.
\<close>

fun connect_loop :: "nat \<Rightarrow> (nat \<Rightarrow> bool) \<Rightarrow> (nat \<Rightarrow> real) \<Rightarrow> real \<Rightarrow> real \<Rightarrow> nat \<Rightarrow> nat res option" where
  "connect_loop 0 connects clock deadline delay i = None"
| "connect_loop (Suc fuel) connects clock deadline delay i =
     (if connects i then Some (Inr i)
      else if clock i + delay > deadline then Some (Inl (OperationalError ''connection failed''))
      else connect_loop fuel connects clock deadline (min (delay * 2) 15) (Suc i))"

definition connect_with_retry :: "nat \<Rightarrow> (nat \<Rightarrow> bool) \<Rightarrow> (nat \<Rightarrow> real) \<Rightarrow> real \<Rightarrow> real \<Rightarrow> nat res option" where
  "connect_with_retry fuel connects clock now deadline_s = connect_loop fuel connects clock (now + deadline_s) 1 0"

subsection \<open>A run\<close>

definition LOCK_NOT_AVAILABLE :: string where "LOCK_NOT_AVAILABLE = ''55P03''"

text \<open>An error of the driver carries its SQLSTATE.\<close>

fun sqlstate :: "exn \<Rightarrow> string option" where
  "sqlstate (DBAPIError s) = Some s"
| "sqlstate (OperationalError s) = Some s"
| "sqlstate _ = None"

text \<open>
  \<open>for attempt in range(1, attempts + 1)\<close>: \<open>True\<close> when the file was applied, with the sleeps
  \<open>2 ** attempt\<close> on the way.
\<close>

fun apply_attempts ::
  "('s \<Rightarrow> string list) \<Rightarrow> (nat \<Rightarrow> string \<Rightarrow> 's \<Rightarrow> unit res \<times> 's) \<Rightarrow> migration \<Rightarrow> nat \<Rightarrow> nat \<Rightarrow> nat list \<Rightarrow> 's mig_db
    \<Rightarrow> bool \<times> nat list \<times> 's mig_db" where
  "apply_attempts invalid ex f 0 attempt slept d = (True, slept, d)"
| "apply_attempts invalid ex f (Suc left) attempt slept d =
     (case apply_file invalid (ex attempt) f d of
        (Inr _, d') \<Rightarrow> (True, slept, d')
      | (Inl e, d') \<Rightarrow>
          (if sqlstate e = Some LOCK_NOT_AVAILABLE \<and> left \<noteq> 0
           then apply_attempts invalid ex f left (attempt + 1) (slept @ [2 ^ attempt]) d'
           else (False, slept, d')))"

fun apply_todo ::
  "('s \<Rightarrow> string list) \<Rightarrow> (string \<Rightarrow> nat \<Rightarrow> string \<Rightarrow> 's \<Rightarrow> unit res \<times> 's) \<Rightarrow> nat \<Rightarrow> migration list \<Rightarrow> 's mig_db \<Rightarrow> int \<times> 's mig_db" where
  "apply_todo invalid ex attempts [] d = (0, d)"
| "apply_todo invalid ex attempts (f # fs) d =
     (case apply_attempts invalid (ex (mg_name f)) f attempts 1 [] d of
        (True, _, d') \<Rightarrow> apply_todo invalid ex attempts fs d'
      | (False, _, d') \<Rightarrow> (1, d'))"

text \<open>
  The wait for the advisory lock: \<open>free i\<close>: the \<open>i\<close>-th \<open>pg_try_advisory_lock\<close> succeeds,
  \<open>clock i\<close>: the clock after it. \<open>Some True\<close> holds the lock.
\<close>

fun lock_wait :: "nat \<Rightarrow> (nat \<Rightarrow> bool) \<Rightarrow> (nat \<Rightarrow> real) \<Rightarrow> real \<Rightarrow> nat \<Rightarrow> bool option" where
  "lock_wait 0 free clock deadline i = None"
| "lock_wait (Suc fuel) free clock deadline i =
     (if free i then Some True
      else if clock i > deadline then Some False
      else lock_wait fuel free clock deadline (Suc i))"

text \<open>
  The exit code and the database. The files come sorted by name. \<open>other\<close> is what the runner
  that held the lock before did to the database meanwhile; the second \<open>pending\<close> sees it.
\<close>

definition run ::
  "('s \<Rightarrow> string list) \<Rightarrow> (string \<Rightarrow> nat \<Rightarrow> string \<Rightarrow> 's \<Rightarrow> unit res \<times> 's) \<Rightarrow> bool \<Rightarrow> nat
    \<Rightarrow> nat \<Rightarrow> (nat \<Rightarrow> bool) \<Rightarrow> (nat \<Rightarrow> real) \<Rightarrow> real \<Rightarrow> ('s mig_db \<Rightarrow> 's mig_db) \<Rightarrow> migration list \<Rightarrow> 's mig_db
    \<Rightarrow> (int \<times> 's mig_db) option" where
  "run invalid ex status_only attempts fuel free clock now other files d =
     (let (todo, applied) = pending d files
      in if status_only then Some (if todo \<noteq> [] then 3 else 0, d)
         else case lock_wait fuel free clock (now + 120) 0 of
           None \<Rightarrow> None
         | Some False \<Rightarrow> Some (1, other d)
         | Some True \<Rightarrow>
             (let d1 = other d; (todo, _) = pending d1 files
              in Some (apply_todo invalid ex attempts todo d1)))"

text \<open>\<open>dsn()\<close>: the SQLAlchemy driver suffix is removed from the URL.\<close>

function replace_all :: "string \<Rightarrow> string \<Rightarrow> string \<Rightarrow> string" where
  "replace_all old new s =
     (case s of
        [] \<Rightarrow> []
      | c # t \<Rightarrow> if old \<noteq> [] \<and> prefix_of old s then new @ replace_all old new (drop (length old) s)
                else c # replace_all old new t)"
  by pat_completeness auto
termination
  by (relation "measure (\<lambda>(old, new, s). length s)") auto

declare replace_all.simps [simp del]

definition dsn :: "config \<Rightarrow> string" where
  "dsn c = replace_all ''postgresql+psycopg://'' ''postgresql://'' (DATABASE_URL c)"

end
