(* ===== verification/Migrate_Correct.thy ===== *)
theory Migrate_Correct
  imports Migrate
begin

section \<open>The migration runner: the splitter against a token grammar, atomicity, progress\<close>

text \<open>
  The splitter agrees with a reference that works on tokens (characters, quoted strings,
  dollar-quoted bodies, line comments, semicolons); what it emits is never blank. A file is
  applied as a whole or leaves the database as it was, unless it asks for no transaction; a
  version is recorded exactly when its file succeeded; a run applies the pending files in
  order and stops at the first failure; every loop ends.
\<close>

subsection \<open>strip\<close>

lemma strip_strip [simp]: "strip (strip s) = strip s"
proof -
  define u where "u = lstrip s"
  have split: "u = strip s @ rev (takeWhile py_space (rev u))"
  proof -
    have "rev u = takeWhile py_space (rev u) @ dropWhile py_space (rev u)" by simp
    then have "u = rev (dropWhile py_space (rev u)) @ rev (takeWhile py_space (rev u))"
      by (metis rev_append rev_rev_ident)
    then show ?thesis by (simp add: strip_def u_def lstrip_def)
  qed
  have "lstrip (strip s) = strip s"
  proof (cases "strip s")
    case (Cons c cs)
    with split have "u = c # (cs @ rev (takeWhile py_space (rev u)))" by simp
    then have "\<not> py_space c" unfolding u_def lstrip_def by (metis hd_dropWhile list.distinct(1) list.sel(1))
    with Cons show ?thesis by (simp add: lstrip_def)
  qed (simp add: lstrip_def)
  moreover have "lstrip (rev (strip s)) = rev (strip s)" by (simp add: strip_def lstrip_def)
  ultimately show ?thesis by (simp add: strip_def [of "strip s"])
qed

subsection \<open>The splitter\<close>

datatype token = Sym char | Quoted string | Body string string | Remark string | Semi

definition tag_of :: "string \<Rightarrow> string" where
  "tag_of t = CHR ''$'' # t @ ''$''"

fun render :: "token \<Rightarrow> string" where
  "render (Sym c) = [c]"
| "render (Quoted q) = quote # q @ [quote]"
| "render (Body t b) = tag_of t @ b @ tag_of t"
| "render (Remark r) = ''--'' @ r @ [newline]"
| "render Semi = '';''"

abbreviation render_all :: "token list \<Rightarrow> string" where
  "render_all ts \<equiv> concat (map render ts)"

fun token_ok :: "token \<Rightarrow> string \<Rightarrow> bool" where
  "token_ok (Sym c) rest \<longleftrightarrow> c \<noteq> quote \<and> c \<noteq> CHR '';'' \<and> \<not> prefix_of ''--'' (c # rest) \<and> dollar_tag (c # rest) = None"
| "token_ok (Quoted q) rest \<longleftrightarrow> quote \<notin> set q"
| "token_ok (Body t b) rest \<longleftrightarrow> (\<forall>c \<in> set t. tag_char c) \<and> (\<forall>i < length b. \<not> prefix_of (tag_of t) (drop i (b @ tag_of t)))"
| "token_ok (Remark r) rest \<longleftrightarrow> newline \<notin> set r"
| "token_ok Semi rest \<longleftrightarrow> True"

fun tokens_ok :: "token list \<Rightarrow> bool" where
  "tokens_ok [] = True"
| "tokens_ok (t # ts) = (token_ok t (render_all ts) \<and> tokens_ok ts)"

text \<open>The reference: semicolon tokens end a statement, comments vanish, the rest is kept.\<close>

fun split_ref :: "string \<Rightarrow> string list \<Rightarrow> token list \<Rightarrow> string list \<times> string" where
  "split_ref buf out [] = (out, buf)"
| "split_ref buf out (Semi # ts) = split_ref [] (emit buf out) ts"
| "split_ref buf out (Remark r # ts) = split_ref buf out ts"
| "split_ref buf out (t # ts) = split_ref (buf @ render t) out ts"

lemma split_body:
  assumes "d \<noteq> []" and "\<forall>i < length b. \<not> prefix_of d (drop i (b @ d))"
  shows "split_loop (Some d) buf out (b @ d @ rest) = split_loop None (buf @ b @ d) out rest"
  using assms
proof (induction b arbitrary: buf)
  case Nil
  then obtain c d' where d: "d = c # d'" by (cases d) auto
  show ?case using prefix_of_append [of d rest] by (simp add: d)
next
  case (Cons c b)
  have "\<not> prefix_of d (c # b @ d)" using Cons.prems(2) by (auto dest: spec [of _ 0])
  then have "\<not> prefix_of d ((c # b @ d) @ rest)" using prefix_of_long [of d "c # b @ d" rest] by simp
  then have np: "\<not> prefix_of d (c # b @ d @ rest)" by simp
  have "\<forall>i < length b. \<not> prefix_of d (drop i (b @ d))" using Cons.prems(2) by (auto dest: spec [of _ "Suc _"])
  from Cons.IH [OF Cons.prems(1) this, of "buf @ [c]"] np show ?case by simp
qed

lemma tag_char_dollar: "\<not> tag_char (CHR ''$'')"
  by (simp add: tag_char_def)

lemma dollar_tag_of: "\<forall>c \<in> set t. tag_char c \<Longrightarrow> dollar_tag (tag_of t @ rest) = Some (tag_of t)"
  by (simp add: dollar_tag_def tag_of_def tag_char_dollar dropWhile_append2 takeWhile_append2)

lemma dropWhile_upto: "x \<notin> set r \<Longrightarrow> dropWhile (\<lambda>c. c \<noteq> x) (r @ x # rest) = x # rest"
  by (induction r) auto

lemma takeWhile_upto: "x \<notin> set r \<Longrightarrow> takeWhile (\<lambda>c. c \<noteq> x) (r @ x # rest) = r"
  by (induction r) auto

lemma special_chars [simp]:
  "quote \<noteq> CHR ''-''" "CHR ''-'' \<noteq> quote" "newline \<noteq> CHR ''-''" "CHR ''-'' \<noteq> newline"
  "CHR '';'' \<noteq> quote" "quote \<noteq> CHR '';''" "CHR ''$'' \<noteq> quote" "quote \<noteq> CHR ''$''"
  by (simp_all add: quote_def newline_def)

lemma dollar_tag_other: "c \<noteq> CHR ''$'' \<Longrightarrow> dollar_tag (c # s) = None"
  by (simp add: dollar_tag_def)

lemma split_loop_tokens: "tokens_ok ts \<Longrightarrow> split_loop None buf out (render_all ts) = split_ref buf out ts"
proof (induction ts arbitrary: buf out)
  case (Cons t ts)
  note IH = Cons.IH
  have ok: "token_ok t (render_all ts)" and ts: "tokens_ok ts" using Cons.prems by auto
  show ?case
  proof (cases t)
    case (Sym c)
    with ok have "\<not> prefix_of ''--'' (c # render_all ts)" "c \<noteq> quote" "c \<noteq> CHR '';''"
        "dollar_tag (c # render_all ts) = None" by simp_all
    then have "split_loop None buf out (c # render_all ts) = split_loop None (buf @ [c]) out (render_all ts)"
      by (simp del: prefix_of.simps)
    with Sym IH [OF ts] show ?thesis by simp
  next
    case (Quoted q)
    with ok have q: "quote \<notin> set q" by simp
    have "prefix_of ''--'' (quote # s) = False" for s by simp
    then show ?thesis
      using IH [OF ts] Quoted dropWhile_upto [OF q] takeWhile_upto [OF q] by simp
  next
    case (Body tg b)
    with ok have tg: "\<forall>c \<in> set tg. tag_char c" and b: "\<forall>i < length b. \<not> prefix_of (tag_of tg) (drop i (b @ tag_of tg))"
      by auto
    obtain s where s: "render_all (t # ts) = CHR ''$'' # s" "CHR ''$'' # s = tag_of tg @ b @ tag_of tg @ render_all ts"
      using Body by (simp add: tag_of_def)
    have "dollar_tag (CHR ''$'' # s) = Some (tag_of tg)" unfolding s(2) by (rule dollar_tag_of [OF tg])
    then have "split_loop None buf out (CHR ''$'' # s) =
        split_loop (Some (tag_of tg)) (buf @ tag_of tg) out (drop (length (tag_of tg)) (CHR ''$'' # s))" by simp
    also have "\<dots> = split_loop (Some (tag_of tg)) (buf @ tag_of tg) out (b @ tag_of tg @ render_all ts)"
      unfolding s(2) by simp
    also have "\<dots> = split_loop None ((buf @ tag_of tg) @ b @ tag_of tg) out (render_all ts)"
      by (rule split_body) (use b in \<open>simp_all add: tag_of_def\<close>)
    finally show ?thesis using IH [OF ts] s(1) Body by simp
  next
    case (Remark r)
    with ok have r: "newline \<notin> set r" by simp
    have "dropWhile (\<lambda>x. x \<noteq> newline) (''--'' @ r @ newline # render_all ts) = newline # render_all ts"
      using dropWhile_upto [OF r] by simp
    with IH [OF ts] Remark show ?thesis by simp
  next
    case Semi
    with IH [OF ts] show ?thesis by (simp add: dollar_tag_other)
  qed
qed simp

definition clean :: "string \<Rightarrow> bool" where
  "clean q \<longleftrightarrow> q \<noteq> [] \<and> strip q = q"

lemma emit_clean: "Ball (set out) clean \<Longrightarrow> Ball (set (emit buf out)) clean"
  by (simp add: emit_def Let_def clean_def)

lemma split_loop_clean: "Ball (set out) clean \<Longrightarrow> Ball (set (fst (split_loop dollar buf out s))) clean"
proof (induction dollar buf out s rule: split_loop.induct)
  case (3 buf out c s)
  note simps = split_loop.simps(3) [of buf out c s] and prems = "3.prems" and IHs = "3.IH"
  consider "prefix_of ''--'' (c # s)" | "\<not> prefix_of ''--'' (c # s)" "c = quote"
    | t where "\<not> prefix_of ''--'' (c # s)" "c \<noteq> quote" "dollar_tag (c # s) = Some t"
    | "\<not> prefix_of ''--'' (c # s)" "c \<noteq> quote" "dollar_tag (c # s) = None" by (cases "dollar_tag (c # s)") auto
  then show ?case
  proof cases
    case 1
    from IHs(1) [OF 1 prems] 1 show ?thesis unfolding simps by (simp only: if_True)
  next
    case 2
    from IHs(2) [OF 2 prems] 2 show ?thesis unfolding simps by (simp only: if_True if_False refl)
  next
    case (3 t)
    from IHs(5) [OF 3 prems] 3 show ?thesis unfolding simps by (simp only: if_False option.case)
  next
    case 4
    show ?thesis
    proof (cases "c = CHR '';''")
      case True
      from IHs(3) [OF 4 True emit_clean [OF prems]] 4 True show ?thesis
        unfolding simps by (simp only: if_True if_False option.case refl)
    next
      case False
      from IHs(4) [OF 4 False prems] 4 False show ?thesis unfolding simps by (simp only: if_False option.case)
    qed
  qed
qed simp_all

lemma split_clean: "Ball (set (split_statements sql)) clean"
proof -
  obtain out buf where s: "split_loop None [] [] sql = (out, buf)" by fastforce
  with split_loop_clean [of "[]" None "[]" sql] have "Ball (set out) clean" by simp
  with emit_clean s show ?thesis by (simp add: split_statements_def)
qed

subsection \<open>Applying a file\<close>

lemma record_version_versions:
  "versions (record_version v d) = (if v \<in> set (versions d) then versions d else versions d @ [v])"
  by (simp add: record_version_def)

lemma apply_file_result:
  assumes "apply_file invalid ex f d = (out, d')"
  shows "versions d' = (case out of Inr _ \<Rightarrow> versions (record_version (version_of f) d) | Inl _ \<Rightarrow> versions d)"
    and "\<not> no_transaction f \<Longrightarrow> out = Inl e \<Longrightarrow> d' = d"
  using assms
  by (auto simp: apply_file_def Let_def record_version_versions split: if_splits prod.splits sum.splits)

lemma apply_attempts_result:
  assumes "apply_attempts invalid ex f left attempt slept d = (ok, slept', d')" and "left \<noteq> 0"
  shows "versions d' = (if ok then versions (record_version (version_of f) d) else versions d)
    \<and> (\<exists>k < left. slept' = slept @ map (\<lambda>i. 2 ^ (attempt + i)) [0..<k])"
  using assms
proof (induction left arbitrary: attempt slept d)
  case (Suc left)
  obtain out d1 where a: "apply_file invalid (ex attempt) f d = (out, d1)" by fastforce
  note res = apply_file_result(1) [OF a]
  show ?case
  proof (cases "\<exists>e. out = Inl e \<and> sqlstate e = Some LOCK_NOT_AVAILABLE \<and> left \<noteq> 0")
    case True
    then have "apply_attempts invalid ex f left (attempt + 1) (slept @ [2 ^ attempt]) d1 = (ok, slept', d')"
      using Suc.prems(1) a by auto
    from Suc.IH [OF this] True obtain k where k: "k < left"
        "slept' = (slept @ [2 ^ attempt]) @ map (\<lambda>i. 2 ^ (attempt + 1 + i)) [0..<k]"
      and v: "versions d' = (if ok then versions (record_version (version_of f) d1) else versions d1)" by auto
    have "map (\<lambda>i. 2 ^ (attempt + i)) [0..<Suc k] = (2::nat) ^ attempt # map (\<lambda>i. 2 ^ (attempt + 1 + i)) [0..<k]"
      by (simp only: upt_conv_Cons map_Suc_upt [symmetric] list.map map_map comp_def zero_less_Suc) simp
    with k have "\<exists>k < Suc left. slept' = slept @ map (\<lambda>i. 2 ^ (attempt + i)) [0..<k]"
      by (intro exI [of _ "Suc k"]) simp
    moreover have "versions d1 = versions d" using res True by auto
    ultimately show ?thesis using v by (simp add: record_version_versions)
  next
    case False
    then have "slept' = slept \<and> (case out of Inl _ \<Rightarrow> \<not> ok \<and> d' = d1 | Inr _ \<Rightarrow> ok \<and> d' = d1)"
      using Suc.prems(1) a by (auto split: sum.splits if_splits)
    with res show ?thesis by (auto split: sum.splits intro!: exI [of _ 0])
  qed
qed simp

lemma apply_todo_result:
  assumes "apply_todo invalid ex attempts todo d = (code, d')" and "attempts \<noteq> 0"
    and "distinct (map version_of todo)" and "\<forall>f \<in> set todo. version_of f \<notin> set (versions d)"
  shows "\<exists>k \<le> length todo. versions d' = versions d @ map version_of (take k todo)
    \<and> (code = 0 \<and> k = length todo \<or> code = 1 \<and> k < length todo)"
  using assms
proof (induction todo arbitrary: d)
  case (Cons f fs)
  obtain ok slept d1 where a: "apply_attempts invalid (ex (mg_name f)) f attempts 1 [] d = (ok, slept, d1)"
    by (metis prod_cases3)
  note res = apply_attempts_result [OF a Cons.prems(2), THEN conjunct1]
  show ?case
  proof (cases ok)
    case True
    then have v1: "versions d1 = versions d @ [version_of f]"
      using res Cons.prems(4) by (simp add: record_version_versions)
    have next1: "apply_todo invalid ex attempts fs d1 = (code, d')" using Cons.prems(1) a True by simp
    have "distinct (map version_of fs)" "\<forall>g \<in> set fs. version_of g \<notin> set (versions d1)"
      using Cons.prems(3,4) v1 by (auto simp: image_iff)
    from Cons.IH [OF next1 Cons.prems(2) this] obtain k where
      "k \<le> length fs" "versions d' = versions d1 @ map version_of (take k fs)"
      "code = 0 \<and> k = length fs \<or> code = 1 \<and> k < length fs" by auto
    with v1 show ?thesis by (intro exI [of _ "Suc k"]) auto
  next
    case False
    with Cons.prems(1) a res show ?thesis by (intro exI [of _ 0]) auto
  qed
qed simp

lemma run_result:
  assumes r: "run invalid ex False attempts fuel free clock now other files d = Some (code, d')"
    and n: "attempts \<noteq> 0" and dist: "distinct (map version_of files)"
  shows "let todo = filter (\<lambda>f. version_of f \<notin> set (versions (other d))) files
    in \<exists>k \<le> length todo. versions d' = versions (other d) @ map version_of (take k todo)
      \<and> (code = 0 \<and> k = length todo \<or> code = 1)"
proof -
  let ?todo = "filter (\<lambda>f. version_of f \<notin> set (versions (other d))) files"
  obtain l where l: "lock_wait fuel free clock (now + 120) 0 = Some l"
    using r by (auto simp: run_def pending_def split: option.splits)
  show ?thesis
  proof (cases l)
    case True
    with r l have at: "apply_todo invalid ex attempts ?todo (other d) = (code, d')"
 by (simp add: run_def pending_def Let_def)
    have "distinct (map version_of ?todo)" using dist by (simp add: distinct_map_filter)
    from apply_todo_result [OF at n this] show ?thesis by (auto simp: Let_def)
  next
    case False
    with r l have "code = 1" "d' = other d" by (simp_all add: run_def pending_def Let_def)
    then show ?thesis by (auto simp: Let_def intro!: exI [of _ 0])
  qed
qed

lemma apply_attempts_atomic:
  assumes "apply_attempts invalid ex f left attempt slept d = (False, slept', d')" and "\<not> no_transaction f"
  shows "d' = d"
  using assms(1)
proof (induction left arbitrary: attempt slept d)
  case (Suc left)
  obtain out d1 where a: "apply_file invalid (ex attempt) f d = (out, d1)" by fastforce
  show ?case
  proof (cases out)
    case (Inl e)
    from apply_file_result(2) [OF a assms(2) Inl] have "d1 = d" .
    with Suc.prems a Inl Suc.IH show ?thesis by (auto split: if_splits)
  qed (use Suc.prems a in simp)
qed simp

subsection \<open>The waits end\<close>

lemma lock_wait_ends:
  assumes "clock (i + n) > deadline \<or> free (i + n)" and "n < fuel"
  shows "\<exists>b. lock_wait fuel free clock deadline i = Some b \<and> (b \<longrightarrow> (\<exists>j. i \<le> j \<and> free j))
    \<and> (\<not> b \<longrightarrow> (\<exists>j. i \<le> j \<and> clock j > deadline \<and> \<not> free j))"
  using assms
proof (induction fuel arbitrary: i n)
  case (Suc fuel)
  show ?case
  proof (cases "free i \<or> clock i > deadline")
    case False
    with Suc.prems(1) obtain m where m: "n = Suc m" by (cases n) auto
    with Suc.prems have "clock (Suc i + m) > deadline \<or> free (Suc i + m)" "m < fuel" by auto
    from Suc.IH [OF this] False show ?thesis by (auto intro: Suc_leD)
  qed auto
qed simp

lemma connect_loop_ends:
  assumes "0 < delay" and "connects (i + n) \<or> clock (i + n) > deadline" and "n < fuel"
  shows "\<exists>out. connect_loop fuel connects clock deadline delay i = Some out
    \<and> (\<forall>j. out = Inr j \<longrightarrow> connects j) \<and> (\<forall>e. out = Inl e \<longrightarrow> e = OperationalError ''connection failed'')"
  using assms
proof (induction fuel arbitrary: i n delay)
  case (Suc fuel)
  show ?case
  proof (cases "connects i \<or> clock i + delay > deadline")
    case False
    with Suc.prems(1,2) obtain m where m: "n = Suc m" by (cases n) auto
    with Suc.prems have "connects (Suc i + m) \<or> clock (Suc i + m) > deadline" "m < fuel" by auto
    from Suc.IH [of "min (delay * 2) 15", OF _ this] False Suc.prems(1) show ?thesis by auto
  qed auto
qed simp

section \<open>Properties of the migration runner\<close>


abbreviation example_tokens :: "token list" where
  "example_tokens \<equiv> [Sym CHR ''a'', Quoted ''x;y'', Semi, Body ''f'' ''b;'', Semi]"




text \<open>C31. A run of the migration job applies the pending files in order and stops at the first that
  fails: the versions recorded afterwards are the ones found under the lock followed by a prefix
  of the pending files, all of them exactly when the exit code is 0 for a run that held the lock;
  after a run with exit code 0 nothing is pending, and a status query says so.\<close>

theorem run_applies_prefix:
  assumes "run invalid ex False attempts fuel free clock now other files d = Some (code, d')"
    and "attempts \<noteq> 0" and "distinct (map version_of files)"
  shows "(\<exists>k \<le> length (fst (pending (other d) files)).
       versions d' = versions (other d) @ map version_of (take k (fst (pending (other d) files)))
     \<and> (code = 0 \<and> k = length (fst (pending (other d) files)) \<or> code = 1))
    \<and> (code = 0 \<longrightarrow> fst (pending d' files) = []
         \<and> run invalid ex True attempts fuel free clock now other files d' = Some (0, d'))"
proof -
  from run_result [OF assms] obtain k where k: "k \<le> length (fst (pending (other d) files))"
      "versions d' = versions (other d) @ map version_of (take k (fst (pending (other d) files)))"
      "code = 0 \<and> k = length (fst (pending (other d) files)) \<or> code = 1"
    by (auto simp: Let_def pending_def)
  have none: "fst (pending d' files) = []" if "code = 0"
    using k that by (auto simp: pending_def filter_empty_conv image_iff)
  then have "run invalid ex True attempts fuel free clock now other files d' = Some (0, d')" if "code = 0"
    using that by (simp add: run_def pending_def)
  with k none show ?thesis by blast
qed

theorem run_applies_prefix_witness:
  "\<exists>d'. run (\<lambda>_. []) (\<lambda>_ _ q s. (Inr (), q # s)) False 5 3 (\<lambda>i. i = 1) (\<lambda>i. 2 * real i) 0 id
     [\<lparr>mg_name = ''0001_a'', mg_sql = ''A;''\<rparr>] \<lparr>schema = [], versions = []\<rparr> = Some (0, d') \<and> versions d' = [''0001'']"
proof -
  let ?files = "[\<lparr>mg_name = ''0001_a'', mg_sql = ''A;''\<rparr>]" and ?d = "\<lparr>schema = [], versions = []\<rparr> :: string list mig_db"
  let ?ex = "\<lambda>(f :: string) (n :: nat) q s. (Inr () :: unit res, q # s)"
  have nt: "\<not> no_transaction (hd ?files)" by (simp add: no_transaction_def lstrip_def py_space_def NO_TX_def)
  have "split_statements ''A;'' = [''A'']"
    by (simp add: split_statements_def emit_def strip_def lstrip_def py_space_def quote_def dollar_tag_def Let_def)
  then have "apply_file (\<lambda>_. []) (\<lambda>q s. (Inr (), q # s)) (hd ?files) ?d = (Inr (), \<lparr>schema = [''A''], versions = [''0001'']\<rparr>)"
    using nt by (simp add: apply_file_def is_begin_commit_def upper_char_def record_version_def version_of_def)
  then obtain d' where r: "run (\<lambda>_. []) ?ex False 5 3 (\<lambda>i. i = 1) (\<lambda>i. 2 * real i) 0 id ?files ?d = Some (0, d')"
    by (simp add: run_def pending_def numeral_eq_Suc)
  from run_applies_prefix [OF r] have "\<exists>k \<le> length (fst (pending ?d ?files)). versions d' = map version_of (take k (fst (pending ?d ?files)))
      \<and> k = length (fst (pending ?d ?files))" by auto
  with r show ?thesis by (auto simp: pending_def version_of_def)
qed



end
