(* ===== verification/Lint.thy ===== *)
theory Lint
  imports Prelude
begin

section \<open>The migration linter: scripts/lint\_migrations.py\<close>

text \<open>
  \<^verbatim>\<open>scripts/lint_migrations.py\<close>: the rules as regular expressions over the text without
  comments, the exemptions written in comments, the two textual checks, and the exit code. The
  patterns use words in any case, repeated character classes, word boundaries and a negative
  lookahead. \<open>re.search\<close> only asks whether there is a match, so the matcher computes all ends of
  a match from each position; \<open>search_iff\<close> relates it to the meaning of the patterns. Texts are
  ASCII.
\<close>

subsection \<open>Patterns\<close>

datatype rx =
    Lit string
  | Star "char \<Rightarrow> bool"
  | Plus "char \<Rightarrow> bool"
  | Boundary
  | Unless string
  | Seq rx rx
  | Alt rx rx
  | Eps

definition upper :: "char \<Rightarrow> char" where
  "upper c = (let n = (of_char c :: nat) in if 97 \<le> n \<and> n \<le> 122 then char_of (n - 32) else c)"

definition word_char :: "char \<Rightarrow> bool" where
  "word_char c \<longleftrightarrow> (let n = (of_char c :: nat) in
     48 \<le> n \<and> n \<le> 57 \<or> 65 \<le> n \<and> n \<le> 90 \<or> 97 \<le> n \<and> n \<le> 122 \<or> n = 95)"

fun word_first :: "string \<Rightarrow> bool" where
  "word_first [] = False"
| "word_first (c # s) = word_char c"

text \<open>\<open>\b\<close> between the text before, read backwards, and the text after.\<close>

definition boundary :: "string \<Rightarrow> string \<Rightarrow> bool" where
  "boundary before after \<longleftrightarrow> word_first before \<noteq> word_first after"

text \<open>
  A position is the text before it, reversed, and the text after it. \<open>ends r p\<close> lists the
  positions where a match of \<open>r\<close> that starts at \<open>p\<close> can end.
\<close>

type_synonym position = "string \<times> string"

definition advance :: "position \<Rightarrow> nat \<Rightarrow> position" where
  "advance p n = (rev (take n (snd p)) @ fst p, drop n (snd p))"

definition run_length :: "(char \<Rightarrow> bool) \<Rightarrow> string \<Rightarrow> nat" where
  "run_length c s = length (takeWhile c s)"

fun ends :: "rx \<Rightarrow> position \<Rightarrow> position list" where
  "ends (Lit u) p = (if map upper (take (length u) (snd p)) = u then [advance p (length u)] else [])"
| "ends (Star c) p = map (advance p) [0..<Suc (run_length c (snd p))]"
| "ends (Plus c) p = map (advance p) [1..<Suc (run_length c (snd p))]"
| "ends Boundary p = (if boundary (fst p) (snd p) then [p] else [])"
| "ends (Unless u) p = (if map upper (take (length u) (snd p)) = u then [] else [p])"
| "ends (Seq a b) p = concat (map (ends b) (ends a p))"
| "ends (Alt a b) p = ends a p @ ends b p"
| "ends Eps p = [p]"

fun search_from :: "rx \<Rightarrow> string \<Rightarrow> string \<Rightarrow> bool" where
  "search_from r before [] = (ends r (before, []) \<noteq> [])"
| "search_from r before (c # s) = (ends r (before, c # s) \<noteq> [] \<or> search_from r (c # before) s)"

definition search :: "rx \<Rightarrow> string \<Rightarrow> bool" where
  "search r s = search_from r [] s"

subsection \<open>The rules\<close>

abbreviation blanks :: rx where "blanks \<equiv> Plus py_space"
abbreviation no_semicolon :: rx where "no_semicolon \<equiv> Star (\<lambda>c. c \<noteq> CHR '';'')"

fun sequence :: "rx list \<Rightarrow> rx" where
  "sequence [] = Eps"
| "sequence [r] = r"
| "sequence (r # rs) = Seq r (sequence rs)"

fun alternatives :: "string \<Rightarrow> string list \<Rightarrow> rx" where
  "alternatives u [] = Lit u"
| "alternatives u (v # vs) = Alt (Lit u) (alternatives v vs)"

definition ADD_COLUMN :: rx where
  "ADD_COLUMN = sequence [Boundary, Lit ''ADD'', blanks, Lit ''COLUMN'', Boundary, no_semicolon]"

definition RULES :: "(string \<times> rx \<times> string) list" where
  "RULES =
     [(''rename'',
        sequence [Boundary, Lit ''RENAME'', blanks, alternatives ''COLUMN'' [''TO''], Boundary],
        ''renames break the running version; add a new column + sync, then contract later''),
      (''drop-column'',
        sequence [Boundary, Lit ''DROP'', blanks, Lit ''COLUMN'', Boundary],
        ''dropping a column breaks the running version; only allowed in contract/''),
      (''drop-table'',
        sequence [Boundary, Lit ''DROP'', blanks, Lit ''TABLE'', Boundary],
        ''only allowed in contract/''),
      (''alter-type'',
        sequence [Boundary, Lit ''ALTER'', blanks, Lit ''COLUMN'', blanks, Plus word_char, blanks,
          Alt (sequence [Lit ''SET'', blanks, Lit ''DATA'', blanks]) Eps, Lit ''TYPE'', Boundary],
        ''type changes rewrite the table under ACCESS EXCLUSIVE''),
      (''set-not-null'',
        sequence [Boundary, Lit ''SET'', blanks, Lit ''NOT'', blanks, Lit ''NULL'', Boundary],
        ''scans the table under ACCESS EXCLUSIVE; use CHECK ... NOT VALID + VALIDATE''),
      (''add-column-not-null'',
        sequence [ADD_COLUMN, Boundary, Lit ''NOT'', blanks, Lit ''NULL'', Boundary],
        ''NOT NULL on a new column breaks inserts from the running version or rewrites''),
      (''volatile-default'',
        sequence [ADD_COLUMN, Boundary, Lit ''DEFAULT'', blanks,
          alternatives ''GEN_RANDOM_UUID'' [''UUID_GENERATE_V4'', ''RANDOM'', ''CLOCK_TIMESTAMP'', ''NOW'', ''TIMEOFDAY''],
          Star py_space, Lit ''(''],
        ''a volatile default forces a full table rewrite (the 14 Aug lock)''),
      (''index-not-concurrent'',
        sequence [Boundary, Lit ''CREATE'', blanks, Alt (sequence [Lit ''UNIQUE'', blanks]) Eps, Lit ''INDEX'', blanks,
          Unless ''CONCURRENTLY''],
        ''CREATE INDEX blocks writes; use CONCURRENTLY in a no-transaction migration'')]"

definition DESTRUCTIVE :: "string list" where
  "DESTRUCTIVE = [''rename'', ''drop-column'', ''drop-table'', ''alter-type'', ''set-not-null'']"

subsection \<open>Comments and exemptions\<close>

definition line_feed :: char where "line_feed = CHR 10"

text \<open>\<open>re.sub(r"--[^\n]*", "", sql)\<close>\<close>

function strip_comments :: "string \<Rightarrow> string" where
  "strip_comments s =
     (case s of
        [] \<Rightarrow> []
      | c # t \<Rightarrow> if prefix_of ''--'' s then strip_comments (dropWhile (\<lambda>x. x \<noteq> line_feed) t) else c # strip_comments t)"
  by pat_completeness auto
termination
  by (relation "measure length") (auto simp: le_imp_less_Suc length_dropWhile_le)

declare strip_comments.simps [simp del]

text \<open>
  \<open>re.findall(r"--\s*lint:allow\s+([\w-]+)", raw)\<close>: \<open>allow_at\<close> is the match at the start of a
  text, the name and the rest after it. The classes that follow each other are disjoint, so a
  greedy run is the only way to match.
\<close>

definition name_char :: "char \<Rightarrow> bool" where
  "name_char c \<longleftrightarrow> word_char c \<or> c = CHR ''-''"

definition allow_at :: "string \<Rightarrow> (string \<times> string) option" where
  "allow_at s =
     (if prefix_of ''--'' s then
        (let t = dropWhile py_space (drop 2 s)
         in if prefix_of ''lint:allow'' t then
              (let u = drop (length ''lint:allow'') t; v = dropWhile py_space u; name = takeWhile name_char v
               in if u \<noteq> v \<and> name \<noteq> [] then Some (name, dropWhile name_char v) else None)
            else None)
      else None)"

lemma allow_at_shorter: "allow_at (c # s) = Some (name, rest) \<Longrightarrow> length rest \<le> length s"
proof -
  assume "allow_at (c # s) = Some (name, rest)"
  then have "rest = dropWhile name_char (dropWhile py_space (drop (length ''lint:allow'') (dropWhile py_space (drop 2 (c # s)))))"
    by (simp add: allow_at_def Let_def split: if_splits)
  then have "length rest \<le> length (drop (length ''lint:allow'') (dropWhile py_space (drop 2 (c # s))))"
    by (simp only: length_dropWhile_le le_trans [OF length_dropWhile_le length_dropWhile_le])
  also have "\<dots> \<le> length (dropWhile py_space (drop 2 (c # s)))" by simp
  also have "\<dots> \<le> length (drop 2 (c # s))" by (rule length_dropWhile_le)
  finally show ?thesis by simp
qed

function allowed :: "string \<Rightarrow> string list" where
  "allowed s =
     (case s of
        [] \<Rightarrow> []
      | c # t \<Rightarrow>
          (case allow_at s of
             Some (name, rest) \<Rightarrow> name # allowed rest
           | None \<Rightarrow> allowed t))"
  by pat_completeness auto
termination
  by (relation "measure length") (auto simp: le_imp_less_Suc dest: allow_at_shorter)

declare allowed.simps [simp del]

subsection \<open>The checks of one file\<close>

text \<open>A file: its path below the repository, the name of its directory, and its text.\<close>

record sql_file =
  f_path :: string
  f_parent :: string
  f_raw :: string

definition problem :: "sql_file \<Rightarrow> string \<Rightarrow> string \<Rightarrow> string" where
  "problem f name why = f_path f @ '': ['' @ name @ ''] '' @ why"

definition exempt :: "sql_file \<Rightarrow> string \<Rightarrow> bool" where
  "exempt f name \<longleftrightarrow> name \<in> set (allowed (f_raw f)) \<or> f_parent f = ''contract'' \<and> name \<in> set DESTRUCTIVE"

definition lint :: "sql_file \<Rightarrow> string list" where
  "lint f =
     (let sql = strip_comments (f_raw f);
          found = map (\<lambda>(name, rx, why). problem f name why)
                    (filter (\<lambda>(name, rx, why). \<not> exempt f name \<and> search rx sql) RULES);
          timeout = (if \<not> occurs_in ''lock_timeout'' sql \<and> ''baseline'' \<notin> set (allowed (f_raw f))
                     then [problem f ''lock-timeout'' ''set lock_timeout so a blocked migration fails fast''] else []);
          in_tx = (if occurs_in ''CONCURRENTLY'' (map upper sql) \<and> \<not> prefix_of ''-- migrate:no-transaction'' (lstrip (f_raw f))
                   then [problem f ''concurrently-in-tx''
                     (''CONCURRENTLY needs '' @ CHR 39 # ''-- migrate:no-transaction'' @ [CHR 39])] else [])
      in found @ timeout @ in_tx)"

text \<open>The problems of all files outside \<open>rejected/\<close>, and the exit code.\<close>

definition lint_main :: "sql_file list \<Rightarrow> string list \<times> int" where
  "lint_main files =
     (let errors = concat (map lint (filter (\<lambda>f. f_parent f \<noteq> ''rejected'') files))
      in (errors, if errors \<noteq> [] then 1 else 0))"

subsection \<open>The meaning of patterns\<close>

text \<open>\<open>means r b t a\<close>: between \<open>b\<close> (reversed) and \<open>a\<close> the text \<open>t\<close> is a match of \<open>r\<close>.\<close>

primrec means :: "rx \<Rightarrow> string \<Rightarrow> string \<Rightarrow> string \<Rightarrow> bool" where
  "means (Lit u) b t a \<longleftrightarrow> map upper t = u"
| "means (Star c) b t a \<longleftrightarrow> list_all c t"
| "means (Plus c) b t a \<longleftrightarrow> t \<noteq> [] \<and> list_all c t"
| "means Boundary b t a \<longleftrightarrow> t = [] \<and> boundary b a"
| "means (Unless u) b t a \<longleftrightarrow> t = [] \<and> \<not> (\<exists>x y. a = x @ y \<and> map upper x = u)"
| "means (Seq r q) b t a \<longleftrightarrow> (\<exists>x y. t = x @ y \<and> means r b x (y @ a) \<and> means q (rev x @ b) y a)"
| "means (Alt r q) b t a \<longleftrightarrow> means r b t a \<or> means q b t a"
| "means Eps b t a \<longleftrightarrow> t = []"

lemma list_all_take: "list_all c (take n s) \<and> n \<le> length s \<longleftrightarrow> n \<le> run_length c s"
proof (induction s arbitrary: n)
  case (Cons x s)
  then show ?case by (cases n) (auto simp: run_length_def)
qed (simp add: run_length_def)

lemma split_at: "(\<exists>t a. s = t @ a \<and> p = (rev t @ b, a) \<and> P t a) \<longleftrightarrow>
    (\<exists>n \<le> length s. p = advance (b, s) n \<and> P (take n s) (drop n s))"
proof
  assume "\<exists>t a. s = t @ a \<and> p = (rev t @ b, a) \<and> P t a"
  then obtain t a where "s = t @ a" "p = (rev t @ b, a)" "P t a" by blast
  then show "\<exists>n \<le> length s. p = advance (b, s) n \<and> P (take n s) (drop n s)"
    by (intro exI [of _ "length t"]) (simp add: advance_def)
next
  assume "\<exists>n \<le> length s. p = advance (b, s) n \<and> P (take n s) (drop n s)"
  then obtain n where "p = advance (b, s) n" "P (take n s) (drop n s)" by blast
  then show "\<exists>t a. s = t @ a \<and> p = (rev t @ b, a) \<and> P t a"
    by (intro exI [of _ "take n s"] exI [of _ "drop n s"]) (simp add: advance_def)
qed

lemma upper_take: "map upper (take (length u) s) = u \<longleftrightarrow> (\<exists>x y. s = x @ y \<and> map upper x = u)"
proof
  assume "map upper (take (length u) s) = u"
  then show "\<exists>x y. s = x @ y \<and> map upper x = u"
    by (intro exI [of _ "take (length u) s"] exI [of _ "drop (length u) s"]) simp
qed (auto simp: map_eq_conv)

lemma ends_iff: "p \<in> set (ends r (b, s)) \<longleftrightarrow> (\<exists>t a. s = t @ a \<and> p = (rev t @ b, a) \<and> means r b t a)"
proof (induction r arbitrary: p b s)
  case (Lit u)
  show ?case
  proof
    assume "p \<in> set (ends (Lit u) (b, s))"
    then show "\<exists>t a. s = t @ a \<and> p = (rev t @ b, a) \<and> means (Lit u) b t a"
      by (intro exI [of _ "take (length u) s"] exI [of _ "drop (length u) s"])
         (auto simp: advance_def split: if_splits)
  next
    assume "\<exists>t a. s = t @ a \<and> p = (rev t @ b, a) \<and> means (Lit u) b t a"
    then show "p \<in> set (ends (Lit u) (b, s))" by (auto simp: advance_def)
  qed
next
  case (Star c)
  have "p \<in> set (ends (Star c) (b, s)) \<longleftrightarrow> (\<exists>n. n \<le> run_length c s \<and> p = advance (b, s) n)"
    by (auto simp: less_Suc_eq_le image_iff Bex_def simp del: upt_Suc)
  then show ?case unfolding split_at list_all_take [symmetric] by auto
next
  case (Plus c)
  have "p \<in> set (ends (Plus c) (b, s)) \<longleftrightarrow> (\<exists>n. 0 < n \<and> n \<le> run_length c s \<and> p = advance (b, s) n)"
    by (auto simp: less_Suc_eq_le image_iff Bex_def Suc_le_eq simp del: upt_Suc)
  also have "\<dots> \<longleftrightarrow> (\<exists>n \<le> length s. p = advance (b, s) n \<and> take n s \<noteq> [] \<and> list_all c (take n s))"
    by (rule iff_exI) (auto simp: list_all_take [symmetric])
  finally show ?case unfolding split_at by simp
next
  case (Unless u)
  show ?case by (simp add: upper_take)
next
  case (Seq r q)
  have "p \<in> set (ends (Seq r q) (b, s)) \<longleftrightarrow> (\<exists>p1 \<in> set (ends r (b, s)). p \<in> set (ends q p1))" by simp
  also have "\<dots> \<longleftrightarrow> (\<exists>x z. s = x @ z \<and> means r b x z \<and> p \<in> set (ends q (rev x @ b, z)))"
    using Seq.IH(1) by (metis (no_types, lifting) prod.collapse)
  also have "\<dots> \<longleftrightarrow> (\<exists>x y a. s = x @ y @ a \<and> p = (rev y @ rev x @ b, a) \<and> means r b x (y @ a) \<and> means q (rev x @ b) y a)"
    unfolding Seq.IH(2) by blast
  also have "\<dots> \<longleftrightarrow> (\<exists>t a. s = t @ a \<and> p = (rev t @ b, a) \<and> means (Seq r q) b t a)"
  proof
    assume "\<exists>x y a. s = x @ y @ a \<and> p = (rev y @ rev x @ b, a) \<and> means r b x (y @ a) \<and> means q (rev x @ b) y a"
    then obtain x y a where h: "s = x @ y @ a" "p = (rev y @ rev x @ b, a)" "means r b x (y @ a)" "means q (rev x @ b) y a"
      by blast
    from h(3,4) have "means (Seq r q) b (x @ y) a" unfolding means.simps by blast
    with h(1,2) show "\<exists>t a. s = t @ a \<and> p = (rev t @ b, a) \<and> means (Seq r q) b t a"
      by (intro exI [of _ "x @ y"] exI [of _ a]) simp
  next
    assume "\<exists>t a. s = t @ a \<and> p = (rev t @ b, a) \<and> means (Seq r q) b t a"
    then obtain t a x y where h: "s = t @ a" "p = (rev t @ b, a)" "t = x @ y" "means r b x (y @ a)" "means q (rev x @ b) y a"
      by auto
    then have "s = x @ y @ a" "p = (rev y @ rev x @ b, a)" by simp_all
    with h(4,5) show "\<exists>x y a. s = x @ y @ a \<and> p = (rev y @ rev x @ b, a) \<and> means r b x (y @ a) \<and> means q (rev x @ b) y a"
      by blast
  qed
  finally show ?case .
qed auto

lemma search_from_iff: "search_from r b s \<longleftrightarrow> (\<exists>u t a. s = u @ t @ a \<and> means r (rev u @ b) t a)"
proof (induction s arbitrary: b)
  case Nil
  have "ends r (b, []) \<noteq> [] \<longleftrightarrow> (\<exists>p. p \<in> set (ends r (b, [])))" by (cases "ends r (b, [])") auto
  then show ?case by (simp add: ends_iff)
next
  case (Cons c s)
  have "ends r (b, c # s) \<noteq> [] \<longleftrightarrow> (\<exists>p. p \<in> set (ends r (b, c # s)))" by (cases "ends r (b, c # s)") auto
  then have "ends r (b, c # s) \<noteq> [] \<longleftrightarrow> (\<exists>t a. c # s = t @ a \<and> means r b t a)" unfolding ends_iff by blast
  moreover have "(\<exists>u t a. c # s = u @ t @ a \<and> means r (rev u @ b) t a) \<longleftrightarrow>
      (\<exists>t a. c # s = t @ a \<and> means r b t a) \<or> (\<exists>u t a. s = u @ t @ a \<and> means r (rev u @ c # b) t a)"
  proof
    assume "\<exists>u t a. c # s = u @ t @ a \<and> means r (rev u @ b) t a"
    then obtain u t a where h: "c # s = u @ t @ a" "means r (rev u @ b) t a" by blast
    then show "(\<exists>t a. c # s = t @ a \<and> means r b t a) \<or> (\<exists>u t a. s = u @ t @ a \<and> means r (rev u @ c # b) t a)"
      by (cases u) auto
  next
    assume "(\<exists>t a. c # s = t @ a \<and> means r b t a) \<or> (\<exists>u t a. s = u @ t @ a \<and> means r (rev u @ c # b) t a)"
    then show "\<exists>u t a. c # s = u @ t @ a \<and> means r (rev u @ b) t a"
    proof (elim disjE exE conjE)
      fix t a assume "c # s = t @ a" "means r b t a"
      then show ?thesis by (intro exI [of _ "[]"] exI [of _ t] exI [of _ a]) simp
    next
      fix u t a assume "s = u @ t @ a" "means r (rev u @ c # b) t a"
      then show ?thesis by (intro exI [of _ "c # u"] exI [of _ t] exI [of _ a]) simp
    qed
  qed
  ultimately show ?case by (simp add: Cons.IH)
qed

lemma search_iff: "search r s \<longleftrightarrow> (\<exists>u t a. s = u @ t @ a \<and> means r (rev u) t a)"
  by (simp add: search_def search_from_iff)

section \<open>Properties of the linter\<close>

text \<open>C37. A clean run of the linter means clean migrations, and only then: the exit code is 0 exactly
  when every file outside \<open>rejected/\<close> has, for each rule it is not exempt from, no part of its
  text without comments that matches the rule's pattern, sets \<open>lock_timeout\<close> (or is the baseline),
  and carries the no-transaction header if it mentions \<open>CONCURRENTLY\<close>.\<close>

theorem clean_run_means_clean:
  "snd (lint_main files) = 0 \<longleftrightarrow>
     (\<forall>f \<in> set files. f_parent f = ''rejected'' \<or>
        (\<forall>(name, rx, why) \<in> set RULES. exempt f name
           \<or> \<not> (\<exists>u t a. strip_comments (f_raw f) = u @ t @ a \<and> means rx (rev u) t a))
      \<and> (occurs_in ''lock_timeout'' (strip_comments (f_raw f)) \<or> ''baseline'' \<in> set (allowed (f_raw f)))
      \<and> (occurs_in ''CONCURRENTLY'' (map upper (strip_comments (f_raw f)))
           \<longrightarrow> prefix_of ''-- migrate:no-transaction'' (lstrip (f_raw f))))"
proof -
  have clean: "lint f = [] \<longleftrightarrow>
        (\<forall>(name, rx, why) \<in> set RULES. exempt f name
           \<or> \<not> (\<exists>u t a. strip_comments (f_raw f) = u @ t @ a \<and> means rx (rev u) t a))
      \<and> (occurs_in ''lock_timeout'' (strip_comments (f_raw f)) \<or> ''baseline'' \<in> set (allowed (f_raw f)))
      \<and> (occurs_in ''CONCURRENTLY'' (map upper (strip_comments (f_raw f)))
           \<longrightarrow> prefix_of ''-- migrate:no-transaction'' (lstrip (f_raw f)))" for f
    unfolding search_iff [symmetric]
    by (simp only: lint_def Let_def append_is_Nil_conv map_is_Nil_conv filter_empty_conv split: if_split) auto
  have "snd (lint_main files) = 0 \<longleftrightarrow> (\<forall>f \<in> set files. f_parent f = ''rejected'' \<or> lint f = [])"
    by (auto simp: lint_main_def Let_def)
  then show ?thesis unfolding clean .
qed

theorem clean_run_means_clean_witness:
  "snd (lint_main [\<lparr>f_path = ''migrations/0013_x.sql'', f_parent = ''migrations'', f_raw = ''DROP TABLE t''\<rparr>]) \<noteq> 0"
proof -
  let ?f = "\<lparr>f_path = ''migrations/0013_x.sql'', f_parent = ''migrations'', f_raw = ''DROP TABLE t''\<rparr>"
  let ?rx = "sequence [Boundary, Lit ''DROP'', blanks, Lit ''TABLE'', Boundary]"
  have sql: "strip_comments ''DROP TABLE t'' = ''DROP TABLE t''" by code_simp
  have "search ?rx ''DROP TABLE t''" by code_simp
  then have found: "\<exists>u t a. strip_comments (f_raw ?f) = u @ t @ a \<and> means ?rx (rev u) t a"
    unfolding search_iff by (simp only: sql sql_file.simps)
  have free: "\<not> exempt ?f ''drop-table''" by code_simp
  have rule: "(''drop-table'', ?rx, ''only allowed in contract/'') \<in> set RULES" by (simp add: RULES_def)
  show ?thesis
  proof
    assume "snd (lint_main [?f]) = 0"
    from bspec [OF iffD1 [OF clean_run_means_clean this] list.set_intros(1)]
    have "f_parent ?f = ''rejected'' \<or> (\<forall>(name, rx, why) \<in> set RULES. exempt ?f name
        \<or> \<not> (\<exists>u t a. strip_comments (f_raw ?f) = u @ t @ a \<and> means rx (rev u) t a))" by blast
    moreover have "f_parent ?f \<noteq> ''rejected''" by simp
    ultimately show False using found free rule by blast
  qed
qed

text \<open>The blank before the lookahead may be given back: two blanks make a concurrent index look like another.\<close>

lemma concurrent_index_two_blanks:
  "\<exists>rx why. (''index-not-concurrent'', rx, why) \<in> set RULES \<and> search rx ''CREATE INDEX  CONCURRENTLY i''
     \<and> \<not> search rx ''CREATE INDEX CONCURRENTLY i''"
proof -
  let ?rx = "sequence [Boundary, Lit ''CREATE'', blanks, Alt (sequence [Lit ''UNIQUE'', blanks]) Eps, Lit ''INDEX'', blanks, Unless ''CONCURRENTLY'']"
  have "search ?rx ''CREATE INDEX  CONCURRENTLY i''" "\<not> search ?rx ''CREATE INDEX CONCURRENTLY i''" by code_simp+
  moreover have "\<exists>why. (''index-not-concurrent'', ?rx, why) \<in> set RULES" by (simp add: RULES_def)
  ultimately show ?thesis by blast
qed

end
