(* ===== verification/Expand.thy ===== *)
theory Expand
  imports Prelude
begin

section \<open>Two versions on one schema: migrations 0008 and 0010\<close>

text \<open>
  The trigger \<open>payouts_sync_state\<close> of \<^verbatim>\<open>migrations/0008_expand_payout_state.sql\<close>, which keeps
  the old column \<open>status\<close> (written by settle 1.7) and the new column \<open>state\<close> (written by settle
  1.9) in step, and the backfill of \<^verbatim>\<open>migrations/0010\<close> for rows that are older than the trigger.
  A column that is NULL is \<open>None\<close>.
\<close>

record sync_row =
  y_status :: "string option"
  y_state :: "string option"

text \<open>The trigger function: \<open>TG_OP = 'INSERT'\<close>, and \<open>'UPDATE'\<close> with the old row.\<close>

definition sync_insert :: "sync_row \<Rightarrow> sync_row" where
  "sync_insert new = (if y_state new \<noteq> None then new\<lparr>y_status := y_state new\<rparr> else new\<lparr>y_state := y_status new\<rparr>)"

definition sync_update :: "sync_row \<Rightarrow> sync_row \<Rightarrow> sync_row" where
  "sync_update old new =
     (if y_state new \<noteq> y_state old then new\<lparr>y_status := y_state new\<rparr>
      else if y_status new \<noteq> y_status old then new\<lparr>y_state := y_status new\<rparr>
      else new)"

text \<open>
  What the versions do to a payout: 1.7 inserts with the default of \<open>status\<close> and updates it; 1.9
  inserts with \<open>state\<close> (\<open>status\<close> gets its default) and updates it; the backfill copies \<open>status\<close>
  where \<open>state\<close> is NULL. Neither version writes NULL.
\<close>

datatype version = V17 | V19

datatype row_write = Update version string | Backfill

definition insert_row :: "version \<Rightarrow> sync_row" where
  "insert_row v = sync_insert
     (case v of V17 \<Rightarrow> \<lparr>y_status = Some ''queued'', y_state = None\<rparr>
              | V19 \<Rightarrow> \<lparr>y_status = Some ''queued'', y_state = Some ''queued''\<rparr>)"

fun write_row :: "row_write \<Rightarrow> sync_row \<Rightarrow> sync_row" where
  "write_row (Update V17 s) r = sync_update r (r\<lparr>y_status := Some s\<rparr>)"
| "write_row (Update V19 s) r = sync_update r (r\<lparr>y_state := Some s\<rparr>)"
| "write_row Backfill r = (if y_state r = None then sync_update r (r\<lparr>y_state := y_status r\<rparr>) else r)"

text \<open>The specification: one register that holds what was last written.\<close>

fun last_written :: "string \<Rightarrow> row_write list \<Rightarrow> string" where
  "last_written s [] = s"
| "last_written s (Update v t # ws) = last_written t ws"
| "last_written s (Backfill # ws) = last_written s ws"

lemma write_in_step: "write_row w \<lparr>y_status = Some s, y_state = Some s\<rparr> =
    \<lparr>y_status = Some (last_written s [w]), y_state = Some (last_written s [w])\<rparr>"
proof (cases w)
  case (Update v t)
  then show ?thesis by (cases v) (simp_all add: sync_update_def)
qed simp

lemma writes_in_step: "fold write_row ws \<lparr>y_status = Some s, y_state = Some s\<rparr> =
    \<lparr>y_status = Some (last_written s ws), y_state = Some (last_written s ws)\<rparr>"
proof (induction ws arbitrary: s)
  case (Cons w ws)
  then show ?case by (cases w) (simp_all add: write_in_step)
qed simp

lemma insert_in_step: "insert_row v = \<lparr>y_status = Some ''queued'', y_state = Some ''queued''\<rparr>"
  by (cases v) (simp_all add: insert_row_def sync_insert_def)

lemma backfill_in_step: "write_row Backfill \<lparr>y_status = Some s, y_state = None\<rparr> = \<lparr>y_status = Some s, y_state = Some s\<rparr>"
  by (simp add: sync_update_def)

text \<open>C38. The two columns refine one: whichever version inserted a payout and however updates of both
  versions and backfills interleave, each column holds the value last written by either version;
  and a row older than the trigger is brought in step by its backfill and stays so.\<close>

theorem versions_see_one_state:
  "fold write_row ws (insert_row v) =
     \<lparr>y_status = Some (last_written ''queued'' ws), y_state = Some (last_written ''queued'' ws)\<rparr>
   \<and> fold write_row (Backfill # ws) \<lparr>y_status = Some s, y_state = None\<rparr> =
     \<lparr>y_status = Some (last_written s ws), y_state = Some (last_written s ws)\<rparr>"
  by (simp only: insert_in_step fold_Cons comp_apply backfill_in_step writes_in_step simp_thms)

end
