(* ===== verification/Budget.thy ===== *)
theory Budget
  imports Numbers
begin

section \<open>The connection budget: scripts/check\_db\_budget.py\<close>

text \<open>
  \<^verbatim>\<open>scripts/check_db_budget.py\<close>: the worst-case number of Postgres connections of the
  rendered manifests against what Postgres accepts. The YAML documents are JSON values, as
  \<open>yaml.safe_load_all\<close> gives them; subscripts that raise are errors. If the check passes, no
  state of the cluster within the declared replicas, surges, processes and pools can exceed
  the budget.
\<close>

subsection \<open>Subscripts\<close>

fun item :: "json \<Rightarrow> string \<Rightarrow> json res" where
  "item (JObj d) k = dict_item d k"
| "item v k = Inl (TypeError ''not subscriptable by a string'')"

fun get_default :: "json \<Rightarrow> string \<Rightarrow> json \<Rightarrow> json res" where
  "get_default (JObj d) k dflt = Inr (dict_get d k dflt)"
| "get_default v k dflt = Inl (AttributeError ''object has no attribute get'')"

fun elements :: "json \<Rightarrow> json list res" where
  "elements (JList xs) = Inr xs"
| "elements v = Inl (TypeError ''object is not iterable'')"

fun has_key :: "json \<Rightarrow> string \<Rightarrow> bool" where
  "has_key (JObj d) k = (map_of d k \<noteq> None)"
| "has_key v k = False"

fun path :: "json \<Rightarrow> string list \<Rightarrow> json res" where
  "path v [] = Inr v"
| "path v (k # ks) = bind_res (item v k) (\<lambda>u. path u ks)"

lemma map_res_Inr: "map_res f xs = Inr ys \<longleftrightarrow> list_all2 (\<lambda>x y. f x = Inr y) xs ys"
  by (induction xs arbitrary: ys) (auto simp: bind_res_Inr list_all2_Cons1)

subsection \<open>Environment of a container\<close>

type_synonym configmaps = "(string \<times> json) list"

text \<open>\<open>math.ceil(total * int(value[:-1]) / 100)\<close> for a percentage, \<open>int(value)\<close> otherwise.\<close>

definition resolve :: "json \<Rightarrow> int \<Rightarrow> int res" where
  "resolve v tot =
     (case v of
        JStr s \<Rightarrow>
          (if s \<noteq> [] \<and> last s = CHR 0x25
           then bind_res (py_int (butlast s)) (\<lambda>n. Inr \<lceil>real_of_int (tot * n) / 100\<rceil>)
           else json_int v)
      | _ \<Rightarrow> json_int v)"

definition config_item :: "configmaps \<Rightarrow> json \<Rightarrow> json \<Rightarrow> json res" where
  "config_item cms name key =
     (case (name, key) of
        (JStr n, JStr k) \<Rightarrow> bind_res (dict_item cms n) (\<lambda>data. item data k)
      | _ \<Rightarrow> Inl (KeyError ''unhashable or unknown key''))"

text \<open>The first loop of \<open>env_value\<close>: \<open>Some v\<close> is a return, \<open>None\<close> the end of the loop.\<close>

fun env_entries :: "string \<Rightarrow> configmaps \<Rightarrow> json list \<Rightarrow> json option res" where
  "env_entries name cms [] = Inr None"
| "env_entries name cms (e # es) =
     bind_res (item e ''name'') (\<lambda>n.
       if n \<noteq> JStr name then env_entries name cms es
       else if has_key e ''value'' then bind_res (item e ''value'') (\<lambda>v. Inr (Some v))
       else bind_res (get_default e ''valueFrom'' (JObj [])) (\<lambda>from_v.
         bind_res (get_default from_v ''configMapKeyRef'' JNull) (\<lambda>ref.
           if py_truth ref
           then bind_res (item ref ''name'') (\<lambda>cm. bind_res (item ref ''key'') (\<lambda>k.
                  bind_res (config_item cms cm k) (\<lambda>v. Inr (Some v))))
           else env_entries name cms es)))"

fun env_sources :: "string \<Rightarrow> configmaps \<Rightarrow> json list \<Rightarrow> json option res" where
  "env_sources name cms [] = Inr None"
| "env_sources name cms (src # srcs) =
     bind_res (get_default src ''configMapRef'' JNull) (\<lambda>ref.
       if py_truth ref
       then bind_res (item ref ''name'') (\<lambda>cm.
              if has_key (case cm of JStr n \<Rightarrow> dict_get cms n (JObj []) | _ \<Rightarrow> JObj []) name
              then bind_res (config_item cms cm (JStr name)) (\<lambda>v. Inr (Some v))
              else env_sources name cms srcs)
       else env_sources name cms srcs)"

definition env_value :: "json \<Rightarrow> string \<Rightarrow> configmaps \<Rightarrow> json option res" where
  "env_value container name cms =
     bind_res (get_default container ''env'' (JList [])) (\<lambda>env.
     bind_res (elements env) (\<lambda>es.
     bind_res (env_entries name cms es) (\<lambda>found.
       case found of
         Some v \<Rightarrow> Inr (Some v)
       | None \<Rightarrow>
           bind_res (get_default container ''envFrom'' (JList [])) (\<lambda>envfrom.
           bind_res (elements envfrom) (\<lambda>srcs. env_sources name cms srcs)))))"

fun any_named :: "string \<Rightarrow> json list \<Rightarrow> bool res" where
  "any_named name [] = Inr False"
| "any_named name (e # es) =
     bind_res (item e ''name'') (\<lambda>n. if n = JStr name then Inr True else any_named name es)"

definition uses_db :: "json \<Rightarrow> bool res" where
  "uses_db container =
     bind_res (get_default container ''env'' (JList [])) (\<lambda>env.
     bind_res (elements env) (\<lambda>es. any_named ''DATABASE_URL'' es))"

text \<open>\<open>int(env_value(..) or d)\<close>\<close>

definition env_int :: "json \<Rightarrow> string \<Rightarrow> configmaps \<Rightarrow> int \<Rightarrow> int res" where
  "env_int container name cms d =
     bind_res (env_value container name cms) (\<lambda>v.
       case v of None \<Rightarrow> Inr d | Some j \<Rightarrow> if py_truth j then json_int j else Inr d)"

subsection \<open>One deployment\<close>

record row =
  b_name :: json
  b_base :: int
  b_surge :: int
  b_pods :: int
  b_procs :: int
  b_pool :: int
  b_overflow :: int
  b_conns :: int

type_synonym hpas = "(json \<times> json) list"

definition first_container :: "json \<Rightarrow> json res" where
  "first_container d =
     bind_res (path d [''spec'', ''template'', ''spec'', ''containers'']) (\<lambda>cs.
       case cs of JList (c # _) \<Rightarrow> Inr c | JList [] \<Rightarrow> Inl (KeyError ''list index out of range'')
       | _ \<Rightarrow> Inl (KeyError ''0''))"

definition max_replicas :: "hpas \<Rightarrow> json \<Rightarrow> json \<Rightarrow> int res" where
  "max_replicas hpas name d =
     (case map_of hpas name of
        Some h \<Rightarrow> bind_res (path h [''spec'', ''maxReplicas'']) json_int
      | None \<Rightarrow> bind_res (item d ''spec'') (\<lambda>spec. bind_res (get_default spec ''replicas'' (JInt 1)) json_int))"

definition max_surge :: "json \<Rightarrow> int \<Rightarrow> int res" where
  "max_surge d base =
     bind_res (item d ''spec'') (\<lambda>spec.
     bind_res (get_default spec ''strategy'' (JObj [])) (\<lambda>st.
     bind_res (get_default st ''rollingUpdate'' (JObj [])) (\<lambda>ru.
     bind_res (get_default ru ''maxSurge'' (JStr ''25%'')) (\<lambda>v. resolve v base))))"

definition deployment_row :: "configmaps \<Rightarrow> hpas \<Rightarrow> json \<Rightarrow> row option res" where
  "deployment_row cms hpas d =
     bind_res (path d [''metadata'', ''name'']) (\<lambda>name.
     bind_res (first_container d) (\<lambda>c.
     bind_res (uses_db c) (\<lambda>db.
       if \<not> db then Inr None
       else bind_res (max_replicas hpas name d) (\<lambda>base.
            bind_res (max_surge d base) (\<lambda>surge.
            bind_res (get_default c ''command'' JNull) (\<lambda>cmd.
            bind_res (if \<not> py_truth cmd then env_int c ''GUNICORN_WORKERS'' cms 1 else Inr 1) (\<lambda>procs.
            bind_res (env_int c ''DB_POOL_SIZE'' cms 5) (\<lambda>pool.
            bind_res (env_int c ''DB_MAX_OVERFLOW'' cms 10) (\<lambda>overflow.
              let pods = base + surge + 1
              in Inr (Some \<lparr>b_name = name, b_base = base, b_surge = surge, b_pods = pods, b_procs = procs,
                           b_pool = pool, b_overflow = overflow, b_conns = pods * procs * (pool + overflow)\<rparr>))))))))))"

subsection \<open>The check\<close>

record budget_args =
  max_connections :: int
  superuser_reserved :: int
  admin_headroom :: int
  reserved :: int

definition default_args :: budget_args where
  "default_args = \<lparr>max_connections = 100, superuser_reserved = 3, admin_headroom = 5, reserved = 3\<rparr>"

definition of_kind :: "string \<Rightarrow> json list \<Rightarrow> json list res" where
  "of_kind k docs =
     bind_res (map_res (\<lambda>d. item d ''kind'') docs) (\<lambda>kinds.
       Inr (map snd (filter (\<lambda>(x, d). x = JStr k) (zip kinds docs))))"

definition load_configmaps :: "json list \<Rightarrow> configmaps res" where
  "load_configmaps docs =
     map_res (\<lambda>d. bind_res (path d [''metadata'', ''name'']) (\<lambda>n.
        bind_res (get_default d ''data'' (JObj [])) (\<lambda>data.
          case n of JStr s \<Rightarrow> Inr (s, data) | _ \<Rightarrow> Inl (TypeError ''name'')))) docs"

definition load_hpas :: "json list \<Rightarrow> hpas res" where
  "load_hpas docs =
     map_res (\<lambda>d. bind_res (path d [''spec'', ''scaleTargetRef'', ''name'']) (\<lambda>n. Inr (n, d))) docs"

text \<open>The rows, the demand and the exit code. Later documents of a name win, so maps are read from the end.\<close>

definition check_budget :: "budget_args \<Rightarrow> json list \<Rightarrow> (row list \<times> int \<times> int) res" where
  "check_budget args docs =
     (let docs' = filter py_truth docs in
      bind_res (of_kind ''ConfigMap'' docs') (\<lambda>cm.
      bind_res (load_configmaps cm) (\<lambda>cms.
      bind_res (of_kind ''HorizontalPodAutoscaler'' docs') (\<lambda>hp.
      bind_res (load_hpas hp) (\<lambda>hpas.
      bind_res (of_kind ''Deployment'' docs') (\<lambda>deps.
      bind_res (map_res (deployment_row (rev cms) (rev hpas)) deps) (\<lambda>found.
        let rows = List.map_filter id found;
            demand = reserved args + sum_list (map b_conns rows);
            budget = max_connections args - superuser_reserved args - admin_headroom args
        in Inr (rows, demand, if demand > budget then 1 else 0))))))))"

subsection \<open>What the script prints\<close>

text \<open>\<^verbatim>\<open>f"{name:<16}"\<close>: a name that is no text or number has no such format.\<close>

definition name_cell :: "json \<Rightarrow> string res" where
  "name_cell v =
     (case v of
        JStr s \<Rightarrow> Inr (ljust 16 s)
      | JInt i \<Rightarrow> Inr (ljust 16 (str_int i))
      | JBool b \<Rightarrow> Inr (ljust 16 (if b then ''1'' else ''0''))
      | JFloat x \<Rightarrow> Inr (ljust 16 (repr_float x))
      | _ \<Rightarrow> Inl (TypeError ''unsupported format string''))"

definition row_line :: "row \<Rightarrow> string res" where
  "row_line r =
     bind_res (name_cell (b_name r)) (\<lambda>name.
       Inr (name @ concat (map (\<lambda>(k, i). rjust k (str_int i))
              [(5, b_base r), (7, b_surge r), (6, b_pods r), (7, b_procs r), (6, b_pool r), (5, b_overflow r), (7, b_conns r)])))"

definition budget_lines :: "budget_args \<Rightarrow> row list \<Rightarrow> int \<Rightarrow> string list res" where
  "budget_lines args rows demand =
     (let budget = max_connections args - superuser_reserved args - admin_headroom args
      in bind_res (map_res row_line rows) (\<lambda>ls.
           Inr ([ljust 16 ''deployment'' @ rjust 5 ''max'' @ rjust 7 ''surge'' @ rjust 6 ''pods'' @ rjust 7 ''procs''
                   @ rjust 6 ''pool'' @ rjust 5 ''ovf'' @ rjust 7 ''conns'']
                @ ls
                @ [ljust 16 ''reserved'' @ replicate 36 (CHR '' '') @ rjust 7 (str_int (reserved args)),
                   ''demand '' @ str_int demand @ '' vs budget '' @ str_int budget @ '' (= '' @ str_int (max_connections args)
                     @ '' max_connections - '' @ str_int (superuser_reserved args) @ '' superuser - ''
                     @ str_int (admin_headroom args) @ '' admin)'',
                   if demand > budget then ''::error::DB connection budget exceeded by '' @ str_int (demand - budget)
                   else ''OK, headroom '' @ str_int (budget - demand)])))"

text \<open>\<open>main\<close>: the lines and the exit code.\<close>

definition budget_main :: "budget_args \<Rightarrow> json list \<Rightarrow> (string list \<times> int) res" where
  "budget_main args docs =
     bind_res (check_budget args docs) (\<lambda>(rows, demand, code).
     bind_res (budget_lines args rows demand) (\<lambda>ls. Inr (ls, code)))"

subsection \<open>Soundness\<close>

text \<open>
  What a deployment really holds at some instant: for each pod, for each process, the open
  connections. The row bounds it when pods, processes and pools are within what is declared.
\<close>

definition held :: "int list list \<Rightarrow> int" where
  "held pods = sum_list (map sum_list pods)"

definition declared :: "row \<Rightarrow> int list list \<Rightarrow> bool" where
  "declared r pods \<longleftrightarrow> int (length pods) \<le> b_pods r
     \<and> (\<forall>procs \<in> set pods. int (length procs) \<le> b_procs r
          \<and> (\<forall>n \<in> set procs. 0 \<le> n \<and> n \<le> b_pool r + b_overflow r))"

lemma sum_list_bound:
  fixes xs :: "int list"
  assumes "\<forall>x \<in> set xs. 0 \<le> x \<and> x \<le> b" and "int (length xs) \<le> n" and "0 \<le> b"
  shows "sum_list xs \<le> n * b"
proof -
  have "sum_list xs \<le> int (length xs) * b"
    using assms(1) by (induction xs) (auto simp: algebra_simps)
  also have "\<dots> \<le> n * b" using assms(2,3) by (rule mult_right_mono)
  finally show ?thesis .
qed

lemma sum_list_nonneg_int: "\<forall>x \<in> set xs. 0 \<le> (x :: int) \<Longrightarrow> 0 \<le> sum_list xs"
  by (induction xs) auto

lemma held_bound:
  assumes "declared r pods" and "0 \<le> b_procs r" and "0 \<le> b_pool r + b_overflow r"
  shows "held pods \<le> b_pods r * (b_procs r * (b_pool r + b_overflow r))"
  unfolding held_def
proof (rule sum_list_bound)
  show "\<forall>x \<in> set (map sum_list pods). 0 \<le> x \<and> x \<le> b_procs r * (b_pool r + b_overflow r)"
    using assms sum_list_bound sum_list_nonneg_int by (auto simp: declared_def)
qed (use assms in \<open>auto simp: declared_def\<close>)

lemma deployment_row_conns:
  assumes "deployment_row cms hpas d = Inr (Some r)"
  shows "b_conns r = b_pods r * (b_procs r * (b_pool r + b_overflow r)) \<and> b_pods r = b_base r + b_surge r + 1"
proof -
  from assms obtain name c db where
    "(if \<not> db then Inr None
       else bind_res (max_replicas hpas name d) (\<lambda>base.
            bind_res (max_surge d base) (\<lambda>surge.
            bind_res (get_default c ''command'' JNull) (\<lambda>cmd.
            bind_res (if \<not> py_truth cmd then env_int c ''GUNICORN_WORKERS'' cms 1 else Inr 1) (\<lambda>procs.
            bind_res (env_int c ''DB_POOL_SIZE'' cms 5) (\<lambda>pool.
            bind_res (env_int c ''DB_MAX_OVERFLOW'' cms 10) (\<lambda>overflow.
              let pods = base + surge + 1
              in Inr (Some \<lparr>b_name = name, b_base = base, b_surge = surge, b_pods = pods, b_procs = procs,
                           b_pool = pool, b_overflow = overflow, b_conns = pods * procs * (pool + overflow)\<rparr>))))))))
      = (Inr (Some r) :: row option res)"
    unfolding deployment_row_def bind_res_Inr by blast
  then show ?thesis by (cases db) (auto simp only: bind_res_Inr Let_def if_True if_False not_True_eq_False
      not_False_eq_True sum.inject option.inject option.distinct row.simps mult.assoc)
qed

lemma check_budget_rows:
  assumes "check_budget args docs = Inr (rows, demand, code)" and "r \<in> set rows"
  shows "\<exists>cms hpas d. d \<in> set docs \<and> deployment_row cms hpas d = Inr (Some r)"
proof -
  from assms obtain cms hpas deps found where
    deps: "of_kind ''Deployment'' (filter py_truth docs) = Inr deps"
    and found: "map_res (deployment_row cms hpas) deps = Inr found" and rows: "rows = List.map_filter id found"
    by (auto simp: check_budget_def bind_res_Inr Let_def)
  from assms(2) rows have "Some r \<in> set found" by (auto simp: List.map_filter_def)
  with found obtain d where "d \<in> set deps" "deployment_row cms hpas d = Inr (Some r)"
    unfolding map_res_Inr list_all2_conv_all_nth in_set_conv_nth by metis
  moreover have "d \<in> set docs" using calculation(1) deps
    by (auto simp: of_kind_def bind_res_Inr dest!: set_zip_rightD)
  ultimately show ?thesis by blast
qed

lemma check_budget_code:
  assumes "check_budget args docs = Inr (rows, demand, code)"
  shows "demand = reserved args + sum_list (map b_conns rows)
    \<and> (code = 0 \<longleftrightarrow> demand \<le> max_connections args - superuser_reserved args - admin_headroom args)"
  using assms by (auto simp: check_budget_def bind_res_Inr Let_def split: if_splits)

lemma sum_held:
  "list_all2 (\<lambda>r pods. held pods \<le> b_conns r) rows clusters \<Longrightarrow>
     sum_list (map held clusters) \<le> sum_list (map b_conns rows)"
  by (induction rule: list_all2_induct) auto

text \<open>A deployment whose \<open>DATABASE_URL\<close> comes through \<open>envFrom\<close> is not counted.\<close>

lemma uses_db_ignores_env_from:
  "map_of c ''env'' = None \<Longrightarrow> uses_db (JObj c) = Inr False"
  by (simp add: uses_db_def dict_get_def)

section \<open>Property of the connection budget\<close>


definition example_deployment :: json where
  "example_deployment = JObj [(''kind'', JStr ''Deployment''), (''metadata'', JObj [(''name'', JStr ''settle-worker'')]),
     (''spec'', JObj [(''replicas'', JInt 3),
        (''strategy'', JObj [(''rollingUpdate'', JObj [(''maxSurge'', JInt 1)])]),
        (''template'', JObj [(''spec'', JObj [(''containers'', JList [JObj
           [(''command'', JList [JStr ''python'']),
            (''env'', JList [JObj [(''name'', JStr ''DATABASE_URL''), (''value'', JStr ''u'')],
                             JObj [(''name'', JStr ''DB_POOL_SIZE''), (''value'', JInt 2)]])]])])])])]"

definition example_row :: row where
  "example_row = \<lparr>b_name = JStr ''settle-worker'', b_base = 3, b_surge = 1, b_pods = 5, b_procs = 1, b_pool = 2,
     b_overflow = 10, b_conns = 60\<rparr>"

lemma example_budget: "check_budget default_args [example_deployment] = Inr ([example_row], 63, 0)"
  by code_simp

lemma example_output:
  "map_res row_line [example_row] = Inr [''settle-worker       3      1     5      1     2   10     60'']"
  "bind_res (budget_main default_args [example_deployment]) (\<lambda>(ls, code). Inr (last ls, code)) = Inr (''OK, headroom 29'', 0)"
  by code_simp+


end
