(* ===== verification/Verify.thy ===== *)
theory Verify
  imports Config Numbers
begin

section \<open>The release gate: scripts/ci/verify\_release.py\<close>

text \<open>
  \<^verbatim>\<open>scripts/ci/verify_release.py\<close>: the synthetic journeys with their statistics, the wait
  for the sample payouts, the Prometheus queries, and the gates that decide between keeping and
  rolling back a release. What the HTTP requests and \<open>kubectl\<close> gave, and the clocks, are
  arguments; an exception ends the script with exit code 1.
\<close>

subsection \<open>Requests\<close>

text \<open>
  What \<open>urlopen\<close> does: it gives a status and a body, raises an \<open>HTTPError\<close> with a status, or
  raises something else. A body that is not JSON raises inside the \<open>try\<close> too, so a 200 with
  such a body counts as 599, a transport error.
\<close>

datatype http_outcome = Http_body int payload | Http_error int | Http_fails

definition http :: "http_outcome \<Rightarrow> int \<times> json" where
  "http out =
     (case out of
        Http_body status raw \<Rightarrow>
          (case json_loads (if payload_truthy raw then raw else Json JNull) of
             Inr v \<Rightarrow> (status, v)
           | Inl e \<Rightarrow> (599, JNull))
      | Http_error code \<Rightarrow> (code, JNull)
      | Http_fails \<Rightarrow> (599, JNull))"

text \<open>\<open>v[k]\<close> for a text \<open>k\<close> and \<open>v[i]\<close> for a number \<open>i\<close>, of a decoded document.\<close>

fun item :: "json \<Rightarrow> string \<Rightarrow> json res" where
  "item (JObj kvs) k = dict_item kvs k"
| "item v k = Inl (TypeError ''indices must be integers'')"

fun index :: "json \<Rightarrow> nat \<Rightarrow> json res" where
  "index (JList xs) i = (if i < length xs then Inr (xs ! i) else Inl (IndexError ''list index out of range''))"
| "index (JStr s) i = (if i < length s then Inr (JStr [s ! i]) else Inl (IndexError ''string index out of range''))"
| "index (JObj kvs) i = Inl (KeyError (str_nat i))"
| "index v i = Inl (TypeError ''object is not subscriptable'')"

subsection \<open>Statistics of the journeys\<close>

record check_stats =
  ck_ok :: nat
  ck_fail :: nat
  ck_codes :: "(string \<times> nat) list"

record stats =
  st_requests :: nat
  st_5xx :: nat
  st_transport :: nat
  st_by_check :: "(string \<times> check_stats) list"
  st_sample_ids :: "json list"

definition no_stats :: stats where
  "no_stats = \<lparr>st_requests = 0, st_5xx = 0, st_transport = 0, st_by_check = [], st_sample_ids = []\<rparr>"

definition no_check :: check_stats where
  "no_check = \<lparr>ck_ok = 0, ck_fail = 0, ck_codes = []\<rparr>"

definition lookup_or :: "('k \<times> 'v) list \<Rightarrow> 'k \<Rightarrow> 'v \<Rightarrow> 'v" where
  "lookup_or m k d = (case map_of m k of None \<Rightarrow> d | Some v \<Rightarrow> v)"

definition good_status :: "int \<Rightarrow> bool" where
  "good_status status \<longleftrightarrow> status < 500"

definition record_status :: "string \<Rightarrow> int \<Rightarrow> stats \<Rightarrow> bool \<times> stats" where
  "record_status name status st =
     (let c = lookup_or (st_by_check st) name no_check;
          ok = good_status status;
          c1 = (if ok then c\<lparr>ck_ok := ck_ok c + 1\<rparr> else c\<lparr>ck_fail := ck_fail c + 1\<rparr>);
          code = str_int status;
          c2 = c1\<lparr>ck_codes := AList.update code (lookup_or (ck_codes c1) code 0 + 1) (ck_codes c1)\<rparr>;
          st1 = st\<lparr>st_requests := st_requests st + 1, st_by_check := AList.update name c2 (st_by_check st)\<rparr>
      in (ok, if status = 599 then st1\<lparr>st_transport := st_transport st1 + 1\<rparr>
              else if \<not> ok then st1\<lparr>st_5xx := st_5xx st1 + 1\<rparr> else st1))"

text \<open>
  One pass of the loop, with what its requests gave: the list, the creation, the read-back and
  the execution. A creation whose document has no \<open>id\<close> ends the script.
\<close>

record answers =
  an_list :: http_outcome
  an_create :: http_outcome
  an_get :: http_outcome
  an_execute :: http_outcome

definition journey :: "answers \<Rightarrow> stats \<Rightarrow> stats res" where
  "journey a st =
     (let (_, st1) = record_status ''GET /settlements'' (fst (http (an_list a))) st;
          (s, body) = http (an_create a);
          (ok, st2) = record_status ''POST /settlements'' s st1
      in if ok \<and> py_truth body
         then bind_res (item body ''id'') (\<lambda>sid.
           let (_, st3) = record_status ''GET /settlements/{id}'' (fst (http (an_get a))) st2
           in if length (st_sample_ids st3) < 3
              then (let (ok4, st4) = record_status ''POST /settlements/{id}/execute'' (fst (http (an_execute a))) st3
                    in Inr (if ok4 then st4\<lparr>st_sample_ids := st_sample_ids st4 @ [sid]\<rparr> else st4))
              else Inr st3)
         else Inr st2)"

fun journeys_from :: "answers list \<Rightarrow> stats \<Rightarrow> stats res" where
  "journeys_from [] st = Inr st"
| "journeys_from (a # as) st = bind_res (journey a st) (journeys_from as)"

definition journeys :: "answers list \<Rightarrow> stats res" where
  "journeys as = journeys_from as no_stats"

subsection \<open>Following the payouts\<close>

text \<open>One poll: 200 with a non-empty document whose \<open>payout_state\<close> is \<open>paid\<close>.\<close>

definition poll_paid :: "http_outcome \<Rightarrow> bool res" where
  "poll_paid out =
     (let (s, body) = http out
      in if s = 200 \<and> py_truth body
         then (case body of
                 JObj kvs \<Rightarrow> Inr (dict_get kvs ''payout_state'' JNull = JStr ''paid'')
               | _ \<Rightarrow> Inl (AttributeError ''get''))
         else Inr False)"

fun poll_round :: "(json \<Rightarrow> http_outcome) \<Rightarrow> json list \<Rightarrow> json list res" where
  "poll_round answer [] = Inr []"
| "poll_round answer (sid # sids) =
     bind_res (poll_paid (answer sid)) (\<lambda>paid.
     bind_res (poll_round answer sids) (\<lambda>rest. Inr (if paid then rest else sid # rest)))"

text \<open>
  \<open>polls i sid\<close>: what the poll of settlement \<open>sid\<close> in round \<open>i\<close> gave; \<open>clock i\<close>: the monotonic
  clock before round \<open>i\<close>. A round sleeps two seconds, so the clock advances by at least two.
\<close>

fun poll_payouts ::
  "nat \<Rightarrow> (nat \<Rightarrow> json \<Rightarrow> http_outcome) \<Rightarrow> (nat \<Rightarrow> real) \<Rightarrow> real \<Rightarrow> nat \<Rightarrow> json list \<Rightarrow> json list res option" where
  "poll_payouts 0 polls clock deadline i pend = None"
| "poll_payouts (Suc fuel) polls clock deadline i pend =
     (if pend = [] \<or> \<not> clock i < deadline then Some (Inr pend)
      else (case poll_round (polls i) pend of
              Inl e \<Rightarrow> Some (Inl e)
            | Inr rest \<Rightarrow> poll_payouts fuel polls clock deadline (Suc i) rest))"

definition PAYOUT_DEADLINE_S :: int where "PAYOUT_DEADLINE_S = 60"

text \<open>\<open>set(ids)\<close>: ids are compared as JSON values, lists and objects cannot be in a set.\<close>

fun hashable :: "json \<Rightarrow> bool" where
  "hashable (JList xs) = False"
| "hashable (JObj kvs) = False"
| "hashable v = True"

definition payout_paid ::
  "nat \<Rightarrow> (nat \<Rightarrow> json \<Rightarrow> http_outcome) \<Rightarrow> (nat \<Rightarrow> real) \<Rightarrow> real \<Rightarrow> json list \<Rightarrow> (int \<times> int) res option" where
  "payout_paid fuel polls clock now ids =
     (if list_all hashable ids
      then map_option (\<lambda>r. bind_res r (\<lambda>pend. Inr (int (length ids) - int (length pend), int (length ids))))
             (poll_payouts fuel polls clock (now + of_int PAYOUT_DEADLINE_S) 0 (remdups ids))
      else Some (Inl (TypeError ''unhashable type'')))"

subsection \<open>Prometheus\<close>

text \<open>\<open>urlencode\<close>: letters, digits and \<^verbatim>\<open>_.-~\<close> stand for themselves, a blank is a plus sign, any
  other byte of the UTF-8 text is a percent sign and two hexadecimal digits.\<close>

definition hex_digit :: "nat \<Rightarrow> char" where
  "hex_digit n = (if n < 10 then digit_char n else char_of (55 + n))"

definition percent :: "nat \<Rightarrow> string" where
  "percent b = [CHR ''%'', hex_digit (b div 16), hex_digit (b mod 16)]"

definition utf8 :: "char \<Rightarrow> nat list" where
  "utf8 c = (let n = of_char c in if n < 128 then [n] else [192 + n div 64, 128 + n mod 64])"

definition url_safe :: "char \<Rightarrow> bool" where
  "url_safe c \<longleftrightarrow> (let n = (of_char c :: nat) in
     48 \<le> n \<and> n \<le> 57 \<or> 65 \<le> n \<and> n \<le> 90 \<or> 97 \<le> n \<and> n \<le> 122) \<or> c \<in> set ''_.-~''"

definition quote_plus :: "string \<Rightarrow> string" where
  "quote_plus s = concat (map (\<lambda>c. if c = CHR '' '' then ''+'' else if url_safe c then [c]
     else concat (map percent (utf8 c))) s)"

definition PROM_PROXY :: "environ \<Rightarrow> string" where
  "PROM_PROXY env = getenv env ''PROM_PROXY''
     ''/api/v1/namespaces/monitoring/services/kube-prometheus-stack-prometheus:9090/proxy''"

definition NS :: "environ \<Rightarrow> string" where
  "NS env = getenv env ''NAMESPACE'' ''settle''"

text \<open>What \<open>kubectl get --raw path\<close> did: it ended with a return code and an output, or ran into its
  timeout of thirty seconds.\<close>

datatype kubectl = Ran int payload | Timed_out

definition prom :: "environ \<Rightarrow> (string \<Rightarrow> kubectl) \<Rightarrow> string \<Rightarrow> pyf option res" where
  "prom env run query =
     (case run (PROM_PROXY env @ ''/api/v1/query?query='' @ quote_plus query) of
        Timed_out \<Rightarrow> Inl (TimeoutExpired ''kubectl'')
      | Ran code stdout \<Rightarrow>
          (if code \<noteq> 0 then Inr None
           else bind_res (json_loads stdout) (\<lambda>v.
                bind_res (item v ''data'') (\<lambda>d.
                bind_res (item d ''result'') (\<lambda>res.
                if py_truth res
                then bind_res (index res 0) (\<lambda>e.
                     bind_res (item e ''value'') (\<lambda>p.
                     bind_res (index p 1) (\<lambda>x.
                     bind_res (json_float x) (\<lambda>f. Inr (Some f)))))
                else Inr None)))))"

definition restarts_query :: "string \<Rightarrow> string" where
  "restarts_query ns = ''sum(kube_pod_container_status_restarts_total{namespace=\"'' @ ns @ ''\"})''"

definition ratio_query :: "string \<Rightarrow> string \<Rightarrow> string" where
  "ratio_query v window =
     ''(sum(increase(settle_http_requests_total{version=\"'' @ v @ ''\",status=~\"5..\"}['' @ window
     @ ''])) or vector(0)) / sum(increase(settle_http_requests_total{version=\"'' @ v @ ''\"}['' @ window @ '']))''"

definition p95_query :: "string \<Rightarrow> string \<Rightarrow> string" where
  "p95_query v window =
     ''histogram_quantile(0.95, sum by (le) (rate(settle_http_request_duration_seconds_bucket{version=\"'' @ v
     @ ''\",route!=\"/reports/daily\"}['' @ window @ ''])))''"

definition dups_query :: string where
  "dups_query = ''max(settle_reconciliation_duplicate_payouts)''"

subsection \<open>The gates\<close>

definition MAX_5XX_RATIO :: real where "MAX_5XX_RATIO = 0.01"
definition MAX_TRANSPORT_ERROR_RATIO :: real where "MAX_TRANSPORT_ERROR_RATIO = 0.05"
definition MAX_P95_SECONDS :: real where "MAX_P95_SECONDS = 0.5"
definition MAX_RESTARTS :: real where "MAX_RESTARTS = 0"

lemmas limits = MAX_5XX_RATIO_def MAX_TRANSPORT_ERROR_RATIO_def MAX_P95_SECONDS_def MAX_RESTARTS_def

record prom_results =
  pr_restarts_before :: "pyf option"
  pr_ratio :: "pyf option"
  pr_p95 :: "pyf option"
  pr_restarts_after :: "pyf option"
  pr_dups :: "pyf option"

definition restarts_in_window :: "prom_results \<Rightarrow> pyf option" where
  "restarts_in_window p =
     (case (pr_restarts_before p, pr_restarts_after p) of
        (Some b, Some a) \<Rightarrow> Some (pyf_sub a b) | _ \<Rightarrow> None)"

definition at_most :: "pyf option \<Rightarrow> real \<Rightarrow> bool" where
  "at_most v bound = (case v of None \<Rightarrow> False | Some x \<Rightarrow> pyf_le x bound)"

text \<open>A row of the verdict table: the gate, the value observed, the threshold, the result.\<close>

type_synonym gate = "string \<times> string \<times> string \<times> bool"

definition observed :: "(pyf \<Rightarrow> string) \<Rightarrow> pyf option \<Rightarrow> string" where
  "observed show_it v = (case v of None \<Rightarrow> ''no data'' | Some x \<Rightarrow> show_it x)"

definition percent_text :: "nat \<Rightarrow> pyf \<Rightarrow> string" where
  "percent_text k x = fixed_pyf k 100 x @ ''%''"

definition gates :: "string \<Rightarrow> stats \<Rightarrow> int \<times> int \<Rightarrow> prom_results \<Rightarrow> gate list" where
  "gates v st payouts p =
     (let requests = real (max 1 (st_requests st)); (paid, executed) = payouts;
          client_ratio = real (st_5xx st) / requests; transport_ratio = real (st_transport st) / requests;
          restarts = restarts_in_window p
      in [(''synthetic journeys: HTTP 5xx ratio'', percent_text 1 (Fin client_ratio),
             ''<= '' @ percent_text 0 (Fin MAX_5XX_RATIO), client_ratio \<le> MAX_5XX_RATIO),
          (''synthetic journeys: transport errors (no response)'', percent_text 1 (Fin transport_ratio),
             ''<= '' @ percent_text 0 (Fin MAX_TRANSPORT_ERROR_RATIO), transport_ratio \<le> MAX_TRANSPORT_ERROR_RATIO),
          (''end-to-end payout paid within '' @ str_int PAYOUT_DEADLINE_S @ ''s'', str_int paid @ ''/'' @ str_int executed,
             ''all'', executed > 0 \<and> paid = executed),
          (''prometheus 5xx ratio, version='' @ v, observed (percent_text 1) (pr_ratio p),
             ''<= '' @ percent_text 0 (Fin MAX_5XX_RATIO), at_most (pr_ratio p) MAX_5XX_RATIO),
          (''prometheus p95 latency, version='' @ v, observed (\<lambda>x. fixed_pyf 0 1000 x @ '' ms'') (pr_p95 p),
             ''<= '' @ fixed 0 (MAX_P95_SECONDS * 1000) @ '' ms'', at_most (pr_p95 p) MAX_P95_SECONDS),
          (''container restarts during window'', observed (fixed_pyf 0 1) restarts,
             ''<= '' @ fixed 0 MAX_RESTARTS, at_most restarts MAX_RESTARTS),
          (''duplicate payouts (reconciliation)'', observed (fixed_pyf 0 1) (pr_dups p), ''0'', pr_dups p = Some (Fin 0))])"

definition gate_ok :: "gate \<Rightarrow> bool" where
  "gate_ok g = (case g of (name, obs, thr, ok) \<Rightarrow> ok)"

definition failed_gates :: "gate list \<Rightarrow> string list" where
  "failed_gates gs = map fst (filter (\<lambda>g. \<not> gate_ok g) gs)"

subsection \<open>The whole script\<close>

text \<open>
  What the script meets outside: the answers of the journeys, the polls with the clock, the
  start of the polls, the seconds of the whole window, and \<open>kubectl\<close> at each of the five queries.
\<close>

record outside =
  o_answers :: "answers list"
  o_polls :: "nat \<Rightarrow> json \<Rightarrow> http_outcome"
  o_clock :: "nat \<Rightarrow> real"
  o_now :: real
  o_elapsed :: real
  o_kubectl :: "nat \<Rightarrow> string \<Rightarrow> kubectl"

definition window_of :: "outside \<Rightarrow> string" where
  "window_of ext = str_int (py_trunc (o_elapsed ext) + 15) @ ''s''"

definition queries_after :: "environ \<Rightarrow> string \<Rightarrow> outside \<Rightarrow> pyf option \<Rightarrow> prom_results res" where
  "queries_after env v ext before =
     bind_res (prom env (o_kubectl ext 1) (ratio_query v (window_of ext))) (\<lambda>ratio.
     bind_res (prom env (o_kubectl ext 2) (p95_query v (window_of ext))) (\<lambda>p95.
     bind_res (prom env (o_kubectl ext 3) (restarts_query (NS env))) (\<lambda>after.
     bind_res (prom env (o_kubectl ext 4) dups_query) (\<lambda>dups.
     Inr \<lparr>pr_restarts_before = before, pr_ratio = ratio, pr_p95 = p95, pr_restarts_after = after, pr_dups = dups\<rparr>))))"

definition verification :: "nat \<Rightarrow> environ \<Rightarrow> string \<Rightarrow> outside \<Rightarrow> (stats \<times> gate list) res option" where
  "verification fuel env v ext =
     (case bind_res (prom env (o_kubectl ext 0) (restarts_query (NS env))) (\<lambda>before.
             bind_res (journeys (o_answers ext)) (\<lambda>st. Inr (before, st))) of
        Inl e \<Rightarrow> Some (Inl e)
      | Inr (before, st) \<Rightarrow>
          map_option (\<lambda>r. bind_res r (\<lambda>payouts.
                          bind_res (queries_after env v ext before) (\<lambda>p. Inr (st, gates v st payouts p))))
            (payout_paid fuel (o_polls ext) (o_clock ext) (o_now ext) (st_sample_ids st)))"

definition exit_code :: "(stats \<times> gate list) res \<Rightarrow> int" where
  "exit_code r = (case r of Inl e \<Rightarrow> 1 | Inr (st, gs) \<Rightarrow> if failed_gates gs = [] then 0 else 1)"

definition verify_release :: "nat \<Rightarrow> environ \<Rightarrow> string \<Rightarrow> outside \<Rightarrow> int option" where
  "verify_release fuel env v ext = map_option exit_code (verification fuel env v ext)"

subsection \<open>What the script prints\<close>

definition joined_by :: "string \<Rightarrow> string list \<Rightarrow> string" where
  "joined_by sep xs = (case xs of [] \<Rightarrow> [] | x # ys \<Rightarrow> x @ concat (map (\<lambda>y. sep @ y) ys))"

definition codes_text :: "(string \<times> nat) list \<Rightarrow> string" where
  "codes_text codes = ''{'' @ joined_by '', '' (map (\<lambda>(code, n). [CHR 39] @ code @ [CHR 39] @ '': '' @ str_nat n) codes) @ ''}''"

definition check_lines :: "stats \<Rightarrow> string list" where
  "check_lines st =
     map (\<lambda>(name, c). ''  '' @ ljust 34 name @ '' ok='' @ ljust 4 (str_nat (ck_ok c)) @ '' fail='' @ ljust 4 (str_nat (ck_fail c))
            @ '' codes='' @ codes_text (ck_codes c)) (st_by_check st)"

definition pass_text :: "bool \<Rightarrow> string" where
  "pass_text ok = (if ok then ''PASS'' else ''FAIL'')"

definition table_lines :: "gate list \<Rightarrow> string list" where
  "table_lines gs =
     (ljust 52 ''gate'' @ rjust 12 ''observed'' @ ''  '' @ ljust 10 ''threshold'' @ '' result'')
     # map (\<lambda>(name, obs, thr, ok). ljust 52 name @ rjust 12 obs @ ''  '' @ ljust 10 thr @ '' '' @ pass_text ok) gs"

definition summary :: "string \<Rightarrow> gate list \<Rightarrow> json" where
  "summary v gs = JObj [(''version'', JStr v), (''passed'', JBool (failed_gates gs = [])),
     (''failed_gates'', JList (map JStr (failed_gates gs)))]"

definition step_summary :: "string \<Rightarrow> gate list \<Rightarrow> string list" where
  "step_summary v gs =
     [''### Post-deploy verification of '' @ v @ '': '' @ pass_text (failed_gates gs = []), '''',
      ''| gate | observed | threshold | result |'', ''|---|---|---|---|'']
     @ map (\<lambda>(name, obs, thr, ok). ''| '' @ name @ '' | '' @ obs @ '' | '' @ thr @ '' | '' @ pass_text ok @ '' |'') gs"

subsection \<open>The statistics add up\<close>

definition check_total :: "check_stats \<Rightarrow> nat" where
  "check_total c = ck_ok c + ck_fail c"

definition sum_checks :: "(check_stats \<Rightarrow> nat) \<Rightarrow> stats \<Rightarrow> nat" where
  "sum_checks f st = sum_list (map (f \<circ> snd) (st_by_check st))"

definition codes_total :: "check_stats \<Rightarrow> nat" where
  "codes_total c = sum_list (map snd (ck_codes c))"

definition stats_ok :: "stats \<Rightarrow> bool" where
  "stats_ok st \<longleftrightarrow>
     distinct (map fst (st_by_check st))
   \<and> st_requests st = sum_checks check_total st
   \<and> st_5xx st + st_transport st = sum_checks ck_fail st
   \<and> (\<forall>(name, c) \<in> set (st_by_check st). distinct (map fst (ck_codes c)) \<and> codes_total c = check_total c)
   \<and> length (st_sample_ids st) \<le> 3"

lemma sum_update:
  fixes f :: "'v \<Rightarrow> nat"
  assumes "distinct (map fst m)" and "f d = 0"
  shows "sum_list (map (f \<circ> snd) (AList.update k v m)) + f (lookup_or m k d) = sum_list (map (f \<circ> snd) m) + f v"
  using assms
proof (induction m)
  case (Cons p m)
  have "map_of m k = None" if "fst p = k"
    using Cons.prems(1) that by (auto simp: map_of_eq_None_iff)
  with Cons show ?case by (cases p) (auto simp: lookup_or_def split: option.splits)
qed (simp add: lookup_or_def)

lemma record_status_ok:
  assumes "stats_ok st" and "record_status name status st = (ok, st')"
  shows "stats_ok st' \<and> st_sample_ids st' = st_sample_ids st \<and> st_requests st' = Suc (st_requests st)"
proof -
  define c where "c = lookup_or (st_by_check st) name no_check"
  define c1 where "c1 = (if good_status status then c\<lparr>ck_ok := ck_ok c + 1\<rparr> else c\<lparr>ck_fail := ck_fail c + 1\<rparr>)"
  define c2 where "c2 = c1\<lparr>ck_codes := AList.update (str_int status) (lookup_or (ck_codes c1) (str_int status) 0 + 1) (ck_codes c1)\<rparr>"
  have st': "st_by_check st' = AList.update name c2 (st_by_check st)" "st_requests st' = Suc (st_requests st)"
      "st_sample_ids st' = st_sample_ids st"
      "st_5xx st' + st_transport st' = st_5xx st + st_transport st + (if good_status status then 0 else 1)"
    using assms(2) by (auto simp: record_status_def Let_def c2_def c1_def c_def good_status_def split: if_splits)
  have dist: "distinct (map fst (st_by_check st))" using assms(1) by (simp add: stats_ok_def)
  have cc: "distinct (map fst (ck_codes c)) \<and> codes_total c = check_total c"
  proof (cases "map_of (st_by_check st) name")
    case None
    then show ?thesis by (simp add: c_def lookup_or_def no_check_def codes_total_def check_total_def)
  next
    case (Some x)
    then have "(name, x) \<in> set (st_by_check st)" by (rule map_of_SomeD)
    with assms(1) Some show ?thesis by (auto simp: stats_ok_def c_def lookup_or_def)
  qed
  have c1c: "ck_codes c1 = ck_codes c" "check_total c1 = Suc (check_total c)"
      "ck_fail c1 = ck_fail c + (if good_status status then 0 else 1)"
    by (simp_all add: c1_def check_total_def)
  have c2c: "check_total c2 = Suc (check_total c)" "ck_fail c2 = ck_fail c1"
    using c1c by (simp_all add: c2_def check_total_def)
  have "codes_total c2 = Suc (codes_total c)"
    using sum_update [of "ck_codes c" id 0 "str_int status" "Suc (lookup_or (ck_codes c) (str_int status) 0)"] cc
    by (simp add: codes_total_def c2_def c1c)
  then have c2ok: "distinct (map fst (ck_codes c2)) \<and> codes_total c2 = check_total c2"
    using cc c2c by (simp add: c2_def c1c(1) distinct_update)
  note sums = sum_update [OF dist, of check_total no_check name c2] sum_update [OF dist, of ck_fail no_check name c2]
  have zero: "check_total no_check = 0" "ck_fail no_check = 0" by (simp_all add: no_check_def check_total_def)
  have "st_requests st' = sum_checks check_total st'"
    using sums(1) [OF zero(1)] assms(1) c2c(1) by (simp add: sum_checks_def st' stats_ok_def flip: c_def)
  moreover have "st_5xx st' + st_transport st' = sum_checks ck_fail st'"
    using sums(2) [OF zero(2)] assms(1) c2c(2) c1c(3)
    by (simp add: sum_checks_def st'(1) stats_ok_def flip: c_def) (simp add: st'(4) split: if_splits)
  moreover have "distinct (map fst (ck_codes x)) \<and> codes_total x = check_total x"
    if "(k, x) \<in> set (st_by_check st')" for k x
  proof -
    from that have "map_of (st_by_check st') k = Some x"
      using dist by (simp add: st'(1) distinct_update)
    then have "map_of (st_by_check st) k = Some x \<or> x = c2" by (simp add: st'(1) update_conv' split: if_splits)
    with assms(1) c2ok show ?thesis by (auto simp: stats_ok_def dest!: map_of_SomeD)
  qed
  ultimately show ?thesis
    using assms(1) st'(2,3) dist by (auto simp: stats_ok_def st'(1) distinct_update)
qed

lemma add_sample_ok: "stats_ok st \<Longrightarrow> length (st_sample_ids st) < 3 \<Longrightarrow> stats_ok (st\<lparr>st_sample_ids := st_sample_ids st @ [sid]\<rparr>)"
  by (simp add: stats_ok_def sum_checks_def)

lemma journey_ok:
  assumes "stats_ok st" and "journey a st = Inr st'"
  shows "stats_ok st'"
proof -
  obtain b1 st1 where s1: "record_status ''GET /settlements'' (fst (http (an_list a))) st = (b1, st1)" by fastforce
  obtain s body where h: "http (an_create a) = (s, body)" by fastforce
  obtain ok st2 where s2: "record_status ''POST /settlements'' s st1 = (ok, st2)" by fastforce
  obtain b3 st3 where s3: "record_status ''GET /settlements/{id}'' (fst (http (an_get a))) st2 = (b3, st3)" by fastforce
  obtain ok4 st4 where s4: "record_status ''POST /settlements/{id}/execute'' (fst (http (an_execute a))) st3 = (ok4, st4)"
    by fastforce
  from record_status_ok [OF assms(1) s1] have o1: "stats_ok st1" by blast
  from record_status_ok [OF o1 s2] have o2: "stats_ok st2" by blast
  from record_status_ok [OF o2 s3] have o3: "stats_ok st3" by blast
  from record_status_ok [OF o3 s4] have o4: "stats_ok st4" "st_sample_ids st4 = st_sample_ids st3" by auto
  show ?thesis
    using assms(2) o2 o3 o4 add_sample_ok [OF o4(1)]
    by (auto simp: journey_def s1 h s2 s3 s4 bind_res_Inr Let_def split: if_splits)
qed

lemma journeys_ok: "journeys as = Inr st \<Longrightarrow> stats_ok st"
proof -
  have "stats_ok st" if "stats_ok st0" "journeys_from as st0 = Inr st" for st0
    using that by (induction as arbitrary: st0) (auto simp: bind_res_Inr dest: journey_ok)
  moreover have "stats_ok no_stats" by (simp add: no_stats_def stats_ok_def sum_checks_def)
  ultimately show "journeys as = Inr st \<Longrightarrow> stats_ok st" by (simp add: journeys_def)
qed

subsection \<open>Following the payouts ends\<close>

lemma poll_round_result:
  "poll_round answer sids = Inr rest \<Longrightarrow> set rest \<subseteq> set sids
     \<and> (\<forall>sid \<in> set sids. sid \<in> set rest \<or> poll_paid (answer sid) = Inr True)"
  by (induction sids arbitrary: rest) (auto simp: bind_res_Inr split: if_splits)

lemma poll_ends:
  assumes "clock (i + n) \<ge> deadline" and "n < fuel"
  shows "\<exists>r. poll_payouts fuel polls clock deadline i pend = Some r"
  using assms
proof (induction fuel arbitrary: i n pend)
  case (Suc fuel)
  show ?case
  proof (cases "pend = [] \<or> \<not> clock i < deadline")
    case False
    with Suc.prems obtain m where m: "n = Suc m" by (cases n) auto
    with Suc.prems have "clock (Suc i + m) \<ge> deadline" "m < fuel" by auto
    from Suc.IH [OF this] False show ?thesis by (auto split: sum.split)
  qed auto
qed simp

lemma poll_payouts_paid:
  "poll_payouts fuel polls clock deadline i pend = Some (Inr rest) \<Longrightarrow> sid \<in> set pend \<Longrightarrow> sid \<notin> set rest \<Longrightarrow>
     \<exists>j. clock j < deadline \<and> poll_paid (polls j sid) = Inr True"
proof (induction fuel arbitrary: i pend)
  case (Suc fuel)
  from Suc.prems have go: "\<not> (pend = [] \<or> \<not> clock i < deadline)" by (auto split: if_splits)
  with Suc.prems(1) obtain left where left: "poll_round (polls i) pend = Inr left"
      "poll_payouts fuel polls clock deadline (Suc i) left = Some (Inr rest)"
    by (auto split: if_splits sum.splits)
  show ?case
  proof (cases "sid \<in> set left")
    case True
    from Suc.IH [OF left(2) True Suc.prems(3)] show ?thesis .
  next
    case False
    with poll_round_result [OF left(1)] Suc.prems(2) go show ?thesis by blast
  qed
qed simp

lemma payout_paid_all:
  assumes "payout_paid fuel polls clock now ids = Some (Inr (n, k))" and "n = k" and "sid \<in> set ids"
  shows "\<exists>j. clock j < now + of_int PAYOUT_DEADLINE_S \<and> poll_paid (polls j sid) = Inr True"
proof -
  let ?deadline = "now + of_int PAYOUT_DEADLINE_S"
  from assms(1) obtain rest where rest: "poll_payouts fuel polls clock ?deadline 0 (remdups ids) = Some (Inr rest)"
      "n = int (length ids) - int (length rest)" "k = int (length ids)"
    by (auto simp: payout_paid_def bind_res_Inr split: if_splits)
  with assms(2) have "rest = []" by simp
  with poll_payouts_paid [OF rest(1), of sid] assms(3) show ?thesis by simp
qed

lemma gates_pass:
  "failed_gates (gates v st (n, k) p) = [] \<longleftrightarrow>
     real (st_5xx st) \<le> MAX_5XX_RATIO * real (max 1 (st_requests st))
   \<and> real (st_transport st) \<le> MAX_TRANSPORT_ERROR_RATIO * real (max 1 (st_requests st))
   \<and> k > 0 \<and> n = k
   \<and> at_most (pr_ratio p) MAX_5XX_RATIO \<and> at_most (pr_p95 p) MAX_P95_SECONDS
   \<and> at_most (restarts_in_window p) MAX_RESTARTS \<and> pr_dups p = Some (Fin 0)"
proof -
  have "failed_gates gs = [] \<longleftrightarrow> list_all gate_ok gs" for gs
    by (auto simp: failed_gates_def filter_empty_conv list_all_iff)
  then show ?thesis
    unfolding gates_def Let_def prod.case list.pred_inject gate_ok_def
    by (simp only: simp_thms conj_assoc) (simp add: pos_divide_le_eq)
qed

lemma at_most_some: "at_most v b \<longleftrightarrow> (\<exists>x. v = Some x \<and> pyf_le x b)"
  by (simp add: at_most_def split: option.splits)

lemma restarts_some:
  "restarts_in_window p = Some x \<longleftrightarrow>
     (\<exists>a b. pr_restarts_after p = Some a \<and> pr_restarts_before p = Some b \<and> x = pyf_sub a b)"
  by (cases "pr_restarts_before p"; cases "pr_restarts_after p") (auto simp: restarts_in_window_def)

lemma verification_passes:
  assumes "verify_release fuel env v ext = Some 0"
  shows "\<exists>st p n. journeys (o_answers ext) = Inr st
    \<and> payout_paid fuel (o_polls ext) (o_clock ext) (o_now ext) (st_sample_ids st) = Some (Inr (n, n)) \<and> n > 0
    \<and> prom env (o_kubectl ext 0) (restarts_query (NS env)) = Inr (pr_restarts_before p)
    \<and> queries_after env v ext (pr_restarts_before p) = Inr p \<and> failed_gates (gates v st (n, n) p) = []"
proof -
  from assms obtain r where r: "verification fuel env v ext = Some r" "exit_code r = 0"
    by (auto simp: verify_release_def)
  then obtain st gs where gs: "r = Inr (st, gs)" "failed_gates gs = []"
    by (auto simp: exit_code_def split: sum.splits if_splits)
  with r(1) obtain before payouts p where p: "prom env (o_kubectl ext 0) (restarts_query (NS env)) = Inr before"
      "journeys (o_answers ext) = Inr st"
      "payout_paid fuel (o_polls ext) (o_clock ext) (o_now ext) (st_sample_ids st) = Some (Inr payouts)"
      "queries_after env v ext before = Inr p" "gs = gates v st payouts p"
    by (auto simp: verification_def bind_res_Inr split: sum.splits)
  moreover from p(4) have "pr_restarts_before p = before" by (auto simp: queries_after_def bind_res_Inr)
  moreover obtain n k where nk: "payouts = (n, k)" by fastforce
  with gs p(5) gates_pass [of v st n k p] have "n = k" "k > 0" by simp_all
  ultimately show ?thesis using gs nk by auto
qed

lemma verify_kept:
  assumes "verify_release fuel env v ext = Some 0"
  shows "\<exists>st ratio p95 before after. journeys (o_answers ext) = Inr st
       \<and> st_sample_ids st \<noteq> []
       \<and> (\<forall>sid \<in> set (st_sample_ids st). \<exists>j. o_clock ext j < o_now ext + 60 \<and> poll_paid (o_polls ext j sid) = Inr True)
       \<and> real (st_5xx st) \<le> MAX_5XX_RATIO * real (max 1 (st_requests st))
       \<and> real (st_transport st) \<le> MAX_TRANSPORT_ERROR_RATIO * real (max 1 (st_requests st))
       \<and> prom env (o_kubectl ext 1) (ratio_query v (window_of ext)) = Inr (Some ratio) \<and> pyf_le ratio MAX_5XX_RATIO
       \<and> prom env (o_kubectl ext 2) (p95_query v (window_of ext)) = Inr (Some p95) \<and> pyf_le p95 MAX_P95_SECONDS
       \<and> prom env (o_kubectl ext 0) (restarts_query (NS env)) = Inr (Some before)
       \<and> prom env (o_kubectl ext 3) (restarts_query (NS env)) = Inr (Some after) \<and> pyf_le (pyf_sub after before) 0
       \<and> prom env (o_kubectl ext 4) dups_query = Inr (Some (Fin 0))"
proof -
  from verification_passes [OF assms] obtain st p n where p: "journeys (o_answers ext) = Inr st"
      "payout_paid fuel (o_polls ext) (o_clock ext) (o_now ext) (st_sample_ids st) = Some (Inr (n, n))" "n > 0"
      "prom env (o_kubectl ext 0) (restarts_query (NS env)) = Inr (pr_restarts_before p)"
      "queries_after env v ext (pr_restarts_before p) = Inr p" "failed_gates (gates v st (n, n) p) = []" by blast
  from p(6) [unfolded gates_pass at_most_some restarts_some]
  obtain ratio p95 after before where g: "pr_ratio p = Some ratio" "pyf_le ratio MAX_5XX_RATIO"
      "pr_p95 p = Some p95" "pyf_le p95 MAX_P95_SECONDS" "pr_restarts_after p = Some after"
      "pr_restarts_before p = Some before" "pyf_le (pyf_sub after before) 0" "pr_dups p = Some (Fin 0)"
      "real (st_5xx st) \<le> MAX_5XX_RATIO * real (max 1 (st_requests st))"
      "real (st_transport st) \<le> MAX_TRANSPORT_ERROR_RATIO * real (max 1 (st_requests st))"
    by (auto simp: MAX_RESTARTS_def)
  have "prom env (o_kubectl ext 1) (ratio_query v (window_of ext)) = Inr (pr_ratio p)"
      "prom env (o_kubectl ext 2) (p95_query v (window_of ext)) = Inr (pr_p95 p)"
      "prom env (o_kubectl ext 3) (restarts_query (NS env)) = Inr (pr_restarts_after p)"
      "prom env (o_kubectl ext 4) dups_query = Inr (pr_dups p)"
    using p(5) by (cases p; auto simp: queries_after_def bind_res_Inr)+
  moreover have "st_sample_ids st \<noteq> []"
    using p(2,3) by (auto simp: payout_paid_def bind_res_Inr split: if_splits)
  moreover have "\<forall>sid \<in> set (st_sample_ids st). \<exists>j. o_clock ext j < o_now ext + 60 \<and> poll_paid (o_polls ext j sid) = Inr True"
    using payout_paid_all [OF p(2) refl] by (auto simp: PAYOUT_DEADLINE_S_def)
  ultimately show ?thesis using p(1,4) g by (intro exI conjI) simp_all
qed

section \<open>Property of the release gate\<close>

text \<open>C35. The release gate always decides, and it fails closed: a release is kept only if some payout
  was executed and every sampled one was seen paid within the deadline, at most 1\% of the
  synthetic requests failed and at most 5\% got no answer, and each Prometheus query, scoped to the
  new version, returned a number within its limit; a query without data, a value that is not a
  number or an exception rolls the release back.\<close>

theorem release_gate_fails_closed:
  assumes "\<And>i. o_clock ext i \<ge> o_now ext + 2 * real i" and "30 < fuel"
  shows "\<exists>code. verify_release fuel env v ext = Some code \<and> (code = 0 \<or> code = 1)
    \<and> (code = 0 \<longrightarrow> (\<exists>st ratio p95 before after. journeys (o_answers ext) = Inr st
       \<and> st_sample_ids st \<noteq> []
       \<and> (\<forall>sid \<in> set (st_sample_ids st). \<exists>j. o_clock ext j < o_now ext + 60 \<and> poll_paid (o_polls ext j sid) = Inr True)
       \<and> real (st_5xx st) \<le> MAX_5XX_RATIO * real (max 1 (st_requests st))
       \<and> real (st_transport st) \<le> MAX_TRANSPORT_ERROR_RATIO * real (max 1 (st_requests st))
       \<and> prom env (o_kubectl ext 1) (ratio_query v (window_of ext)) = Inr (Some ratio) \<and> pyf_le ratio MAX_5XX_RATIO
       \<and> prom env (o_kubectl ext 2) (p95_query v (window_of ext)) = Inr (Some p95) \<and> pyf_le p95 MAX_P95_SECONDS
       \<and> prom env (o_kubectl ext 0) (restarts_query (NS env)) = Inr (Some before)
       \<and> prom env (o_kubectl ext 3) (restarts_query (NS env)) = Inr (Some after) \<and> pyf_le (pyf_sub after before) 0
       \<and> prom env (o_kubectl ext 4) dups_query = Inr (Some (Fin 0))))"
proof -
  have "\<exists>r. payout_paid fuel (o_polls ext) (o_clock ext) (o_now ext) ids = Some r" for ids
    using poll_ends [where clock = "o_clock ext" and i = 0 and n = 30 and deadline = "o_now ext + of_int PAYOUT_DEADLINE_S"
        and fuel = fuel, OF _ assms(2)] assms(1) [of 30]
    by (auto simp: payout_paid_def PAYOUT_DEADLINE_S_def)
  then obtain r where r: "verification fuel env v ext = Some r"
    by (fastforce simp: verification_def split: sum.split)
  then have v: "verify_release fuel env v ext = Some (exit_code r)" by (simp add: verify_release_def)
  moreover have "exit_code r = 0 \<or> exit_code r = 1" by (simp add: exit_code_def split: sum.split)
  ultimately show ?thesis
    using verify_kept [of fuel env v ext] by (intro exI [of _ "exit_code r"]) simp
qed

theorem release_gate_fails_closed_witness:
  "verify_release 31 Map.empty ''1.9.0''
     \<lparr>o_answers = [\<lparr>an_list = Http_body 200 (Json (JList [])), an_create = Http_body 201 (Json (JObj [(''id'', JInt 9)])),
                     an_get = Http_body 200 (Json (JObj [(''id'', JInt 9)])), an_execute = Http_body 202 (Json (JObj []))\<rparr>],
      o_polls = \<lambda>i sid. Http_body 200 (Json (JObj [(''payout_state'', JStr ''paid'')])),
      o_clock = \<lambda>i. 2 * real i, o_now = 0, o_elapsed = 90, o_kubectl = \<lambda>i path. Ran 1 (NotJson [])\<rparr> = Some 1"
proof -
  let ?ext = "\<lparr>o_answers = [\<lparr>an_list = Http_body 200 (Json (JList [])), an_create = Http_body 201 (Json (JObj [(''id'', JInt 9)])),
                     an_get = Http_body 200 (Json (JObj [(''id'', JInt 9)])), an_execute = Http_body 202 (Json (JObj []))\<rparr>],
      o_polls = \<lambda>i sid. Http_body 200 (Json (JObj [(''payout_state'', JStr ''paid'')])),
      o_clock = \<lambda>i. 2 * real i, o_now = 0, o_elapsed = 90, o_kubectl = \<lambda>i path. Ran 1 (NotJson [])\<rparr>"
  have "prom Map.empty (o_kubectl ?ext 1) q = Inr None" for q by (simp add: prom_def)
  then show ?thesis
    using release_gate_fails_closed [of ?ext 31 Map.empty "''1.9.0''"] by auto
qed

end
