(* ===== verification/Api_Types.thy ===== *)
theory Api_Types
  imports Api_Correct
begin

section \<open>The types of the documents the service sends\<close>

text \<open>
  A type system for JSON documents and the type of the response of each endpoint. Typing is
  checked on the handlers first and carried through the exception handlers and the middleware,
  so a client that knows the status of a response knows the fields it can read.
\<close>

datatype ty = TInt | TStr | TBool | TOpt ty | TList ty | TObj "(string \<times> ty) list"

fun has_type :: "json \<Rightarrow> ty \<Rightarrow> bool" where
  "has_type v TInt = (case v of JInt i \<Rightarrow> True | _ \<Rightarrow> False)"
| "has_type v TStr = (case v of JStr s \<Rightarrow> True | _ \<Rightarrow> False)"
| "has_type v TBool = (case v of JBool b \<Rightarrow> True | _ \<Rightarrow> False)"
| "has_type v (TOpt t) = (v = JNull \<or> has_type v t)"
| "has_type v (TList t) = (case v of JList vs \<Rightarrow> list_all (\<lambda>v. has_type v t) vs | _ \<Rightarrow> False)"
| "has_type v (TObj fts) =
     (case v of JObj kvs \<Rightarrow> list_all2 (\<lambda>kv ft. fst kv = fst ft \<and> has_type (snd kv) (snd ft)) kvs fts | _ \<Rightarrow> False)"

text \<open>A document of an object type has each of its fields, with a value of the field's type.\<close>

lemma typed_fields:
  "list_all2 (\<lambda>kv ft. fst kv = fst ft \<and> has_type (snd kv) (snd ft)) kvs fts \<Longrightarrow> map_of fts k = Some t
    \<Longrightarrow> \<exists>v. map_of kvs k = Some v \<and> has_type v t"
  by (induction kvs fts rule: list_all2_induct) (auto split: if_splits)

lemma typed_field:
  "has_type v (TObj fts) \<Longrightarrow> map_of fts k = Some t \<Longrightarrow> \<exists>kvs u. v = JObj kvs \<and> map_of kvs k = Some u \<and> has_type u t"
  by (auto split: json.splits dest: typed_fields)

subsection \<open>The type of each response\<close>

definition settlement_fields :: "(string \<times> ty) list" where
  "settlement_fields =
     [(''id'', TInt), (''merchant_id'', TInt), (''settlement_date'', TStr), (''amount_minor'', TInt),
      (''currency'', TStr), (''status'', TStr)]"

definition deps_type :: ty where
  "deps_type = TObj [(''status'', TStr), (''postgres'', TBool), (''redis'', TBool),
     (''pool'', TObj [(''checked_out'', TInt), (''size'', TInt), (''overflow'', TInt)])]"

fun result_type :: "endpoint \<Rightarrow> ty" where
  "result_type Livez = TObj [(''status'', TStr)]"
| "result_type (Readyz draining version) = TObj [(''status'', TStr), (''version'', TStr)]"
| "result_type Healthz = TObj [(''status'', TStr)]"
| "result_type (Healthz_Deps postgres redis pool) = deps_type"
| "result_type (List_Settlements date limit) = TList (TObj (settlement_fields @ [(''payout_state'', TOpt TStr)]))"
| "result_type (Get_Settlement sid) = TObj (settlement_fields @
     [(''payout_id'', TOpt TInt), (''payout_state'', TOpt TStr), (''bank_ref'', TOpt TStr)])"
| "result_type (Create_Settlement body new_id) = TObj [(''id'', TInt), (''status'', TStr)]"
| "result_type (Execute_Settlement sid new_id created now) = TObj [(''payout_id'', TInt), (''state'', TStr)]"
| "result_type (Daily_Report date today) = TObj [(''date'', TStr), (''totals'', TList (TObj
     [(''currency'', TStr), (''settlements'', TInt), (''total_minor'', TInt), (''paid'', TInt)]))]"

fun success_status :: "endpoint \<Rightarrow> int" where
  "success_status (Create_Settlement body new_id) = 201"
| "success_status (Execute_Settlement sid new_id created now) = 202"
| "success_status _ = 200"

text \<open>The type by status: the probes use 503 for an answer of their own.\<close>

definition response_type :: "endpoint \<Rightarrow> int \<Rightarrow> ty" where
  "response_type ep st =
     (if st = success_status ep then result_type ep
      else if st = 503
           then (case ep of
                   Readyz draining version \<Rightarrow> TObj [(''status'', TStr)]
                 | Healthz_Deps postgres redis pool \<Rightarrow> deps_type
                 | _ \<Rightarrow> TObj [(''error'', TStr), (''kind'', TStr)])
           else TObj [(''detail'', TStr)])"

subsection \<open>The handlers are typed\<close>

lemma settlement_cells_typed:
  "has_type (JObj (settlement_cells s @ kvs)) (TObj (settlement_fields @ fts)) = has_type (JObj kvs) (TObj fts)"
  by (simp add: settlement_cells_def settlement_fields_def)

lemma nullable_typed [simp]: "has_type (nullable x) (TOpt TStr)"
  by (cases x) simp_all

lemma list_item_typed: "has_type (list_item row) (TObj (settlement_fields @ [(''payout_state'', TOpt TStr)]))"
proof -
  obtain s p where row: "row = (s, p)" by fastforce
  have "has_type (JObj [(''payout_state'', nullable (map_option p_state p))]) (TObj [(''payout_state'', TOpt TStr)])"
    using nullable_typed by simp
  then show ?thesis unfolding row list_item_def prod.case settlement_cells_typed .
qed

lemma get_settlement_typed:
  assumes "get_settlement sid d = Inr v"
  shows "has_type v (result_type (Get_Settlement sid))"
proof -
  obtain s p where fr: "first_row (filter (\<lambda>(s, p). s_id s = sid) (left_join d)) = Some (s, p)"
    using assms by (auto simp: get_settlement_def split: option.splits)
  then have v: "v = JObj (settlement_cells s @
            [(''payout_id'', case p of None \<Rightarrow> JNull | Some q \<Rightarrow> JInt (p_id q)),
             (''payout_state'', nullable (map_option p_state p)),
             (''bank_ref'', nullable (Option.bind p p_bank_ref))])"
    using assms by (simp add: get_settlement_def)
  have "has_type (case p of None \<Rightarrow> JNull | Some q \<Rightarrow> JInt (p_id q)) (TOpt TInt)" by (cases p) simp_all
  then show ?thesis
    unfolding v result_type.simps settlement_cells_typed using nullable_typed by simp
qed

lemma report_typed: "has_type (report_json date ls) (result_type (Daily_Report day today))"
  by (simp add: report_json_def list_all_iff)

lemma execute_result:
  "execute_settlement R rep_db rep_push sid nid created rid now w = (Inr v, w') \<Longrightarrow>
     \<exists>i. v = JObj [(''payout_id'', JInt i), (''state'', JStr ''queued'')]"
  by (auto simp: execute_settlement_def split: prod.splits sum.splits)

text \<open>
  What the calls to Postgres and Redis raise is never an \<open>HTTPException\<close>: only the endpoints do.
\<close>

fun service_reply :: "reply \<Rightarrow> bool" where
  "service_reply Done = True"
| "service_reply (Refused e) = (case e of HTTPException st m \<Rightarrow> False | _ \<Rightarrow> True)"
| "service_reply (Lost e) = (case e of HTTPException st m \<Rightarrow> False | _ \<Rightarrow> True)"

definition http_error :: "exn \<Rightarrow> bool" where
  "http_error e \<longleftrightarrow> (case e of HTTPException st m \<Rightarrow> st = 404 \<or> st = 409 | _ \<Rightarrow> True)"

lemma service_reply_error: "service_reply (Refused e) \<Longrightarrow> http_error e" "service_reply (Lost e) \<Longrightarrow> http_error e"
  by (simp_all add: http_error_def split: exn.splits)

lemma transaction_error:
  "service_reply rep \<Longrightarrow> (\<And>e s'. f s = (Inl e, s') \<Longrightarrow> http_error e) \<Longrightarrow> transaction rep f s = (Inl e, s') \<Longrightarrow> http_error e"
  by (cases rep) (auto simp del: service_reply.simps split: prod.splits sum.splits dest: service_reply_error)

lemma insert_errors:
  "insert_settlement s d = (Inl e, d') \<Longrightarrow> http_error e" "insert_payout p d = (Inl e, d') \<Longrightarrow> http_error e"
  by (auto simp: insert_settlement_def insert_payout_def http_error_def split: option.splits if_splits)

lemma execute_tx_error: "execute_tx sid nid created d = (Inl e, d') \<Longrightarrow> http_error e"
  by (auto simp: execute_tx_def http_error_def split: prod.splits sum.splits option.splits
      dest!: insert_errors [unfolded http_error_def])

text \<open>The pool's counters are there, or the pool class does not have them.\<close>

fun pool_known :: "endpoint \<Rightarrow> bool" where
  "pool_known (Healthz_Deps postgres redis sizes) =
     (case sizes of Inl e \<Rightarrow> (case e of AttributeError m \<Rightarrow> True | _ \<Rightarrow> False) | Inr s \<Rightarrow> True)"
| "pool_known _ = True"

lemma read_error: "service_reply rep \<Longrightarrow> (\<And>e. f d = Inl e \<Longrightarrow> http_error e) \<Longrightarrow> read rep f d = Inl e \<Longrightarrow> http_error e"
  by (cases rep) (auto simp: read_def simp del: service_reply.simps dest: service_reply_error)

lemma handler_error_not_probe:
  assumes "pool_known ep" and "route_handler R rep_db rep_push ep rid w = (Inl e, w')"
  shows "ep \<noteq> Readyz draining version \<and> ep \<noteq> Healthz_Deps b c sizes"
  using assms by (auto simp: route_handler_def bind_res_Inl pool_stats_def split: exn.splits sum.splits)

lemma error_type:
  "(\<And>draining version. ep \<noteq> Readyz draining version) \<Longrightarrow> (\<And>b c sizes. ep \<noteq> Healthz_Deps b c sizes) \<Longrightarrow>
     response_type ep st = (if st = success_status ep then result_type ep
       else if st = 503 then TObj [(''error'', TStr), (''kind'', TStr)] else TObj [(''detail'', TStr)])"
  by (cases ep) (auto simp: response_type_def)

lemma handler_errors:
  assumes db: "service_reply rep_db" and push: "service_reply rep_push" and pool: "pool_known ep"
    and h: "route_handler R rep_db rep_push ep rid w = (Inl e, w')"
  shows "http_error e"
proof (cases ep)
  case (Healthz_Deps b c sizes)
  with handler_error_not_probe [OF pool h] show ?thesis by blast
next
  case (List_Settlements date limit)
  have "list_settlements date limit d = Inl e \<Longrightarrow> http_error e" for d e
    by (auto simp: list_settlements_def http_error_def Let_def split: if_splits)
  with List_Settlements h read_error [OF db, of "list_settlements date limit"] show ?thesis
    by (auto simp: route_handler_def answer_def bind_res_Inl split: sum.splits)
next
  case (Get_Settlement sid)
  have "get_settlement sid d = Inl e \<Longrightarrow> http_error e" for d e
    by (auto simp: get_settlement_def http_error_def split: option.splits)
  with Get_Settlement h read_error [OF db, of "get_settlement sid"] show ?thesis
    by (auto simp: route_handler_def answer_def split: sum.splits)
next
  case (Create_Settlement body nid)
  with h obtain d where "create_settlement rep_db body nid (w_db w) = (Inl e, d)"
    by (auto simp: route_handler_def answer_def split: prod.splits sum.splits)
  with db show ?thesis
    by (auto simp: create_settlement_def split: prod.splits sum.splits dest: transaction_error [OF _ insert_errors(1)])
next
  case (Execute_Settlement sid nid created now)
  with h obtain d where e: "execute_settlement R rep_db rep_push sid nid created rid now w = (Inl e, d)"
    by (auto simp: route_handler_def answer_def split: prod.splits sum.splits)
  show ?thesis
  proof (cases "transaction rep_db (execute_tx sid nid created) (w_db w)")
    case (Pair out t)
    then show ?thesis
      using e push transaction_error [where f = "execute_tx sid nid created" and s = "w_db w", OF db execute_tx_error]
      by (cases out; cases rep_push)
         (auto simp: execute_settlement_def simp del: service_reply.simps
           split: prod.splits sum.splits dest: service_reply_error)
  qed
next
  case (Daily_Report date today)
  with h read_error [OF db, of "\<lambda>d. Inr (report_json (report_day date today) (daily_report (report_day date today) d))"]
  show ?thesis by (auto simp: route_handler_def answer_def split: sum.splits)
qed (use h in \<open>simp_all add: route_handler_def\<close>)

lemma handler_typed:
  assumes "route_handler R rep_db rep_push ep rid w = (Inr resp, w')"
  shows "has_type (rp_body resp) (response_type ep (rp_status resp))"
proof (cases ep)
  case Livez
  with assms show ?thesis by (auto simp: route_handler_def respond_def livez_def response_type_def)
next
  case (Readyz draining version)
  with assms show ?thesis by (cases draining) (auto simp: route_handler_def respond_def readyz_def response_type_def)
next
  case Healthz
  with assms show ?thesis by (auto simp: route_handler_def respond_def healthz_def livez_def response_type_def)
next
  case (Healthz_Deps postgres redis sizes)
  with assms obtain pool where p: "pool_stats sizes = Inr pool" "resp = healthz_deps postgres redis pool"
    by (auto simp: route_handler_def bind_res_Inr)
  have "has_type pool (TObj [(''checked_out'', TInt), (''size'', TInt), (''overflow'', TInt)])"
    using p(1) by (auto simp: pool_stats_def Let_def split: sum.splits exn.splits prod.splits)
  with p(2) Healthz_Deps show ?thesis
    by (simp add: healthz_deps_def respond_def response_type_def deps_type_def Let_def)
next
  case (List_Settlements date limit)
  with assms obtain rows where "resp = respond 200 (JList (map list_item rows))"
    by (auto simp: route_handler_def answer_def bind_res_Inr split: sum.splits)
  moreover have "has_type (JList (map list_item rows)) (result_type ep)"
    using list_item_typed by (auto simp: List_Settlements list_all_iff simp del: has_type.simps(6))
  ultimately show ?thesis by (simp add: List_Settlements respond_def response_type_def del: has_type.simps)
next
  case (Get_Settlement sid)
  with assms obtain v where "resp = respond 200 v" "get_settlement sid (w_db w) = Inr v"
    by (auto simp: route_handler_def answer_def read_def split: sum.splits reply.splits)
  with get_settlement_typed [of sid "w_db w" v] show ?thesis
    by (simp add: Get_Settlement respond_def response_type_def del: has_type.simps result_type.simps)
next
  case (Create_Settlement body nid)
  with assms obtain sid where "resp = respond 201 (JObj [(''id'', JInt sid), (''status'', JStr ''pending'')])"
    by (auto simp: route_handler_def answer_def create_settlement_def split: sum.splits prod.splits)
  with Create_Settlement show ?thesis by (simp add: respond_def response_type_def)
next
  case (Execute_Settlement sid nid created now)
  with assms obtain v where v: "resp = respond 202 v" "execute_settlement R rep_db rep_push sid nid created rid now w = (Inr v, w')"
    by (auto simp: route_handler_def answer_def split: sum.splits prod.splits)
  with execute_result [OF v(2)] Execute_Settlement show ?thesis by (auto simp: respond_def response_type_def)
next
  case (Daily_Report date today)
  with assms obtain ls where "resp = respond 200 (report_json (report_day date today) ls)"
    by (auto simp: route_handler_def answer_def read_def split: sum.splits reply.splits)
  with report_typed [of "report_day date today" ls date today] Daily_Report show ?thesis
    by (simp add: respond_def response_type_def del: has_type.simps result_type.simps)
qed

lemma success_not_error: "success_status ep \<noteq> 503" "success_status ep \<noteq> 404" "success_status ep \<noteq> 409"
  by (cases ep; simp)+

lemma handler_status:
  assumes "route_handler R rep_db rep_push ep rid w = (Inr resp, w')"
  shows "rp_status resp = success_status ep \<or> rp_status resp = 503"
proof (cases ep)
  case (Execute_Settlement sid nid created now)
  with assms show ?thesis by (auto simp: route_handler_def answer_def respond_def split: sum.splits prod.splits)
next
  case (Create_Settlement body nid)
  with assms show ?thesis by (auto simp: route_handler_def answer_def respond_def split: sum.splits prod.splits)
qed (use assms in \<open>auto simp: route_handler_def answer_def respond_def readyz_def healthz_deps_def bind_res_Inr Let_def
    split: sum.splits if_splits\<close>)

lemma response_typed:
  assumes "service_reply rep_db" and "service_reply rep_push" and "pool_known ep"
    and "serve (route_handler R rep_db rep_push ep) req uuid version elapsed ctx w = (Inr resp, ctx', w')"
  shows "(rp_status resp = success_status ep \<or> rp_status resp \<in> {404, 409, 503})
    \<and> has_type (rp_body resp) (response_type ep (rp_status resp))"
proof -
  let ?rid = "Some (request_id_of req uuid)"
  obtain res w1 where h: "route_handler R rep_db rep_push ep ?rid w = (res, w1)" by fastforce
  show ?thesis
  proof (cases res)
    case (Inr r)
    with serve_result [OF h assms(4)] handler_typed [of R rep_db rep_push ep ?rid w r w1]
      handler_status [of R rep_db rep_push ep ?rid w r w1] h show ?thesis by auto
  next
    case (Inl e)
    with handler_errors [OF assms(1-3)] h have "http_error e" by blast
    moreover have ty: "response_type ep st = (if st = success_status ep then result_type ep
       else if st = 503 then TObj [(''error'', TStr), (''kind'', TStr)] else TObj [(''detail'', TStr)])" for st
      by (rule error_type) (use handler_error_not_probe [OF assms(3) h [unfolded Inl]] in blast)+
    ultimately show ?thesis
      using h Inl assms(4) success_not_error [of ep] unfolding ty
      by (cases e) (auto simp: serve_def observe_request_def with_handlers_def handle_exception_def db_unavailable_def
          respond_def http_error_def Let_def)
  qed
qed

section \<open>Property of the responses\<close>

text \<open>C20. Every response the service sends is typed: whatever the state of the tables and the outcome
  of the calls to Postgres and Redis, an endpoint's response has the fields, in order, and the
  value types that its status promises, on success and on each error, and no status but its
  success status, 404, 409 and 503; a value that may be absent
  is \<open>null\<close>, never missing.\<close>

theorem responses_are_typed:
  assumes "service_reply rep_db" and "service_reply rep_push" and "pool_known ep"
    and "serve (route_handler R rep_db rep_push ep) req uuid version elapsed ctx w = (Inr resp, ctx', w')"
  shows "(rp_status resp = success_status ep \<or> rp_status resp \<in> {404, 409, 503})
    \<and> has_type (rp_body resp) (response_type ep (rp_status resp))"
  by (rule response_typed [OF assms])

theorem responses_are_typed_witness:
  "\<exists>resp ctx w. serve (route_handler mem_redis Done Done (Get_Settlement 1)) \<lparr>q_method = ''GET'', q_route = None, q_request_id = None\<rparr>
     ''u1'' ''1.9'' 1 None api_world = (Inr resp, ctx, w) \<and> has_type (rp_body resp) (response_type (Get_Settlement 1) (rp_status resp))"
proof -
  let ?s = "serve (route_handler mem_redis Done Done (Get_Settlement 1)) \<lparr>q_method = ''GET'', q_route = None, q_request_id = None\<rparr>
     ''u1'' ''1.9'' 1 None api_world"
  obtain resp ctx w where s: "?s = (Inr resp, ctx, w)"
    by (simp add: serve_def observe_request_def with_handlers_def route_handler_def answer_def read_def get_settlement_def
        left_join_def joined_def api_world_def api_db_def Let_def)
  with responses_are_typed [OF _ _ _ s] show ?thesis by simp
qed

end
