(* ===== verification/Release.thy ===== *)
theory Release
  imports Verify Api_Types Scenario
begin

section \<open>The release gate on top of the service\<close>

text \<open>
  What the release gate learns about the system: its requests are answered by the endpoints of
  \<^verbatim>\<open>api.py\<close> through the middleware, or by the ingress in front of them (an error status of its
  own, or no answer). A typed answer never ends the script with an exception, and a payout the
  gate saw paid is in the ledger of the bank.
\<close>

text \<open>A response on the wire: \<open>urlopen\<close> raises on an error status; an exception that leaves the application
  is a 500.\<close>

definition on_the_wire :: "api_response res \<Rightarrow> http_outcome" where
  "on_the_wire out =
     (case out of
        Inl e \<Rightarrow> Http_error 500
      | Inr resp \<Rightarrow> if rp_status resp < 400 then Http_body (rp_status resp) (json_dumps (rp_body resp))
                   else Http_error (rp_status resp))"

fun from_ingress :: "http_outcome \<Rightarrow> bool" where
  "from_ingress (Http_error code) = (400 \<le> code)"
| "from_ingress Http_fails = True"
| "from_ingress (Http_body st raw) = False"

text \<open>\<open>ep\<close> was served on the world \<open>w\<close>, with an outcome for each call to Postgres and Redis.\<close>

definition served :: "'r redis_api \<Rightarrow> endpoint \<Rightarrow> ('r, 'b) world \<Rightarrow> http_outcome \<Rightarrow> bool" where
  "served R ep w out \<longleftrightarrow>
     (\<exists>rep_db rep_push req uuid version elapsed ctx. service_reply rep_db \<and> service_reply rep_push \<and> pool_known ep
        \<and> out = on_the_wire (fst (serve (route_handler R rep_db rep_push ep) req uuid version elapsed ctx w)))"

definition answered :: "'r redis_api \<Rightarrow> endpoint \<Rightarrow> http_outcome \<Rightarrow> bool" where
  "answered R ep out \<longleftrightarrow> from_ingress out \<or> (\<exists>w :: ('r, bank) world. served R ep w out)"

subsection \<open>Typed answers\<close>

lemma served_typed:
  assumes "served R ep w out"
  shows "(\<exists>v. out = Http_body (success_status ep) (json_dumps v) \<and> has_type v (result_type ep)) \<or> (\<exists>code \<ge> 400. out = Http_error code)"
proof -
  from assms obtain rep_db rep_push req uuid version elapsed ctx where s: "service_reply rep_db" "service_reply rep_push" "pool_known ep"
      "out = on_the_wire (fst (serve (route_handler R rep_db rep_push ep) req uuid version elapsed ctx w))"
    unfolding served_def by blast
  obtain o1 ctx' w' where o: "serve (route_handler R rep_db rep_push ep) req uuid version elapsed ctx w = (o1, ctx', w')"
    by (rule prod_cases3)
  show ?thesis
  proof (cases o1)
    case (Inr resp)
    from response_typed [OF s(1-3) o [unfolded Inr]]
    have "(rp_status resp = success_status ep \<or> rp_status resp \<in> {404, 409, 503})"
      "has_type (rp_body resp) (response_type ep (rp_status resp))" by simp_all
    with s(4) o Inr show ?thesis by (auto simp: on_the_wire_def response_type_def)
  qed (use s(4) o in \<open>simp add: on_the_wire_def\<close>)
qed

lemma answered_typed:
  assumes "answered R ep out"
  shows "(\<exists>v. http out = (success_status ep, v) \<and> has_type v (result_type ep)) \<or> (\<exists>code \<ge> 400. http out = (code, JNull))"
  using assms unfolding answered_def
proof
  assume "from_ingress out"
  then show ?thesis by (cases out) (simp_all add: http_def)
next
  assume "\<exists>w :: ('a, bank) world. served R ep w out"
  then show ?thesis using served_typed [of R ep _ out] by (fastforce simp: http_def)
qed

lemma created_id:
  assumes "answered R (Create_Settlement body nid) out" and "http out = (st, v)" and "py_truth v"
  shows "\<exists>i. item v ''id'' = Inr (JInt i)"
proof -
  from answered_typed [OF assms(1)] assms(2,3) have "has_type v (TObj [(''id'', TInt), (''status'', TStr)])" by auto
  from typed_field [OF this, of "''id''" TInt] obtain kvs u where "v = JObj kvs" "map_of kvs ''id'' = Some u" "has_type u TInt"
    by auto
  then show ?thesis by (cases u) (simp_all add: dict_item_def)
qed

lemma polled_answer:
  assumes "answered R (Get_Settlement i) out"
  shows "\<exists>b. poll_paid out = Inr b"
proof -
  have "py_truth v \<Longrightarrow> has_type v (result_type (Get_Settlement i)) \<Longrightarrow> \<exists>kvs. v = JObj kvs" for v
    by (cases v) simp_all
  with answered_typed [OF assms] show ?thesis by (fastforce simp: poll_paid_def)
qed

lemma journey_answered:
  assumes "answered R (Create_Settlement body nid) (an_create a)" and "list_all (\<lambda>sid. \<exists>i. sid = JInt i) (st_sample_ids st)"
  shows "\<exists>st'. journey a st = Inr st' \<and> list_all (\<lambda>sid. \<exists>i. sid = JInt i) (st_sample_ids st')"
proof -
  have keep: "record_status n x t = (b, t') \<Longrightarrow> st_sample_ids t' = st_sample_ids t" for n x t b t'
    by (auto simp: record_status_def Let_def)
  obtain b1 st1 where s1: "record_status ''GET /settlements'' (fst (http (an_list a))) st = (b1, st1)" by fastforce
  obtain s v where h: "http (an_create a) = (s, v)" by fastforce
  obtain ok st2 where s2: "record_status ''POST /settlements'' s st1 = (ok, st2)" by fastforce
  obtain b3 st3 where s3: "record_status ''GET /settlements/{id}'' (fst (http (an_get a))) st2 = (b3, st3)" by fastforce
  obtain ok4 st4 where s4: "record_status ''POST /settlements/{id}/execute'' (fst (http (an_execute a))) st3 = (ok4, st4)"
    by fastforce
  note ids = keep [OF s1] keep [OF s2] keep [OF s3] keep [OF s4]
  show ?thesis
  proof (cases "ok \<and> py_truth v")
    case True
    with created_id [OF assms(1) h] obtain i where "item v ''id'' = Inr (JInt i)" by blast
    with True assms(2) ids show ?thesis by (simp add: journey_def s1 h s2 s3 s4)
  qed (use assms(2) ids in \<open>auto simp: journey_def s1 h s2\<close>)
qed

lemma journeys_answered:
  assumes "list_all (\<lambda>a. \<exists>body nid. answered R (Create_Settlement body nid) (an_create a)) as"
  shows "\<exists>st. journeys as = Inr st \<and> list_all (\<lambda>sid. \<exists>i. sid = JInt i) (st_sample_ids st)"
proof -
  have "\<exists>st'. journeys_from as st = Inr st' \<and> list_all (\<lambda>sid. \<exists>i. sid = JInt i) (st_sample_ids st')"
    if "list_all (\<lambda>sid. \<exists>i. sid = JInt i) (st_sample_ids st)" for st
    using assms that
  proof (induction as arbitrary: st)
    case (Cons a as)
    then obtain body nid where "answered R (Create_Settlement body nid) (an_create a)" by auto
    from journey_answered [OF this Cons.prems(2)] Cons show ?case by fastforce
  qed simp
  then show ?thesis by (simp add: journeys_def no_stats_def)
qed

lemma round_answered:
  "(\<And>i. answered R (Get_Settlement i) (ans (JInt i))) \<Longrightarrow> list_all (\<lambda>sid. \<exists>i. sid = JInt i) sids
     \<Longrightarrow> \<exists>rest. poll_round ans sids = Inr rest \<and> list_all (\<lambda>sid. \<exists>i. sid = JInt i) rest"
proof (induction sids)
  case (Cons sid sids)
  then obtain i where i: "sid = JInt i" by auto
  from polled_answer [OF Cons.prems(1)] obtain b where "poll_paid (ans (JInt i)) = Inr b" by blast
  moreover from Cons obtain rest where "poll_round ans sids = Inr rest" "list_all (\<lambda>sid. \<exists>i. sid = JInt i) rest" by auto
  ultimately show ?case using i by (cases b) simp_all
qed simp

lemma payouts_answered:
  assumes polls: "\<And>j i. answered R (Get_Settlement i) (polls j (JInt i))" and ids: "list_all (\<lambda>sid. \<exists>i. sid = JInt i) ids"
    and r: "payout_paid fuel polls clock now ids = Some r"
  shows "\<exists>n k. r = Inr (n, k)"
proof -
  have "\<exists>rest. out = Inr rest"
    if "poll_payouts fuel polls clock deadline i pend = Some out" "list_all (\<lambda>sid. \<exists>i. sid = JInt i) pend" for deadline i pend out
    using that
  proof (induction fuel arbitrary: i pend)
    case (Suc fuel)
    from round_answered [of R "polls i", OF polls Suc.prems(2)] obtain rest where
      "poll_round (polls i) pend = Inr rest" "list_all (\<lambda>sid. \<exists>i. sid = JInt i) rest" by blast
    with Suc show ?case by (auto split: if_splits)
  qed simp
  moreover have "list_all hashable ids" using ids by (auto simp: list_all_iff)
  moreover have "list_all (\<lambda>sid. \<exists>i. sid = JInt i) (remdups ids)" using ids by (simp add: list_all_iff)
  ultimately show ?thesis using r by (fastforce simp: payout_paid_def)
qed

section \<open>Properties of the gate on the service\<close>

text \<open>C36. The release gate never stops on an answer of the service: if its creations and polls were
  answered by the endpoints (in any state, whatever their calls to Postgres and Redis did) or
  failed on the way, the journeys end with statistics, the ids it follows are numbers, and
  following them ends with counts; only a query to Prometheus can end the script early.\<close>

theorem answers_never_stop_the_gate:
  assumes "list_all (\<lambda>a. \<exists>body nid. answered R (Create_Settlement body nid) (an_create a)) (o_answers ext)"
    and "\<And>j i. answered R (Get_Settlement i) (o_polls ext j (JInt i))"
  shows "\<exists>st. journeys (o_answers ext) = Inr st \<and> list_all (\<lambda>sid. \<exists>i. sid = JInt i) (st_sample_ids st)
    \<and> (\<forall>r. payout_paid fuel (o_polls ext) (o_clock ext) (o_now ext) (st_sample_ids st) = Some r \<longrightarrow> (\<exists>n k. r = Inr (n, k)))"
  using journeys_answered [OF assms(1)] payouts_answered [of R "o_polls ext", OF assms(2)] by blast


text \<open>A run of the script on the service: one settlement was created as number 1 and executed, its poll
  is answered in the last state of \<open>Scenario\<close>, and Prometheus reports zeros.\<close>

definition sc_poll :: http_outcome where
  "sc_poll = on_the_wire (fst (serve (route_handler mem_redis Done Done (Get_Settlement 1))
     \<lparr>q_method = ''GET'', q_route = None, q_request_id = None\<rparr> ''u1'' ''1.9'' 1 None (sy_world sc12)))"

definition sc_created :: http_outcome where
  "sc_created = on_the_wire (fst (serve (route_handler mem_redis Done Done
        (Create_Settlement \<lparr>in_merchant_id = 7, in_settlement_date = 0, in_amount_minor = 250, in_currency = ''EUR''\<rparr> 1))
     \<lparr>q_method = ''POST'', q_route = None, q_request_id = None\<rparr> ''u1'' ''1.9'' 1 None (sy_world sc0)))"

definition sc_outside :: outside where
  "sc_outside = \<lparr>o_answers = [\<lparr>an_list = Http_error 404, an_create = sc_created, an_get = Http_error 404, an_execute = Http_body 202 (NotJson [])\<rparr>],
     o_polls = \<lambda>j sid. if sid = JInt 1 then sc_poll else Http_fails, o_clock = \<lambda>i. 2 * real i, o_now = 0, o_elapsed = 90,
     o_kubectl = \<lambda>i path. Ran 0 (Json (JObj [(''data'', JObj [(''result'', JList [JObj [(''value'', JList [JInt 0, JStr ''0''])]])])]))\<rparr>"

lemma sc_created_eq: "sc_created = Http_body 201 (Json (JObj [(''id'', JInt 1), (''status'', JStr ''pending'')]))"
  by (simp add: sc_created_def on_the_wire_def serve_def observe_request_def with_handlers_def route_handler_def answer_def respond_def
      create_settlement_def insert_settlement_def bigint_def char3_def sc0_def sc_sys_def sc_db_def json_dumps_def Let_def)

lemma sc_poll_paid: "poll_paid sc_poll = Inr True"
  by (simp add: sc_poll_def on_the_wire_def serve_def observe_request_def with_handlers_def route_handler_def answer_def respond_def
      read_def get_settlement_def left_join_def joined_def settlement_cells_def sc12_def sc_sys_def sc_db_def sc_settlement_def sc_paid_def
      sc_claimed_def claim_row_def sc_payout_def queued_payout_def poll_paid_def http_def dict_get_def json_dumps_def payload_truthy_def
      Let_def)

lemma sc_poll_served: "served mem_redis (Get_Settlement 1) (sy_world sc12) sc_poll"
  unfolding served_def sc_poll_def by (rule exI [of _ Done], rule exI [of _ Done]) fastforce

lemma sc_created_served:
  "answered mem_redis (Create_Settlement \<lparr>in_merchant_id = 7, in_settlement_date = 0, in_amount_minor = 250, in_currency = ''EUR''\<rparr> 1) sc_created"
proof -
  have "served mem_redis (Create_Settlement \<lparr>in_merchant_id = 7, in_settlement_date = 0, in_amount_minor = 250, in_currency = ''EUR''\<rparr> 1)
      (sy_world sc0) sc_created"
    unfolding served_def sc_created_def by (rule exI [of _ Done], rule exI [of _ Done]) fastforce
  then show ?thesis unfolding answered_def by blast
qed

theorem answers_never_stop_the_gate_witness:
  "\<exists>st. journeys (o_answers sc_outside) = Inr st"
proof -
  have "list_all (\<lambda>a. \<exists>body nid. answered mem_redis (Create_Settlement body nid) (an_create a)) (o_answers sc_outside)"
    using sc_created_served by (auto simp: sc_outside_def)
  moreover have "answered mem_redis (Get_Settlement i) (o_polls sc_outside j (JInt i))" for j i
    using sc_poll_served by (auto simp: sc_outside_def answered_def)
  ultimately show ?thesis using answers_never_stop_the_gate [of mem_redis sc_outside] by blast
qed

lemma paid_poll_row:
  assumes s: "served R (Get_Settlement i) w out" and paid: "poll_paid out = Inr True" and ok: "db_ok (w_db w)"
  shows "\<exists>t p. settlement_row (w_db w) i = Some t \<and> payout_of (w_db w) t = Some p \<and> p_state p = ''paid''"
proof -
  from s obtain rep_db rep_push req uuid version elapsed ctx where s: "service_reply rep_db" "service_reply rep_push"
      "out = on_the_wire (fst (serve (route_handler R rep_db rep_push (Get_Settlement i)) req uuid version elapsed ctx w))"
    unfolding served_def by blast
  let ?ep = "Get_Settlement i" and ?rid = "Some (request_id_of req uuid)"
  obtain o1 ctx' w' where o: "serve (route_handler R rep_db rep_push ?ep) req uuid version elapsed ctx w = (o1, ctx', w')"
    by (rule prod_cases3)
  obtain res w1 where h: "route_handler R rep_db rep_push ?ep ?rid w = (res, w1)" by fastforce
  from paid obtain kvs where body: "http out = (200, JObj kvs)" "dict_get kvs ''payout_state'' JNull = JStr ''paid''"
    by (auto simp: poll_paid_def split: prod.splits if_splits json.splits)
  from body(1) s(3) o obtain resp where resp: "o1 = Inr resp" "rp_status resp = 200" "rp_body resp = JObj kvs"
    by (cases o1) (auto simp: on_the_wire_def http_def split: if_splits)
  have "\<exists>r. res = Inr r"
  proof (cases res)
    case (Inl e)
    have "http_error e" by (rule handler_errors [OF s(1,2) _ h [unfolded Inl]]) simp
    with h Inl o resp(1,2) show ?thesis
      by (cases e) (auto simp: serve_def observe_request_def with_handlers_def handle_exception_def db_unavailable_def
          respond_def http_error_def Let_def)
  qed simp
  then obtain r where r: "res = Inr r" by blast
  with serve_result [OF h o] resp have "rp_body r = JObj kvs" by auto
  with h r have "get_settlement i (w_db w) = Inr (JObj kvs)"
    by (auto simp: route_handler_def answer_def read_def respond_def split: sum.splits reply.splits)
  with body(2) ok show ?thesis
    by (auto simp: get_settlement_result settlement_cells_def dict_get_def split: option.splits if_splits)
qed

text \<open>C7. A release is only kept on payouts that were really paid: if the release gate ends with exit code
  0 and its polls were answered by the service in reachable states of the system (or failed on the
  way), then it followed at least one payout, and for every settlement it followed there is a
  reachable state in which that settlement has a payout recorded as paid and the ledger of the bank
  holds the entry for it, with the settlement's merchant, amount and currency.\<close>

theorem kept_release_paid_its_samples:
  assumes "redis_service R" and "stored R r0 = {}"
    and "list_all (\<lambda>a. \<exists>body nid. answered R (Create_Settlement body nid) (an_create a)) (o_answers ext)"
    and "\<And>j i. from_ingress (o_polls ext j (JInt i))
      \<or> (\<exists>s. reachable c R ms r0 s \<and> served R (Get_Settlement i) (sy_world s) (o_polls ext j (JInt i)))"
    and "verify_release fuel env v ext = Some 0"
  shows "\<exists>st. journeys (o_answers ext) = Inr st \<and> st_sample_ids st \<noteq> [] \<and> (\<forall>sid \<in> set (st_sample_ids st).
    \<exists>i s t p e. sid = JInt i \<and> reachable c R ms r0 s
      \<and> t \<in> set (settlements (sy_db s)) \<and> s_id t = i \<and> p \<in> set (payouts (sy_db s)) \<and> from_settlement t p \<and> p_state p = ''paid''
      \<and> e \<in> set (ledger (sy_bank s)) \<and> e_reference e = payout_reference (JInt (p_id p))
      \<and> e_merchant e = s_merchant t \<and> e_amount e = s_amount t \<and> e_currency e = s_currency t)"
proof -
  from verify_kept [OF assms(5)] obtain st where st: "journeys (o_answers ext) = Inr st" "st_sample_ids st \<noteq> []"
      "\<forall>sid \<in> set (st_sample_ids st). \<exists>j. o_clock ext j < o_now ext + 60 \<and> poll_paid (o_polls ext j sid) = Inr True" by blast
  have ids: "list_all (\<lambda>sid. \<exists>i. sid = JInt i) (st_sample_ids st)" using journeys_answered [OF assms(3)] st(1) by auto
  have "\<exists>i s t p e. sid = JInt i \<and> reachable c R ms r0 s
      \<and> t \<in> set (settlements (sy_db s)) \<and> s_id t = i \<and> p \<in> set (payouts (sy_db s)) \<and> from_settlement t p \<and> p_state p = ''paid''
      \<and> e \<in> set (ledger (sy_bank s)) \<and> e_reference e = payout_reference (JInt (p_id p))
      \<and> e_merchant e = s_merchant t \<and> e_amount e = s_amount t \<and> e_currency e = s_currency t"
    if sid: "sid \<in> set (st_sample_ids st)" for sid
  proof -
    from ids sid obtain i where i: "sid = JInt i" by (auto simp: list_all_iff)
    from st(3) sid obtain j where j: "poll_paid (o_polls ext j (JInt i)) = Inr True" using i by blast
    then have "\<not> from_ingress (o_polls ext j (JInt i))"
      by (cases "o_polls ext j (JInt i)") (auto simp: poll_paid_def http_def)
    with assms(4) [of j i] obtain s where s: "reachable c R ms r0 s" "served R (Get_Settlement i) (sy_world s) (o_polls ext j (JInt i))"
      by blast
    note inv = redis_service.reachable_inv [OF assms(1) s(1) assms(2)]
    then have ok: "db_ok (sy_db s)" by (simp add: sys_inv_def)
    from paid_poll_row [OF s(2) j ok] obtain t p where t: "settlement_row (sy_db s) i = Some t" "payout_of (sy_db s) t = Some p"
        "p_state p = ''paid''" by blast
    then have mem: "t \<in> set (settlements (sy_db s))" "s_id t = i" "p \<in> set (payouts (sy_db s))" "p_settlement p = s_id t"
      by (auto simp: settlement_row_def payout_of_def dest: find_some_mem)
    from ok mem(3) obtain u where u: "u \<in> set (settlements (sy_db s))" "from_settlement u p" unfolding db_ok_def by blast
    then have "u = t" using distinct_key_eq [of s_id "settlements (sy_db s)" u t] ok mem(1,4)
      by (simp add: db_ok_def from_settlement_def)
    with u(2) have owed: "from_settlement t p" by simp
    from paid_row_booked [OF inv mem(3) t(3)] obtain e where e: "e \<in> set (ledger (sy_bank s))"
        "e_reference e = payout_reference (JInt (p_id p))" "e_merchant e = p_merchant p" "e_amount e = p_amount p"
        "e_currency e = p_currency p" by blast
    show ?thesis
      by (rule exI [of _ i], rule exI [of _ s], rule exI [of _ t], rule exI [of _ p], rule exI [of _ e])
         (use i s(1) mem owed t(3) e in \<open>simp add: from_settlement_def\<close>)
  qed
  with st show ?thesis by blast
qed

theorem kept_release_paid_its_samples_witness:
  "verify_release 31 Map.empty ''1.9.0'' sc_outside = Some 0 \<and> (\<exists>st. journeys (o_answers sc_outside) = Inr st \<and> st_sample_ids st \<noteq> [])"
proof -
  have "list_all (\<lambda>a. \<exists>body nid. answered mem_redis (Create_Settlement body nid) (an_create a)) (o_answers sc_outside)"
    using sc_created_served by (auto simp: sc_outside_def)
  moreover have "from_ingress (o_polls sc_outside j (JInt i))
      \<or> (\<exists>s. reachable default_config mem_redis [7] mem_empty s \<and> served mem_redis (Get_Settlement i) (sy_world s) (o_polls sc_outside j (JInt i)))" for j i
    using sc_poll_served sc12_reachable by (auto simp: sc_outside_def)
  moreover have v: "verify_release 31 Map.empty ''1.9.0'' sc_outside = Some 0"
  proof -
    have "\<exists>checks. journeys (o_answers sc_outside) = Inr \<lparr>st_requests = 4, st_5xx = 0, st_transport = 0,
        st_by_check = checks, st_sample_ids = [JInt 1]\<rparr>"
      by (simp add: journeys_def journey_def sc_outside_def sc_created_eq http_def record_status_def no_stats_def good_status_def
          payload_truthy_def dict_item_def Let_def)
    then obtain checks where j: "journeys (o_answers sc_outside) = Inr \<lparr>st_requests = 4, st_5xx = 0, st_transport = 0,
        st_by_check = checks, st_sample_ids = [JInt 1]\<rparr>" by blast
    have p: "payout_paid 31 (o_polls sc_outside) (o_clock sc_outside) (o_now sc_outside) [JInt 1] = Some (Inr (1, 1))"
      by (simp add: payout_paid_def sc_outside_def sc_poll_paid numeral_eq_Suc PAYOUT_DEADLINE_S_def)
    have "str_int 0 = ''0''" by code_simp
    then have "py_float ''0'' = Inr (Fin 0)" using py_float_int [of 0] by simp
    then have q: "prom Map.empty (o_kubectl sc_outside n) query = Inr (Some (Fin 0))" for n query
      by (simp add: prom_def sc_outside_def dict_item_def)
    show ?thesis
      unfolding verify_release_def verification_def exit_code_def queries_after_def q j bind_res.simps prod.case sum.case stats.simps p option.map
      by (simp add: gates_pass at_most_def restarts_in_window_def limits)
  qed
  ultimately show ?thesis
    using kept_release_paid_its_samples [OF mem.redis_service_axioms mem_empty_stored, of sc_outside default_config "[7]" 31 Map.empty "''1.9.0''"]
    by blast
qed

end
