(* ===== verification/Evidence.thy ===== *)
theory Evidence
  imports Numbers "HOL-Library.List_Lexorder" "HOL-Library.Char_ord"
begin

section \<open>The incident evidence: tools/reconstruct\_evidence.py\<close>

text \<open>
  \<^verbatim>\<open>tools/reconstruct_evidence.py\<close>: the scripted timeline of 14 August, the per-minute
  series of the metrics files, the worker log with the payouts that were paid twice, the
  finance extract and the grouping of log lines. A time is a number of milliseconds since
  14 August 00:00. A number written to a file is the real number it denotes.
\<close>

subsection \<open>Random draws\<close>

text \<open>
  The draws are arguments: a draw is named by the place that makes it and the time, payout or
  position it is made for. \<open>random.random()\<close> is \<open>uniform\<close> on 0 and 1, \<open>random.choice(xs)\<close> gives
  the element at \<open>pick\<close>. What is known of draws is \<open>fair\<close>.
\<close>

record draws =
  uniform :: "string \<times> int \<Rightarrow> real \<Rightarrow> real \<Rightarrow> real"
  randint :: "string \<times> int \<Rightarrow> int \<Rightarrow> int \<Rightarrow> int"
  pick :: "string \<times> int \<Rightarrow> nat \<Rightarrow> nat"
  randhex :: "string \<times> int \<Rightarrow> string"

definition fair :: "draws \<Rightarrow> bool" where
  "fair d \<longleftrightarrow> (\<forall>k a b. a \<le> b \<longrightarrow> a \<le> uniform d k a b \<and> uniform d k a b \<le> b)
     \<and> (\<forall>k a b. a \<le> b \<longrightarrow> a \<le> randint d k a b \<and> randint d k a b \<le> b)
     \<and> (\<forall>k n. 0 < n \<longrightarrow> pick d k n < n)
     \<and> (\<forall>k. list_all (\<lambda>c. c \<in> set ''0123456789ABCDEF'') (randhex d k))"

lemma fair_randint: "fair d \<Longrightarrow> a \<le> b \<Longrightarrow> a \<le> randint d k a b \<and> randint d k a b \<le> b"
  unfolding fair_def by blast

lemma fair_uniform: "fair d \<Longrightarrow> a \<le> b \<Longrightarrow> a \<le> uniform d k a b \<and> uniform d k a b \<le> b"
  unfolding fair_def by blast

lemma fair_pick: "fair d \<Longrightarrow> 0 < n \<Longrightarrow> pick d k n < n"
  unfolding fair_def by blast

subsection \<open>The timeline\<close>

definition T_ms :: "int \<Rightarrow> int \<Rightarrow> int \<Rightarrow> int \<Rightarrow> int" where
  "T_ms h m s ms = ((h * 60 + m) * 60 + s) * 1000 + ms"

definition hhmm :: "int \<Rightarrow> int \<times> int" where
  "hhmm t = (t div 3600000, t div 60000 mod 60)"

definition MIG_START :: int where "MIG_START = T_ms 14 2 5 412"
definition MIG_COMMIT :: int where "MIG_COMMIT = T_ms 14 9 48 161"
definition APPLY :: int where "APPLY = T_ms 14 2 40 0"

definition API_OLD :: "(string \<times> string \<times> string) list" where
  "API_OLD =
     [(''settle-api-5b7f9c6d4-2mxkq'', ''node-1'', ''10.42.1.14''),
      (''settle-api-5b7f9c6d4-8zv4t'', ''node-2'', ''10.42.2.21''),
      (''settle-api-5b7f9c6d4-fq7rn'', ''node-3'', ''10.42.3.9''),
      (''settle-api-5b7f9c6d4-tw9hc'', ''node-2'', ''10.42.2.23'')]"

definition API_NEW :: "(string \<times> string \<times> string) list" where
  "API_NEW =
     [(''settle-api-7c9d8f5b6-xk2lp'', ''node-2'', ''10.42.2.31''),
      (''settle-api-7c9d8f5b6-b4n8s'', ''node-1'', ''10.42.1.27''),
      (''settle-api-7c9d8f5b6-j7wq2'', ''node-2'', ''10.42.2.32''),
      (''settle-api-7c9d8f5b6-r5tzm'', ''node-3'', ''10.42.3.18''),
      (''settle-api-7c9d8f5b6-m2k9d'', ''node-2'', ''10.42.2.35''),
      (''settle-api-7c9d8f5b6-p8x3v'', ''node-1'', ''10.42.1.30''),
      (''settle-api-7c9d8f5b6-q6ht4'', ''node-2'', ''10.42.2.36''),
      (''settle-api-7c9d8f5b6-z3fw8'', ''node-3'', ''10.42.3.22''),
      (''settle-api-7c9d8f5b6-v9c2n'', ''node-2'', ''10.42.2.38''),
      (''settle-api-7c9d8f5b6-h4r7k'', ''node-1'', ''10.42.1.33'')]"

definition WRK_OLD :: "(string \<times> string \<times> int) list" where
  "WRK_OLD =
     [(''settle-worker-6f8b7d9c5-4hjkl'', ''node-1'', T_ms 14 2 44 0),
      (''settle-worker-6f8b7d9c5-9pqrs'', ''node-2'', T_ms 14 2 58 0),
      (''settle-worker-6f8b7d9c5-c2vbn'', ''node-3'', T_ms 14 3 13 0),
      (''settle-worker-6f8b7d9c5-wx7yz'', ''node-2'', T_ms 14 3 27 0)]"

definition WRK_NEW :: "(string \<times> string \<times> int) list" where
  "WRK_NEW =
     [(''settle-worker-84c6d7f9b-a1b2c'', ''node-2'', T_ms 14 2 52 0),
      (''settle-worker-84c6d7f9b-d3e4f'', ''node-1'', T_ms 14 3 6 0),
      (''settle-worker-84c6d7f9b-g5h6j'', ''node-3'', T_ms 14 3 20 0),
      (''settle-worker-84c6d7f9b-k7m8n'', ''node-2'', T_ms 14 3 34 0)]"

definition POST_BANK_AT_KILL :: "nat list" where "POST_BANK_AT_KILL = [10, 10, 9, 8]"
definition PRE_BANK_AT_KILL :: "nat list" where "PRE_BANK_AT_KILL = [0, 0, 1, 2]"
definition BATCH_SIZE :: int where "BATCH_SIZE = 2412"
definition FIRST_PAYOUT_ID :: int where "FIRST_PAYOUT_ID = 881204"

text \<open>\<open>minutes()\<close> from \<open>t\<close> to the end \<open>e\<close>, and \<open>between\<close>.\<close>

function minutes :: "int \<Rightarrow> int \<Rightarrow> int list" where
  "minutes t e = (if t < e then t # minutes (t + 60000) e else [])"
  by pat_completeness auto
termination by (relation "measure (\<lambda>(t, e). nat (e - t))") auto

declare minutes.simps [simp del]

definition between :: "int \<Rightarrow> int \<Rightarrow> int \<Rightarrow> bool" where
  "between t a b \<longleftrightarrow> a \<le> t \<and> t < b"

subsection \<open>The model of a minute\<close>

definition ERR :: "((int \<times> int) \<times> real) list" where
  "ERR =
     [((14, 3), 0.12), ((14, 4), 0.38), ((14, 5), 0.61), ((14, 6), 0.72), ((14, 7), 0.78),
      ((14, 8), 0.81), ((14, 9), 0.79), ((14, 10), 0.41),
      ((14, 44), 0.86), ((14, 45), 0.83), ((14, 46), 0.64), ((14, 47), 0.40), ((14, 48), 0.22),
      ((14, 49), 0.09), ((14, 50), 0.031)]"

text \<open>\<open>k\<close> names the call: each call draws anew.\<close>

definition err_ratio :: "draws \<Rightarrow> string \<Rightarrow> int \<Rightarrow> real" where
  "err_ratio d k t =
     (case map_of ERR (hhmm t) of
        Some e \<Rightarrow> e
      | None \<Rightarrow>
          if between t (T_ms 14 11 0 0) (T_ms 14 31 0 0) then py_round (uniform d (k, t) 0.34 0.41) 3
          else if between t (T_ms 14 31 0 0) (T_ms 14 38 0 0) then py_round (uniform d (k, t) 0.55 0.68) 3
          else if between t (T_ms 14 38 0 0) (T_ms 14 44 0 0) then py_round (uniform d (k, t) 0.58 0.64) 3
          else py_round (uniform d (k, t) 0.001 0.003) 4)"

definition rps :: "draws \<Rightarrow> int \<Rightarrow> real" where
  "rps d t =
     (let base = 35 + 6 * uniform d (''rps'', t) 0 1;
          base = (if hhmm t = (14, 0) then base + of_int BATCH_SIZE / 60 else base);
          base = (if between t (T_ms 14 3 0 0) (T_ms 14 51 0 0) then base * 1.35 else base)
      in py_round base 1)"

definition p99 :: "draws \<Rightarrow> int \<Rightarrow> real" where
  "p99 d t =
     (if between t (T_ms 14 2 0 0) (T_ms 14 10 0 0) then 5
      else let e = err_ratio d ''p99 ratio'' t
           in if e > 0.05 then py_round (uniform d (''p99'', t) 3.1 5) 2
              else py_round (uniform d (''p99'', t) 0.16 0.24) 3)"

definition pg_conns :: "draws \<Rightarrow> int \<Rightarrow> int" where
  "pg_conns d t =
     (if t < T_ms 14 0 0 0 then randint d (''pg'', t) 34 41
      else if t < T_ms 14 2 0 0 then randint d (''pg'', t) 68 74
      else if t < T_ms 14 3 0 0 then 93
      else if t < T_ms 14 10 0 0 then 97
      else if t < T_ms 14 11 0 0 then 88
      else if t < T_ms 14 47 0 0 then 97
      else (case map_of [((14, 47), 64), ((14, 48), 52), ((14, 49), 45)] (hhmm t) of
              Some n \<Rightarrow> n
            | None \<Rightarrow> randint d (''pg'', t) 36 42))"

definition lock_waiters :: "int \<Rightarrow> int" where
  "lock_waiters t =
     (if between t (T_ms 14 2 0 0) (T_ms 14 10 0 0)
      then [58, 91, 94, 95, 95, 96, 96, 96] ! nat (snd (hhmm t) - 2)
      else if hhmm t = (14, 44) then 22 else 0)"

definition hpa :: "int \<Rightarrow> int" where
  "hpa t = (if t < T_ms 14 5 0 0 then 4 else if t < T_ms 14 6 0 0 then 8 else if t < T_ms 14 47 0 0 then 10 else 4)"

text \<open>\<open>(t - a).total_seconds()\<close>, and minutes of it.\<close>

definition seconds_since :: "int \<Rightarrow> int \<Rightarrow> real" where
  "seconds_since a t = of_int (t - a) / 1000"

definition node2_free :: "int \<Rightarrow> real" where
  "node2_free t =
     (let free = 20.1;
          free = (if t \<ge> T_ms 14 3 0 0
                  then free - 0.37 * (seconds_since (T_ms 14 3 0 0) (min t (T_ms 14 31 0 0)) / 60) else free);
          free = (if t \<ge> T_ms 14 31 0 0
                  then free - 0.03 * (seconds_since (T_ms 14 31 0 0) (min t (T_ms 14 45 0 0)) / 60) else free)
      in py_round free 2)"

definition queue_depth :: "int \<Rightarrow> int \<times> int" where
  "queue_depth t =
     (if t < T_ms 14 0 0 0 then (0, 0)
      else if t < T_ms 14 2 0 0
           then (min BATCH_SIZE (max 0 (BATCH_SIZE - py_trunc (seconds_since (T_ms 14 0 41 0) t * 4))), 10)
      else if t < T_ms 14 10 0 0 then (2081, 40)
      else let left = 2081 - py_trunc (seconds_since (T_ms 14 9 48 0) t * 4)
           in (max 0 left, if left > 0 then 10 else 0))"

definition restarts :: "int \<Rightarrow> int" where
  "restarts t =
     (if t < T_ms 14 3 0 0 then 0
      else let m = seconds_since (T_ms 14 3 0 0) (min t (T_ms 14 47 0 0)) / 60
           in py_trunc (if m < 7 then 14 * m else 98 + 3.1 * (m - 7)))"

definition node_cpu :: "draws \<Rightarrow> int \<Rightarrow> string \<Rightarrow> real" where
  "node_cpu d t node =
     (if node = ''node-3'' \<and> between t (T_ms 13 40 0 0) (T_ms 13 52 0 0) then py_round (uniform d (node, t) 0.88 0.94) 3
      else if between t (T_ms 14 3 0 0) (T_ms 14 47 0 0) then py_round (uniform d (node, t) 0.71 0.86) 3
      else py_round (uniform d (node, t) 0.22 0.34) 3)"

subsection \<open>The metrics files\<close>

text \<open>The rows of each file: the time as written, in seconds, and the columns after it.\<close>

type_synonym row_of_metrics = "int \<times> real list"

definition stamped :: "(int \<Rightarrow> real list) \<Rightarrow> row_of_metrics list" where
  "stamped f = map (\<lambda>t. (t div 1000, f t)) (minutes (T_ms 13 30 0 0) (T_ms 15 0 0 0))"

definition minutes_of_storm :: "int \<Rightarrow> real" where
  "minutes_of_storm t = max 0 (seconds_since (T_ms 14 3 0 0) (min t (T_ms 14 47 0 0)) / 60)"

definition api_requests :: "draws \<Rightarrow> row_of_metrics list" where
  "api_requests d = stamped (\<lambda>t. let r = rps d t; e = err_ratio d ''err'' t
     in [r, py_round (r * (1 - e)) 1, py_round (r * e) 1, e])"

definition api_latency_p99 :: "draws \<Rightarrow> row_of_metrics list" where
  "api_latency_p99 d = stamped (\<lambda>t. [p99 d t])"

definition pg_connections :: "draws \<Rightarrow> row_of_metrics list" where
  "pg_connections d = stamped (\<lambda>t. [of_int (pg_conns d t), 100, of_int (lock_waiters t)])"

definition hpa_replicas :: "row_of_metrics list" where
  "hpa_replicas = stamped (\<lambda>t. [of_int (hpa t)])"

definition node_disk_free :: "row_of_metrics list" where
  "node_disk_free = stamped (\<lambda>t. [node2_free t, py_round (34.2 - 0.11 * minutes_of_storm t) 2,
     py_round (38.9 - 0.09 * minutes_of_storm t) 2])"

definition queue_depths :: "row_of_metrics list" where
  "queue_depths = stamped (\<lambda>t. let (q, p) = queue_depth t in [of_int q, of_int p])"

definition pod_restarts :: "row_of_metrics list" where
  "pod_restarts = stamped (\<lambda>t. [of_int (restarts t)])"

definition node_cpus :: "draws \<Rightarrow> row_of_metrics list" where
  "node_cpus d = stamped (\<lambda>t. [node_cpu d t ''node-1'', node_cpu d t ''node-2'', node_cpu d t ''node-3''])"

definition metrics_files :: "draws \<Rightarrow> (string \<times> row_of_metrics list) list" where
  "metrics_files d =
     [(''api_requests'', api_requests d), (''api_latency_p99'', api_latency_p99 d), (''pg_connections'', pg_connections d),
      (''hpa_replicas'', hpa_replicas), (''node_disk_free'', node_disk_free), (''queue_depth'', queue_depths),
      (''pod_restarts'', pod_restarts), (''node_cpu'', node_cpus d)]"

definition metrics_headers :: "(string \<times> string list) list" where
  "metrics_headers =
     [(''api_requests'', [''time'', ''total_rps'', ''non_5xx_rps'', ''5xx_rps'', ''5xx_ratio'']),
      (''api_latency_p99'', [''time'', ''p99_seconds (nginx request_time, capped by 5s proxy timeout)'']),
      (''pg_connections'', [''time'', ''pg_stat_activity_count'', ''max_connections'', ''backends_waiting_on_lock'']),
      (''hpa_replicas'', [''time'', ''settle_api_desired_replicas'']),
      (''node_disk_free'', [''time'', ''node-2_root_free_GiB'', ''node-1_root_free_GiB'', ''node-3_root_free_GiB'']),
      (''queue_depth'', [''time'', ''settle:jobs_length'', ''settle:processing_length'']),
      (''pod_restarts'', [''time'', ''settle_api_container_restarts_total (sum)'']),
      (''node_cpu'', [''time'', ''node-1_cpu_util'', ''node-2_cpu_util'', ''node-3_cpu_util''])]"

text \<open>Every file: its name, its header and its rows.\<close>

definition write_metrics :: "draws \<Rightarrow> (string \<times> string list option \<times> row_of_metrics list) list" where
  "write_metrics d = map (\<lambda>(name, rows). (name, map_of metrics_headers name, rows)) (metrics_files d)"

definition api_upstreams :: "int \<Rightarrow> string list" where
  "api_upstreams t =
     (if t < APPLY then map (\<lambda>(pod, node, ip). ip) API_OLD
      else map (\<lambda>(pod, node, ip). ip) (take 2 API_OLD @ take (nat (hpa t)) API_NEW))"

subsection \<open>Rendering\<close>

text \<open>\<open>strftime\<close> of the time of day, and \<open>iso\<close>.\<close>

definition time_of_day :: "int \<Rightarrow> string" where
  "time_of_day t = padded 2 (t div 3600000) @ '':'' @ padded 2 (t div 60000 mod 60) @ '':'' @ padded 2 (t div 1000 mod 60)"

definition iso :: "int \<Rightarrow> string" where
  "iso t = ''2026-08-14T'' @ time_of_day t @ ''.'' @ padded 3 (t mod 1000) @ ''Z''"

subsection \<open>The worker log\<close>

text \<open>A message of the log keeps the payout it is about; \<open>x\<close> renders it.\<close>

datatype worker_msg =
    BankPayoutOk int int
  | MarkedPaid int
  | CallingBank int
  | Note string

record worker_entry =
  x_time :: int
  x_pod :: string
  x_level :: string
  x_msg :: worker_msg
  x_ver :: string

fun msg_text :: "worker_msg \<Rightarrow> string" where
  "msg_text (BankPayoutOk p m) = ''bank_payout_ok payout_id='' @ str_int p @ '' merchant_id='' @ str_int m"
| "msg_text (MarkedPaid p) = ''payout marked paid payout_id='' @ str_int p"
| "msg_text (CallingBank p) = ''calling bank for payout_id='' @ str_int p"
| "msg_text (Note s) = s"

definition x_line :: "worker_entry \<Rightarrow> string" where
  "x_line e = ''2026-08-14 '' @ time_of_day (x_time e) @ '','' @ padded 3 (x_time e mod 1000) @ '' '' @ x_level e
     @ '' settle.worker ['' @ x_pod e @ ''] v='' @ x_ver e @ '' '' @ msg_text (x_msg e)"

definition entry_at :: "int \<Rightarrow> string \<Rightarrow> string \<Rightarrow> worker_msg \<Rightarrow> string \<Rightarrow> worker_entry" where
  "entry_at t pod level msg ver = \<lparr>x_time = t, x_pod = pod, x_level = level, x_msg = msg, x_ver = ver\<rparr>"

definition pod_of :: "'a \<times> 'b \<Rightarrow> 'a" where "pod_of w = fst w"

text \<open>The loop before the migration: four payouts a second, every tenth logged.\<close>

function normal_processing :: "draws \<Rightarrow> int \<Rightarrow> int \<Rightarrow> worker_entry list \<times> int" where
  "normal_processing d t pid =
     (if t < MIG_START
      then (let pod = pod_of (WRK_OLD ! pick d (''normal'', pid) (length WRK_OLD));
                here = (if pid mod 10 = 0
                        then [entry_at t pod ''INFO'' (BankPayoutOk pid (30000 + pid mod 9000)) ''1.7.3'',
                              entry_at (t + 12) pod ''INFO'' (MarkedPaid pid) ''1.7.3''] else []);
                (rest, pid') = normal_processing d (t + 250) (pid + 1)
            in (here @ rest, pid'))
      else ([], pid))"
  by pat_completeness auto
termination by (relation "measure (\<lambda>(d, t, pid). nat (MIG_START - t))") auto

declare normal_processing.simps [simp del]

text \<open>
  The jobs in flight when an old worker was killed: \<open>post_bank\<close> were paid and are the later
  duplicates \<open>(payout, merchant, paid at, pod)\<close>, \<open>pre_bank\<close> were not paid yet.
\<close>

type_synonym first_payment = "int \<times> int \<times> int \<times> string"

fun post_bank :: "draws \<Rightarrow> string \<Rightarrow> nat \<Rightarrow> int \<Rightarrow> int \<Rightarrow> worker_entry list \<times> first_payment list \<times> int \<times> int" where
  "post_bank d pod 0 pid t = ([], [], pid, t)"
| "post_bank d pod (Suc n) pid t =
     (let m = 30000 + (pid * 7919) mod 9000;
          (es, dup, pid', t') = post_bank d pod n (pid + 1) (t + randint d (''post'', pid) 180 320)
      in (entry_at t pod ''INFO'' (BankPayoutOk pid m) ''1.7.3'' # es, (pid, m, t, pod) # dup, pid', t'))"

fun pre_bank :: "string \<Rightarrow> nat \<Rightarrow> int \<Rightarrow> int \<Rightarrow> worker_entry list \<times> int \<times> int" where
  "pre_bank pod 0 pid t = ([], pid, t)"
| "pre_bank pod (Suc n) pid t =
     (let (es, pid', t') = pre_bank pod n (pid + 1) (t + 150)
      in (entry_at t pod ''DEBUG'' (CallingBank pid) ''1.7.3'' # es, pid', t'))"

fun in_flight :: "draws \<Rightarrow> (string \<times> nat \<times> nat) list \<Rightarrow> int \<Rightarrow> int \<Rightarrow> worker_entry list \<times> first_payment list \<times> int" where
  "in_flight d [] pid t = ([], [], pid)"
| "in_flight d ((pod, n, k) # ws) pid t =
     (let (es, dup, pid1, t1) = post_bank d pod n pid t;
          (es', pid2, t2) = pre_bank pod k pid1 t1;
          (rest, dups, pid') = in_flight d ws pid2 t2
      in (es @ es' @ rest, dup @ dups, pid'))"

definition killed_workers :: "(string \<times> nat \<times> nat) list" where
  "killed_workers = zip (map pod_of WRK_OLD) (zip POST_BANK_AT_KILL PRE_BANK_AT_KILL)"

text \<open>The new pods pay the re-queued payouts again.\<close>

type_synonym double_payment = "int \<times> int \<times> int \<times> string \<times> int \<times> string"

fun second_payments :: "draws \<Rightarrow> first_payment list \<Rightarrow> int \<Rightarrow> worker_entry list \<times> double_payment list \<times> int" where
  "second_payments d [] t = ([], [], t)"
| "second_payments d ((p, m, t1, pod1) # dup) t =
     (let pod2 = pod_of (take 2 WRK_NEW ! pick d (''second'', p) 2);
          (es, second, t') = second_payments d dup (t + randint d (''second'', p) 200 300)
      in (entry_at t pod2 ''INFO'' (BankPayoutOk p m) ''1.8.0'' # es, (p, m, t1, pod1, t, pod2) # second, t'))"

definition worker_entries :: "draws \<Rightarrow> worker_entry list \<times> double_payment list" where
  "worker_entries d =
     (let started = map (\<lambda>(pod, _, _). entry_at (T_ms 13 30 0 0) pod ''INFO''
                           (Note ''settle-worker 1.7.3 running, concurrency=10'') ''1.7.3'') WRK_OLD;
          batch = entry_at (T_ms 14 0 41 0) ''scheduler'' ''INFO''
                    (Note (''daily settlement batch enqueued: '' @ str_int BATCH_SIZE @ '' payouts (settle:jobs)'')) ''-'';
          (normal, pid) = normal_processing d (T_ms 14 0 41 0) FIRST_PAYOUT_ID;
          (flight, dup, pid) = in_flight d killed_workers pid (MIG_START + 300);
          restarted = map (\<lambda>(pod, node, t). entry_at t pod ''INFO'' (Note ''settle-worker 1.8.0 started, concurrency=10'') ''1.8.0'') WRK_NEW;
          (first_new, _, first_start) = hd WRK_NEW;
          recovered = entry_at (first_start + 210) first_new ''WARNING'' (Note ''recovered 40 orphaned jobs from settle:processing'') ''1.8.0'';
          (again, second, t) = second_payments d dup (first_start + 1000);
          single = map (\<lambda>k. entry_at (t + 250 * k) (pod_of (WRK_NEW ! 1)) ''INFO''
                         (BankPayoutOk (pid - 3 + k) (30000 + (pid * 31) mod 9000)) ''1.8.0'') [0, 1, 2];
          marked = map (\<lambda>(p, m, t1, pod1, t2, pod2). entry_at (MIG_COMMIT + randint d (''marked'', p) 20 400) pod2 ''INFO''
                         (MarkedPaid p) ''1.8.0'') second;
          drained = entry_at (T_ms 14 19 31 0) (pod_of (WRK_NEW ! 2)) ''INFO'' (Note ''settle:jobs drained'') ''1.8.0'';
          evicted = entry_at (T_ms 14 31 52 0) (pod_of (WRK_NEW ! 0)) ''WARNING''
                      (Note ''received eviction notice (node-2 DiskPressure); exiting'') ''1.8.0''
      in (started @ [batch] @ normal @ flight @ restarted @ [recovered] @ again @ single @ marked @ [drained, evicted], second))"

definition terminated_line :: "string \<times> string \<times> int \<Rightarrow> string" where
  "terminated_line w = (case w of (pod, _, killed) \<Rightarrow>
     ''2026-08-14 '' @ time_of_day killed @ '',000 --- ['' @ pod
       @ ''] container terminated: exit code 143 (SIGTERM), no shutdown log emitted; in-flight threads abandoned'')"

text \<open>The key of a line is its time stamp \<open>l[:23]\<close>.\<close>

definition log_key :: "string \<Rightarrow> string" where
  "log_key l = take 23 l"

text \<open>The file: the header and the lines sorted (stably) by their time stamp. The lines of the killed
  workers follow those of the jobs in flight when the list is built.\<close>

definition worker_log :: "draws \<Rightarrow> string list" where
  "worker_log d =
     (let es = fst (worker_entries d);
          before = takeWhile (\<lambda>e. x_ver e \<noteq> ''1.8.0'') es; after = dropWhile (\<lambda>e. x_ver e \<noteq> ''1.8.0'') es
      in ''# Aggregated settle-worker pod logs (sampled 1:10 for successful payouts before 14:02; everything after 14:02 unsampled).''
         # sort_key log_key (map x_line before @ map terminated_line WRK_OLD @ map x_line after))"

definition double_payments :: "draws \<Rightarrow> double_payment list" where
  "double_payments d = snd (worker_entries d)"

subsection \<open>Grouping of log lines\<close>

text \<open>\<open>_group\<close>: a line with a date opens a block, the lines after it belong to it.\<close>

fun group_loop :: "string list list \<Rightarrow> string list option \<Rightarrow> string list \<Rightarrow> string list list" where
  "group_loop blocks None [] = blocks"
| "group_loop blocks (Some cur) [] = blocks @ [cur]"
| "group_loop blocks cur (l # ls) =
     (if take 4 l = ''2026''
      then group_loop (case cur of None \<Rightarrow> blocks | Some c \<Rightarrow> blocks @ [c]) (Some [l]) ls
      else (case cur of
              Some c \<Rightarrow> group_loop blocks (Some (c @ [l])) ls
            | None \<Rightarrow> group_loop (blocks @ [[l]]) None ls))"

definition group_lines :: "string list \<Rightarrow> string list" where
  "group_lines lines = concat (sort_key (\<lambda>b. log_key (hd b)) (group_loop [] None lines))"

subsection \<open>The finance extract\<close>

definition amount_of :: "draws \<Rightarrow> double_payment \<Rightarrow> int" where
  "amount_of d = (\<lambda>(p, m, t1, pod1, t2, pod2). randint d (''amount'', p) 18000 2400000)"

definition finance_row :: "draws \<Rightarrow> double_payment \<Rightarrow> string list" where
  "finance_row d r = (case r of (p, m, t1, pod1, t2, pod2) \<Rightarrow>
     [''payout-'' @ str_int p, str_int m, str_int (amount_of d r), ''EUR'', ''BNK-'' @ randhex d (''first'', p), iso t1,
      ''BNK-'' @ randhex d (''second'', p), iso t2])"

definition write_finance :: "draws \<Rightarrow> double_payment list \<Rightarrow> string list list \<times> int" where
  "write_finance d second =
     ([''payout_reference'', ''merchant_id'', ''amount_minor'', ''currency'', ''bank_ref_1'', ''paid_at_1'', ''bank_ref_2'', ''paid_at_2'']
        # map (finance_row d) second,
      sum_list (map (amount_of d) second))"

end
