(* ===== verification/Replay.thy ===== *)
theory Replay
  imports Prelude
begin

section \<open>Replaying the alert rules: tools/replay\_alerts.py\<close>

text \<open>
  \<^verbatim>\<open>tools/replay_alerts.py\<close>: the alert rules of the new monitoring replayed over the
  recorded series of 14 August. A series is a list of samples, one a minute: the time in
  seconds since 14 August 00:00 and the values of the row. A division by zero is an error,
  as in Python. The files of the incident are arguments.
\<close>

type_synonym series = "(int \<times> real list) list"

definition clock_time :: "int \<Rightarrow> int \<Rightarrow> int" where
  "clock_time h m = 3600 * h + 60 * m"

definition DETECTED :: int where "DETECTED = clock_time 14 24"
definition FIRST_CUSTOMER :: int where "FIRST_CUSTOMER = clock_time 14 19"

definition py_div :: "real \<Rightarrow> real \<Rightarrow> real res" where
  "py_div a b = (if b = 0 then Inl (ValueError ''division by zero'') else Inr (a / b))"

subsection \<open>first\_sustained\<close>

text \<open>The first time at which the condition has held for \<open>for_minutes\<close> minutes, i.e. in one sample more.\<close>

fun sustained_loop :: "(nat \<Rightarrow> bool res) \<Rightarrow> nat \<Rightarrow> nat \<Rightarrow> nat \<Rightarrow> series \<Rightarrow> int option res" where
  "sustained_loop cnd for_minutes run i [] = Inr None"
| "sustained_loop cnd for_minutes run i ((t, v) # rest) =
     bind_res (cnd i) (\<lambda>b.
       let run' = (if b then run + 1 else 0)
       in if run' > for_minutes then Inr (Some t)
          else if for_minutes = 0 \<and> run' = 1 then Inr (Some t)
          else sustained_loop cnd for_minutes run' (Suc i) rest)"

definition first_sustained :: "series \<Rightarrow> (nat \<Rightarrow> bool res) \<Rightarrow> nat \<Rightarrow> int option res" where
  "first_sustained s cnd for_minutes = sustained_loop cnd for_minutes 0 0 s"

subsection \<open>The rules\<close>

definition column :: "nat \<Rightarrow> series \<Rightarrow> real list" where
  "column k s = map (\<lambda>(t, v). v ! k) s"

text \<open>The window of \<open>ratio(i, w)\<close>: before the first sample the mean of the first thirty stands in.\<close>

definition window_sum :: "real list \<Rightarrow> real \<Rightarrow> nat \<Rightarrow> nat \<Rightarrow> real" where
  "window_sum xs base i w = sum_list (map (\<lambda>j. if j \<ge> 0 then xs ! nat j else base) [int i - int w + 1..int i])"

definition burn_ratio :: "series \<Rightarrow> nat \<Rightarrow> nat \<Rightarrow> real res" where
  "burn_ratio req i w =
     (let tot = column 0 req; bad = column 2 req;
          base_n = sum_list (take 30 tot) / 30; base_b = sum_list (take 30 bad) / 30
      in py_div (window_sum bad base_b i w) (window_sum tot base_n i w))"

definition BURN_THRESHOLD :: real where "BURN_THRESHOLD = 14.4 * 0.005"

definition burning :: "series \<Rightarrow> nat \<Rightarrow> bool res" where
  "burning req i =
     bind_res (burn_ratio req i 60) (\<lambda>r60.
       if \<not> r60 > BURN_THRESHOLD then Inr False
       else bind_res (burn_ratio req i 5) (\<lambda>r5. Inr (r5 > BURN_THRESHOLD)))"

definition burn_rate :: "series \<Rightarrow> int option res" where
  "burn_rate req = first_sustained req (burning req) 2"

definition db_saturated :: "series \<Rightarrow> int option res" where
  "db_saturated pg =
     first_sustained pg (\<lambda>i. bind_res (py_div (snd (pg ! i) ! 0) (snd (pg ! i) ! 1)) (\<lambda>q. Inr (q > 0.85))) 2"

definition restart_storm :: "series \<Rightarrow> int option res" where
  "restart_storm rs =
     first_sustained rs (\<lambda>i. Inr (snd (rs ! i) ! 0 - snd (rs ! (i - 10)) ! 0 > 3)) 0"

definition oldest_queued_age :: "series \<Rightarrow> nat \<Rightarrow> real" where
  "oldest_queued_age q i =
     (let (t, v) = q ! i; depth = v ! 0; start = clock_time 14 0; batch = 2412
      in if depth \<le> 0 \<or> t < start then 0
         else (let processed = batch - depth; enq = real_of_int start + 41 * processed / batch
               in real_of_int t - enq))"

definition payouts_delayed :: "series \<Rightarrow> int option res" where
  "payouts_delayed q = first_sustained q (\<lambda>i. Inr (oldest_queued_age q i > 600)) 5"

definition duplicate_payout :: "real list \<Rightarrow> real res" where
  "duplicate_payout paid_at_2 =
     (if paid_at_2 = [] then Inl (ValueError ''min() arg is an empty sequence'')
      else Inr (Min (set paid_at_2) + 90))"

text \<open>One line of the table: how many minutes before the detection and before the first customer.\<close>

definition lead_minutes :: "real option \<Rightarrow> (real \<times> real) option" where
  "lead_minutes t =
     map_option (\<lambda>t. ((real_of_int DETECTED - t) / 60, (real_of_int FIRST_CUSTOMER - t) / 60)) t"

subsection \<open>first\_sustained against its specification\<close>

text \<open>The condition holds in the \<open>n + 1\<close> samples that end with sample \<open>i\<close>.\<close>

definition held_for :: "(nat \<Rightarrow> bool) \<Rightarrow> nat \<Rightarrow> nat \<Rightarrow> bool" where
  "held_for P n i \<longleftrightarrow> n \<le> i \<and> (\<forall>j. i - n \<le> j \<and> j \<le> i \<longrightarrow> P j)"

lemma held_for_run:
  assumes "\<forall>j. i - run \<le> j \<and> j < i \<longrightarrow> P j" and "run \<le> i" and "run < i \<Longrightarrow> \<not> P (i - run - 1)" and "P i"
  shows "held_for P n i \<longleftrightarrow> n \<le> run"
proof
  assume h: "held_for P n i"
  show "n \<le> run"
  proof (rule ccontr)
    assume "\<not> n \<le> run"
    with h have "run < i" "i - n \<le> i - run - 1" "i - run - 1 \<le> i" by (auto simp: held_for_def)
    with h assms(3) show False by (auto simp: held_for_def)
  qed
next
  assume "n \<le> run"
  then have "P j" if "i - n \<le> j" "j \<le> i" for j
    using that assms(1,4) by (cases "j = i") auto
  with \<open>n \<le> run\<close> assms(2) show "held_for P n i" by (simp add: held_for_def)
qed

lemma sustained_loop_spec:
  assumes "\<forall>j < i + length s. cnd j = Inr (P j)"
    and "\<forall>j. i - run \<le> j \<and> j < i \<longrightarrow> P j" and "run \<le> i" and "run < i \<Longrightarrow> \<not> P (i - run - 1)" and "run \<le> n"
  shows "sustained_loop cnd n run i s =
    Inr (map_option (\<lambda>k. fst (s ! (k - i))) (find (held_for P n) [i..<i + length s]))"
  using assms
proof (induction s arbitrary: i run)
  case (Cons tv s)
  obtain t v where tv: "tv = (t, v)" by (cases tv)
  have c: "cnd i = Inr (P i)" using Cons.prems(1) by simp
  have upt: "[i..<i + length (tv # s)] = i # [Suc i..<Suc i + length s]" by (subst upt_conv_Cons) simp_all
  show ?case
  proof (cases "held_for P n i")
    case True
    then have "P i" by (simp add: held_for_def)
    with held_for_run [OF Cons.prems(2-4) this, of n] True Cons.prems(5) have "run = n" by simp
    with c \<open>P i\<close> True tv show ?thesis unfolding upt by simp
  next
    case False
    define run' where "run' = (if P i then run + 1 else 0)"
    have le: "run' \<le> n"
      using held_for_run [OF Cons.prems(2-4), of n] False Cons.prems(5) by (auto simp: run'_def)
    have go: "sustained_loop cnd n run i (tv # s) = sustained_loop cnd n run' (Suc i) s"
      using c le tv by (auto simp: run'_def Let_def)
    have "sustained_loop cnd n run' (Suc i) s =
        Inr (map_option (\<lambda>k. fst (s ! (k - Suc i))) (find (held_for P n) [Suc i..<Suc i + length s]))"
    proof (rule Cons.IH)
      show "\<forall>j < Suc i + length s. cnd j = Inr (P j)" using Cons.prems(1) by simp
      show "\<forall>j. Suc i - run' \<le> j \<and> j < Suc i \<longrightarrow> P j"
        using Cons.prems(2) by (auto simp: run'_def less_Suc_eq)
      show "run' < Suc i \<Longrightarrow> \<not> P (Suc i - run' - 1)"
        using Cons.prems(3,4) by (auto simp: run'_def split: if_splits)
    qed (use le Cons.prems(3) in \<open>auto simp: run'_def\<close>)
    moreover have "map_option (\<lambda>k. fst ((tv # s) ! (k - i))) (find (held_for P n) [Suc i..<Suc i + length s]) =
        map_option (\<lambda>k. fst (s ! (k - Suc i))) (find (held_for P n) [Suc i..<Suc i + length s])"
    proof (rule option.map_cong0)
      fix k assume "k \<in> set_option (find (held_for P n) [Suc i..<Suc i + length s])"
      then have "k \<in> set [Suc i..<Suc i + length s]" by (auto dest: find_some_mem)
      then have "k - i = Suc (k - Suc i)" by auto
      then show "fst ((tv # s) ! (k - i)) = fst (s ! (k - Suc i))" by simp
    qed
    ultimately show ?thesis using go False unfolding upt by simp
  qed
qed simp

lemma first_sustained_spec:
  assumes "\<forall>j < length s. cnd j = Inr (P j)"
  shows "first_sustained s cnd n = Inr (map_option (\<lambda>k. fst (s ! k)) (find (held_for P n) [0..<length s]))"
  using sustained_loop_spec [of 0 s cnd P 0 n] assms by (simp add: first_sustained_def)

lemma find_upt: "find Q [0..<n] = Some k \<longleftrightarrow> k < n \<and> Q k \<and> (\<forall>j < k. \<not> Q j)"
  by (auto simp: find_Some_iff)

lemma find_upt_none: "find Q [0..<n] = None \<longleftrightarrow> (\<forall>j < n. \<not> Q j)"
  by (auto simp: find_None_iff)

section \<open>Property of the replayed rules\<close>

text \<open>\<open>first_sustained\<close> finds what the alert rules mean by \<open>for: n minutes\<close>: for a condition that
  raises nothing it returns the time of the first sample with which the condition has held in
  \<open>n + 1\<close> consecutive samples, and \<open>None\<close> exactly when there is no such sample.\<close>

lemma first_sustained_is_first:
  assumes "\<forall>j < length s. cnd j = Inr (P j)"
  shows "\<exists>out. first_sustained s cnd n = Inr out
    \<and> (out = None \<longleftrightarrow> (\<forall>i < length s. \<not> held_for P n i))
    \<and> (\<forall>t. out = Some t \<longrightarrow> (\<exists>i < length s. t = fst (s ! i) \<and> held_for P n i \<and> (\<forall>j < i. \<not> held_for P n j)))"
proof (cases "find (held_for P n) [0..<length s]")
  case None
  with first_sustained_spec [OF assms, of n] show ?thesis by (simp add: find_upt_none)
next
  case (Some k)
  with first_sustained_spec [OF assms, of n] show ?thesis by (auto simp: find_upt)
qed

end
