(* ===== verification/Evidence_Props.thy ===== *)
theory Evidence_Props
  imports Evidence Replay
begin

section \<open>What the evidence says\<close>

text \<open>
  The generated evidence against the replayed alert rules: whatever is drawn, four of the five
  alerts would have fired at fixed minutes. The payouts paid twice, and the payments the worker
  log shows.
\<close>

subsection \<open>The series by minute\<close>

lemma minutes_eq: "minutes t (t + 60000 * int n) = map (\<lambda>i. t + 60000 * int i) [0..<n]"
proof (induction n arbitrary: t)
  case 0
  then show ?case by (simp add: minutes.simps)
next
  case (Suc n)
  have "minutes t (t + 60000 * int (Suc n)) = t # minutes (t + 60000) (t + 60000 + 60000 * int n)"
    by (subst minutes.simps) (simp add: algebra_simps)
  also have "\<dots> = t # map (\<lambda>i. t + 60000 + 60000 * int i) [0..<n]" by (simp only: Suc.IH)
  also have "\<dots> = map (\<lambda>i. t + 60000 * int i) [0..<Suc n]"
    by (simp only: upt_conv_Cons [OF zero_less_Suc] map_Suc_upt [symmetric] list.map map_map) simp
  finally show ?case .
qed

definition minute :: "nat \<Rightarrow> int" where
  "minute i = 48600000 + 60000 * int i"

lemma minutes_of_day: "minutes (T_ms 13 30 0 0) (T_ms 15 0 0 0) = map minute [0..<90]"
  using minutes_eq [of 48600000 90] by (simp add: T_ms_def minute_def [abs_def])

lemma stamped_length [simp]: "length (stamped f) = 90"
  by (simp add: stamped_def minutes_of_day)

lemma stamped_nth: "i < 90 \<Longrightarrow> stamped f ! i = (minute i div 1000, f (minute i))"
  by (simp add: stamped_def minutes_of_day)

lemma minute_seconds: "minute i div 1000 = clock_time 13 (30 + int i)"
  by (simp add: minute_def clock_time_def)

lemma find_held:
  assumes "\<forall>j < m. \<not> P j" and "\<forall>j. m \<le> j \<and> j \<le> m + n \<longrightarrow> P j" and "m + n < N"
  shows "find (held_for P n) [0..<N] = Some (m + n)"
  unfolding find_upt
proof (intro conjI allI impI)
  show "held_for P n (m + n)" using assms(2) by (auto simp: held_for_def)
  fix j assume "j < m + n"
  show "\<not> held_for P n j"
  proof
    assume h: "held_for P n j"
    then have "n \<le> j" "P (j - n)" by (auto simp: held_for_def)
    with \<open>j < m + n\<close> assms(1) show False by auto
  qed
qed (rule assms(3))

lemma stamped_fires:
  assumes "\<forall>i < 90. cnd i = Inr (P i)"
    and "\<forall>j < m. \<not> P j" and "\<forall>j. m \<le> j \<and> j \<le> m + n \<longrightarrow> P j" and "m + n < 90"
  shows "first_sustained (stamped f) cnd n = Inr (Some (clock_time 13 (30 + int (m + n))))"
  using first_sustained_spec [of "stamped f" cnd P n] assms(1) find_held [OF assms(2-4)] assms(4)
  by (simp add: stamped_nth minute_seconds)

lemma db_saturated_fires:
  assumes "fair d"
  shows "db_saturated (pg_connections d) = Inr (Some (clock_time 14 4))"
proof -
  have low: "\<not> pg_conns d (minute j) > 85" if "j < 32" for j
  proof -
    have "pg_conns d (minute j) \<le> 74"
      using that fair_randint [OF assms, of 34 41 "(''pg'', minute j)"] fair_randint [OF assms, of 68 74 "(''pg'', minute j)"]
      by (auto simp: pg_conns_def minute_def T_ms_def)
    then show ?thesis by simp
  qed
  have high: "pg_conns d (minute j) > 85" if "32 \<le> j" "j \<le> 32 + 2" for j
    using that by (auto simp: pg_conns_def minute_def T_ms_def)
  have "db_saturated (pg_connections d) = Inr (Some (clock_time 13 (30 + int (32 + 2))))"
    unfolding db_saturated_def pg_connections_def
  proof (rule stamped_fires [where P = "\<lambda>i. pg_conns d (minute i) > 85"])
    show "\<forall>i<90. bind_res (py_div (snd (stamped (\<lambda>t. [of_int (pg_conns d t), 100, of_int (lock_waiters t)]) ! i) ! 0)
        (snd (stamped (\<lambda>t. [of_int (pg_conns d t), 100, of_int (lock_waiters t)]) ! i) ! 1)) (\<lambda>q. Inr (0.85 < q))
        = Inr (85 < pg_conns d (minute i))"
      by (simp add: stamped_nth py_div_def field_simps)
  qed (use low high in auto)
  then show ?thesis by (simp add: clock_time_def)
qed

lemma restart_storm_fires: "restart_storm pod_restarts = Inr (Some (clock_time 14 4))"
proof -
  have zero: "restarts (minute j) = 0" if "j < 34" for j
  proof (cases "j = 33")
    case True
    then show ?thesis by (simp add: restarts_def minute_def T_ms_def seconds_since_def py_trunc_def)
  qed (use that in \<open>auto simp: restarts_def minute_def T_ms_def\<close>)
  have up: "restarts (minute 34) = 14"
    by (simp add: restarts_def minute_def T_ms_def seconds_since_def py_trunc_def)
  have "restart_storm pod_restarts = Inr (Some (clock_time 13 (30 + int (34 + 0))))"
    unfolding restart_storm_def pod_restarts_def
  proof (rule stamped_fires [where P = "\<lambda>i. restarts (minute i) - restarts (minute (i - 10)) > 3"])
    show "\<forall>i<90. Inr (3 < snd (stamped (\<lambda>t. [real_of_int (restarts t)]) ! i) ! 0 - snd (stamped (\<lambda>t. [real_of_int (restarts t)]) ! (i - 10)) ! 0)
        = Inr (3 < restarts (minute i) - restarts (minute (i - 10)))"
      by (simp add: stamped_nth of_int_diff [symmetric] del: of_int_diff)
    show "\<forall>j<34. \<not> 3 < restarts (minute j) - restarts (minute (j - 10))" by (simp add: zero)
    have "j = 34" if "34 \<le> j" "j \<le> 34 + 0" for j :: nat using that by simp
    then show "\<forall>j. 34 \<le> j \<and> j \<le> 34 + 0 \<longrightarrow> 3 < restarts (minute j) - restarts (minute (j - 10))"
      using up zero [of 24] by auto
  qed simp
  then show ?thesis by (simp add: clock_time_def)
qed

lemma payouts_delayed_fires: "payouts_delayed queue_depths = Inr (Some (clock_time 14 16))"
proof -
  have age: "oldest_queued_age queue_depths j = (let depth = real_of_int (fst (queue_depth (minute j))); t = clock_time 13 (30 + int j) in
      if depth \<le> 0 \<or> t < clock_time 14 0 then 0 else t - (clock_time 14 0 + 41 * (2412 - depth) / 2412))" if "j < 90" for j
    using that by (simp add: oldest_queued_age_def queue_depths_def stamped_nth minute_seconds Let_def split: prod.split)
  have early: "oldest_queued_age queue_depths j \<le> 600" if "j < 30" for j
    using that by (simp add: age clock_time_def)
  have mid: "\<forall>j \<in> {30, 31}. oldest_queued_age queue_depths j \<le> 600"
    by (simp add: age clock_time_def queue_depth_def minute_def T_ms_def seconds_since_def py_trunc_def BATCH_SIZE_def)
  have lock: "oldest_queued_age queue_depths j \<le> 600" if "32 \<le> j" "j < 40" for j
    using that by (simp add: age clock_time_def queue_depth_def minute_def T_ms_def)
  have ten: "oldest_queued_age queue_depths 40 \<le> 600"
    by (simp add: age clock_time_def queue_depth_def minute_def T_ms_def seconds_since_def py_trunc_def)
  have late: "\<forall>j \<in> {41, 42, 43, 44, 45, 46}. oldest_queued_age queue_depths j > 600"
    by (simp add: age clock_time_def queue_depth_def minute_def T_ms_def seconds_since_def py_trunc_def)
  have "payouts_delayed queue_depths = Inr (Some (clock_time 13 (30 + int (41 + 5))))"
    unfolding payouts_delayed_def queue_depths_def
  proof (rule stamped_fires [where P = "\<lambda>i. oldest_queued_age queue_depths i > 600"])
    have "\<not> 600 < oldest_queued_age queue_depths j" if "j < 41" for j
    proof -
      consider "j < 30" | "j = 30" | "j = 31" | "32 \<le> j \<and> j < 40" | "j = 40" using \<open>j < 41\<close> by linarith
      then show ?thesis by cases (use early [of j] mid lock [of j] ten in auto)
    qed
    then show "\<forall>j<41. \<not> 600 < oldest_queued_age queue_depths j" by blast
    have "600 < oldest_queued_age queue_depths j" if "41 \<le> j" "j \<le> 41 + 5" for j
    proof -
      have "j = 41 \<or> j = 42 \<or> j = 43 \<or> j = 44 \<or> j = 45 \<or> j = 46" using that by presburger
      then show ?thesis using late by auto
    qed
    then show "\<forall>j. 41 \<le> j \<and> j \<le> 41 + 5 \<longrightarrow> 600 < oldest_queued_age queue_depths j" by blast
  qed (simp_all add: queue_depths_def)
  then show ?thesis by (simp add: clock_time_def)
qed

text \<open>Every metrics file has a header and as many columns as the header names, in each of the 90 rows.\<close>

lemma metrics_rows_fit:
  "list_all (\<lambda>(name, header, rows). \<exists>h. header = Some h \<and> length rows = 90 \<and> list_all (\<lambda>(t, v). length v + 1 = length h) rows)
     (write_metrics d)"
proof -
  have fit: "list_all (\<lambda>(t, v). length v = n) (stamped f)" if "\<And>t. length (f t) = n" for f n
    using that by (simp add: stamped_def list_all_iff)
  show ?thesis
    unfolding write_metrics_def metrics_files_def metrics_headers_def
    by (simp add: api_requests_def api_latency_p99_def pg_connections_def hpa_replicas_def node_disk_free_def queue_depths_def
        pod_restarts_def node_cpus_def fit Let_def split: prod.split)
qed

subsection \<open>The payouts paid twice\<close>

lemma post_bank_all:
  assumes "fair d" and "post_bank d pod n pid t = (es, dup, pid', t')"
  shows "map (\<lambda>r. (fst r, fst (snd r))) dup = map (\<lambda>p. (p, 30000 + p * 7919 mod 9000)) [pid..pid + int n - 1]
    \<and> map x_msg es = map (\<lambda>r. BankPayoutOk (fst r) (fst (snd r))) dup
    \<and> pid' = pid + int n
    \<and> (\<forall>(p, m, t1, q) \<in> set dup. t \<le> t1 \<and> t1 \<le> t' \<and> q = pod \<and> entry_at t1 q ''INFO'' (BankPayoutOk p m) ''1.7.3'' \<in> set es)
    \<and> t \<le> t' \<and> t' \<le> t + 320 * int n"
  using assms(2)
  proof (induction n arbitrary: pid t es dup pid' t')
    case (Suc n)
    let ?r = "randint d (''post'', pid) 180 320"
    have r: "180 \<le> ?r \<and> ?r \<le> 320" by (rule fair_randint [OF assms(1)]) simp
    obtain es1 dup1 where rest: "post_bank d pod n (pid + 1) (t + ?r) = (es1, dup1, pid', t')"
      and eq: "es = entry_at t pod ''INFO'' (BankPayoutOk pid (30000 + pid * 7919 mod 9000)) ''1.7.3'' # es1"
        "dup = (pid, 30000 + pid * 7919 mod 9000, t, pod) # dup1"
      using Suc.prems by (auto simp: Let_def split: prod.splits)
    note ih = Suc.IH [OF rest]
    have upto: "[pid..pid + int (Suc n) - 1] = pid # [pid + 1..pid + 1 + int n - 1]"
      by (subst upto_rec1) (simp_all add: algebra_simps)
    show ?case
    proof (intro conjI)
      show "map (\<lambda>r. (fst r, fst (snd r))) dup = map (\<lambda>p. (p, 30000 + p * 7919 mod 9000)) [pid..pid + int (Suc n) - 1]"
        unfolding upto eq using ih by simp
      show "map x_msg es = map (\<lambda>r. BankPayoutOk (fst r) (fst (snd r))) dup" unfolding eq using ih by (simp add: entry_at_def)
      have "\<forall>(p, m, t1, q) \<in> set dup1. t + ?r \<le> t1 \<and> t1 \<le> t' \<and> q = pod
          \<and> entry_at t1 q ''INFO'' (BankPayoutOk p m) ''1.7.3'' \<in> set es1" and "t + ?r \<le> t'"
        by (fact ih [THEN conjunct2, THEN conjunct2, THEN conjunct2, THEN conjunct1],
            fact ih [THEN conjunct2, THEN conjunct2, THEN conjunct2, THEN conjunct2, THEN conjunct1])
      then show "\<forall>(p, m, t1, q) \<in> set dup. t \<le> t1 \<and> t1 \<le> t' \<and> q = pod
          \<and> entry_at t1 q ''INFO'' (BankPayoutOk p m) ''1.7.3'' \<in> set es" unfolding eq using r by force
    qed (use ih r in simp_all)
  qed simp

lemmas post_bank_facts = post_bank_all [THEN conjunct1] post_bank_all [THEN conjunct2, THEN conjunct1]
  post_bank_all [THEN conjunct2, THEN conjunct2, THEN conjunct1]
  post_bank_all [THEN conjunct2, THEN conjunct2, THEN conjunct2, THEN conjunct1]
  post_bank_all [THEN conjunct2, THEN conjunct2, THEN conjunct2, THEN conjunct2]

lemma pre_bank_facts:
  "pre_bank pod n pid t = (map (\<lambda>i. entry_at (t + 150 * int i) pod ''DEBUG'' (CallingBank (pid + int i)) ''1.7.3'') [0..<n],
     pid + int n, t + 150 * int n)"
proof (induction n arbitrary: pid t)
  case (Suc n)
  have "map (\<lambda>i. entry_at (t + 150 * int i) pod ''DEBUG'' (CallingBank (pid + int i)) ''1.7.3'') [0..<Suc n] =
      entry_at t pod ''DEBUG'' (CallingBank pid) ''1.7.3'' #
      map (\<lambda>i. entry_at (t + 150 + 150 * int i) pod ''DEBUG'' (CallingBank (pid + 1 + int i)) ''1.7.3'') [0..<n]"
    by (simp add: upt_conv_Cons map_Suc_upt [symmetric] algebra_simps del: upt_Suc)
  then show ?case using Suc.IH [of "pid + 1" "t + 150"] by simp
qed simp

lemma normal_processing_before: "\<forall>e \<in> set (fst (normal_processing d t pid)). \<forall>p m. x_msg e = BankPayoutOk p m \<longrightarrow>
    p < snd (normal_processing d t pid)"
  and normal_processing_after: "pid \<le> snd (normal_processing d t pid)"
proof (induction d t pid rule: normal_processing.induct)
  case (1 d t pid)
  {
    case 1
    show ?case
    proof (cases "t < MIG_START")
      case True
      obtain rest pid' where step: "normal_processing d (t + 250) (pid + 1) = (rest, pid')" by fastforce
      show ?thesis
        unfolding normal_processing.simps [of d t pid]
        using True step "1.IH"(1) [OF True refl refl] "1.IH"(2) [OF True refl refl]
        by (auto simp: Let_def entry_at_def)
    qed (simp add: normal_processing.simps)
  next
    case 2
    show ?case
    proof (cases "t < MIG_START")
      case True
      obtain rest pid' where step: "normal_processing d (t + 250) (pid + 1) = (rest, pid')" by fastforce
      show ?thesis
        unfolding normal_processing.simps [of d t pid] using True step "1.IH"(2) [OF True refl refl] by (auto simp: Let_def)
    qed (simp add: normal_processing.simps)
  }
qed

lemma normal_processing_count:
  "snd (normal_processing d (MIG_START - 250 * int n + r) pid) = pid + int n" if "0 \<le> r" "r < 250"
proof (induction n arbitrary: pid)
  case 0
  show ?case using that(1) by (simp add: normal_processing.simps)
next
  case (Suc n)
  let ?t = "MIG_START - 250 * int (Suc n) + r"
  have lt: "?t < MIG_START" using that(2) by simp
  have up: "?t + 250 = MIG_START - 250 * int n + r" by simp
  obtain rest pid' where step: "normal_processing d (?t + 250) (pid + 1) = (rest, pid')" by fastforce
  with Suc.IH [of "pid + 1"] have "pid' = pid + int (Suc n)" unfolding up by simp
  then show ?case unfolding normal_processing.simps [of d ?t pid] using lt step by (simp only: if_True Let_def prod.case snd_conv)
qed

lemma first_in_flight: "snd (normal_processing d (T_ms 14 0 41 0) FIRST_PAYOUT_ID) = 881542"
  using normal_processing_count [of 88 d 338 FIRST_PAYOUT_ID]
  by (simp add: MIG_START_def T_ms_def FIRST_PAYOUT_ID_def)

text \<open>The payouts a list of log entries reports as paid by the bank.\<close>

fun paid_by :: "worker_msg \<Rightarrow> int list" where
  "paid_by (BankPayoutOk p m) = [p]"
| "paid_by _ = []"

definition payments :: "worker_entry list \<Rightarrow> int list" where
  "payments es = concat (map (\<lambda>e. paid_by (x_msg e)) es)"

lemma payments_simps [simp]:
  "payments [] = []" "payments (e # es) = paid_by (x_msg e) @ payments es" "payments (es @ es') = payments es @ payments es'"
  by (simp_all add: payments_def)

lemma payments_entry [simp]: "x_msg (entry_at t pod lvl msg ver) = msg"
  by (simp add: entry_at_def)

lemma payments_pre_bank: "payments (map (\<lambda>i. entry_at (f i) pod lvl (CallingBank (g i)) ver) xs) = []"
  by (induction xs) simp_all

lemma payments_msgs: "map x_msg es = map (\<lambda>r. BankPayoutOk (fst r) (h r)) rs \<Longrightarrow> payments es = map fst rs"
  by (induction es arbitrary: rs) auto

fun flight_ids :: "(string \<times> nat \<times> nat) list \<Rightarrow> int \<Rightarrow> int list" where
  "flight_ids [] pid = []"
| "flight_ids ((pod, n, k) # ws) pid = [pid..pid + int n - 1] @ flight_ids ws (pid + int n + int k)"

lemma in_flight_facts:
  assumes "fair d" and "in_flight d ws pid t = (es, dup, pid')"
  shows "map fst dup = flight_ids ws pid \<and> payments es = map fst dup
    \<and> pid' = pid + (\<Sum>(pod, n, k) \<leftarrow> ws. int n + int k)
    \<and> (\<forall>(p, m, t1, q) \<in> set dup. t \<le> t1 \<and> t1 \<le> t + (\<Sum>(pod, n, k) \<leftarrow> ws. 320 * int n + 150 * int k)
         \<and> entry_at t1 q ''INFO'' (BankPayoutOk p m) ''1.7.3'' \<in> set es)"
  using assms(2)
proof (induction ws arbitrary: pid t es dup pid')
  case (Cons w ws)
  obtain pod n k where w: "w = (pod, n, k)" by (cases w)
  obtain es1 dup1 pid1 t1 where post: "post_bank d pod n pid t = (es1, dup1, pid1, t1)" by (metis prod_cases4)
  note P = post_bank_facts [OF assms(1) post]
  define es2 where "es2 = fst (pre_bank pod k pid1 t1)"
  have pre: "pre_bank pod k pid1 t1 = (es2, pid1 + int k, t1 + 150 * int k)" "payments es2 = []"
    by (simp_all add: es2_def pre_bank_facts payments_pre_bank)
  obtain es3 dup3 where rest: "in_flight d ws (pid1 + int k) (t1 + 150 * int k) = (es3, dup3, pid')"
    and eq: "es = es1 @ es2 @ es3" "dup = dup1 @ dup3"
    using Cons.prems post pre(1) unfolding w by (auto split: prod.splits)
  note I = Cons.IH [OF rest]
  have ids: "map fst dup1 = [pid..pid + int n - 1]" using arg_cong [OF P(1), where f = "map fst"] by (simp add: comp_def)
  have bounds: "t \<le> t1" "t1 \<le> t + 320 * int n" using P(5) by blast+
  have sum0: "0 \<le> (\<Sum>(pod, n, k) \<leftarrow> ws. 320 * int n + 150 * int k)" by (rule sum_list_nonneg) auto
  show ?case
  proof (intro conjI)
    show "map fst dup = flight_ids (w # ws) pid" using ids I P(3) by (simp add: eq w)
    show "payments es = map fst dup" using I payments_msgs [OF P(2)] by (simp add: eq pre(2))
    show "pid' = pid + (\<Sum>(pod, n, k) \<leftarrow> w # ws. int n + int k)" using I P(3) by (simp add: w)
    have "\<forall>(p, m, s, q) \<in> set dup1. t \<le> s \<and> s \<le> t1 \<and> entry_at s q ''INFO'' (BankPayoutOk p m) ''1.7.3'' \<in> set es1"
      using P(4) by auto
    moreover have "\<forall>(p, m, s, q) \<in> set dup3. t1 + 150 * int k \<le> s
        \<and> s \<le> t1 + 150 * int k + (\<Sum>(pod, n, k) \<leftarrow> ws. 320 * int n + 150 * int k)
        \<and> entry_at s q ''INFO'' (BankPayoutOk p m) ''1.7.3'' \<in> set es3" using I by blast
    ultimately show "\<forall>(p, m, s, q) \<in> set dup. t \<le> s
        \<and> s \<le> t + (\<Sum>(pod, n, k) \<leftarrow> w # ws. 320 * int n + 150 * int k)
        \<and> entry_at s q ''INFO'' (BankPayoutOk p m) ''1.7.3'' \<in> set es"
      unfolding eq w using bounds sum0 by fastforce
  qed
qed simp

lemma second_payments_facts:
  assumes "fair d" and "second_payments d dup t = (es, second, t')"
  shows "payments es = map fst dup \<and> map (\<lambda>(p, m, t1, q, b). (p, m, t1, q)) second = dup
    \<and> (\<forall>(p, m, t1, q, t2, q2) \<in> set second. t \<le> t2 \<and> t2 \<le> t' \<and> entry_at t2 q2 ''INFO'' (BankPayoutOk p m) ''1.8.0'' \<in> set es)
    \<and> t \<le> t' \<and> t' \<le> t + 300 * int (length dup)
    \<and> (dup \<noteq> [] \<longrightarrow> (\<exists>p m t1 q q2. (p, m, t1, q, t, q2) \<in> set second))"
  using assms(2)
proof (induction dup arbitrary: t es second)
  case (Cons r dup)
  obtain p m t1 q where r: "r = (p, m, t1, q)" by (cases r)
  let ?d = "randint d (''second'', p) 200 300" and ?q2 = "pod_of (take 2 WRK_NEW ! pick d (''second'', p) 2)"
  have dd: "200 \<le> ?d \<and> ?d \<le> 300" by (rule fair_randint [OF assms(1)]) simp
  obtain es1 second1 where rest: "second_payments d dup (t + ?d) = (es1, second1, t')"
    and eq: "es = entry_at t ?q2 ''INFO'' (BankPayoutOk p m) ''1.8.0'' # es1" "second = (p, m, t1, q, t, ?q2) # second1"
    using Cons.prems unfolding r by (auto simp: Let_def split: prod.splits)
  note I = Cons.IH [OF rest]
  have tt: "t + ?d \<le> t'" "t' \<le> t + ?d + 300 * int (length dup)" using I by linarith+
  have "\<forall>(p, m, t1, q, t2, q2) \<in> set second1. t + ?d \<le> t2 \<and> t2 \<le> t' \<and> entry_at t2 q2 ''INFO'' (BankPayoutOk p m) ''1.8.0'' \<in> set es1"
    using I by (elim conjE)
  then have all: "\<forall>(p, m, t1, q, t2, q2) \<in> set second. t \<le> t2 \<and> t2 \<le> t' \<and> entry_at t2 q2 ''INFO'' (BankPayoutOk p m) ''1.8.0'' \<in> set es"
    unfolding eq using dd tt by force
  show ?case
  proof (intro conjI)
    show "payments es = map fst (r # dup)" using I by (simp add: eq r)
    show "map (\<lambda>(p, m, t1, q, b). (p, m, t1, q)) second = r # dup" using I by (simp add: eq r)
    show "t' \<le> t + 300 * int (length (r # dup))" using tt dd by simp
    show "r # dup \<noteq> [] \<longrightarrow> (\<exists>p m t1 q q2. (p, m, t1, q, t, q2) \<in> set second)"
      unfolding eq by (intro impI exI) (rule list.set_intros(1))
  qed (use all tt dd in simp_all)
qed simp

lemma killed: "killed_workers = [(''settle-worker-6f8b7d9c5-4hjkl'', 10, 0), (''settle-worker-6f8b7d9c5-9pqrs'', 10, 0),
    (''settle-worker-6f8b7d9c5-c2vbn'', 9, 1), (''settle-worker-6f8b7d9c5-wx7yz'', 8, 2)]"
  by (simp add: killed_workers_def WRK_OLD_def POST_BANK_AT_KILL_def PRE_BANK_AT_KILL_def pod_of_def)

definition duplicate_ids :: "int list" where
  "duplicate_ids = [881542..881570] @ [881572..881579]"

lemma killed_ids: "flight_ids killed_workers 881542 = duplicate_ids"
  by (simp add: killed duplicate_ids_def upto_rec1 [of _ "_ :: int"] upto.simps)

lemma payments_marked: "payments (map (\<lambda>(p, m, t1, q, t2, q2). entry_at (f p) q2 lvl (MarkedPaid p) ver) rs) = []"
  by (induction rs) auto

text \<open>The parts of the log.\<close>

lemma worker_entries_parts:
  assumes "fair d"
  obtains before flight dup again t' others where
    "in_flight d killed_workers 881542 (MIG_START + 300) = (flight, dup, 881582)"
    "second_payments d dup (T_ms 14 2 53 0) = (again, double_payments d, t')"
    "set (payments before) \<subseteq> {..<881542}"
    "payments (fst (worker_entries d)) = payments before @ payments flight @ payments again @ [881579, 881580, 881581]"
    "set flight \<union> set again \<subseteq> set (fst (worker_entries d))"
proof -
  obtain normal pid where normal: "normal_processing d (T_ms 14 0 41 0) FIRST_PAYOUT_ID = (normal, pid)" by fastforce
  have pid: "pid = 881542" using first_in_flight [of d] normal by simp
  obtain flight dup pid2 where flight: "in_flight d killed_workers pid (MIG_START + 300) = (flight, dup, pid2)" by (metis prod_cases3)
  have pid2: "pid2 = 881582" using in_flight_facts [OF assms flight] pid by (simp add: killed)
  obtain again second t' where again: "second_payments d dup (T_ms 14 2 52 0 + 1000) = (again, second, t')" by (metis prod_cases3)
  have before: "set (payments normal) \<subseteq> {..<881542}"
  proof
    fix p assume "p \<in> set (payments normal)"
    then obtain e where "e \<in> set normal" "p \<in> set (paid_by (x_msg e))" by (auto simp: payments_def)
    then have "e \<in> set normal \<and> (\<exists>m. x_msg e = BankPayoutOk p m)" by (cases "x_msg e") auto
    with normal_processing_before [of d "T_ms 14 0 41 0" FIRST_PAYOUT_ID] normal pid show "p \<in> {..<881542}" by auto
  qed
  show thesis
  proof (rule that)
    show "in_flight d killed_workers 881542 (MIG_START + 300) = (flight, dup, 881582)" using flight pid pid2 by simp
    show "second_payments d dup (T_ms 14 2 53 0) = (again, double_payments d, t')"
      using again normal flight by (simp add: double_payments_def worker_entries_def Let_def WRK_NEW_def T_ms_def)
    show "set (payments normal) \<subseteq> {..<881542}" by (rule before)
    show "payments (fst (worker_entries d)) = payments normal @ payments flight @ payments again @ [881579, 881580, 881581]"
      using again normal flight pid2
      by (auto simp: worker_entries_def Let_def WRK_NEW_def WRK_OLD_def T_ms_def payments_marked)
    show "set flight \<union> set again \<subseteq> set (fst (worker_entries d))"
      using again normal flight by (auto simp: worker_entries_def Let_def WRK_NEW_def T_ms_def)
  qed
qed

lemma double_payments_facts:
  assumes "fair d"
  shows "map fst (double_payments d) = duplicate_ids"
    and "\<forall>(p, m, t1, q, t2, q2) \<in> set (double_payments d). t1 \<le> T_ms 14 2 18 2 \<and> T_ms 14 2 53 0 \<le> t2
      \<and> entry_at t1 q ''INFO'' (BankPayoutOk p m) ''1.7.3'' \<in> set (fst (worker_entries d))
      \<and> entry_at t2 q2 ''INFO'' (BankPayoutOk p m) ''1.8.0'' \<in> set (fst (worker_entries d))"
    and "\<exists>p m t1 q q2. (p, m, t1, q, T_ms 14 2 53 0, q2) \<in> set (double_payments d)"
    and "\<exists>before. set before \<subseteq> {..<881542} \<and>
      payments (fst (worker_entries d)) = before @ duplicate_ids @ duplicate_ids @ [881579, 881580, 881581]"
proof -
  obtain before flight dup again t' where parts: "in_flight d killed_workers 881542 (MIG_START + 300) = (flight, dup, 881582)"
    "second_payments d dup (T_ms 14 2 53 0) = (again, double_payments d, t')"
    "set (payments before) \<subseteq> {..<881542}"
    "payments (fst (worker_entries d)) = payments before @ payments flight @ payments again @ [881579, 881580, 881581]"
    "set flight \<union> set again \<subseteq> set (fst (worker_entries d))"
    by (rule worker_entries_parts [OF assms])
  note F = in_flight_facts [OF assms parts(1)] and S = second_payments_facts [OF assms parts(2)]
  have dup: "map fst dup = duplicate_ids" using F killed_ids by simp
  have same: "map (\<lambda>(p, m, t1, q, b). (p, m, t1, q)) (double_payments d) = dup" using S by (elim conjE)
  have "map fst (map (\<lambda>(p, m, t1, q, b). (p, m, t1, q)) (double_payments d)) = map fst (double_payments d)" by (induction "double_payments d") auto
  with same dup show "map fst (double_payments d) = duplicate_ids" by simp
  have "dup \<noteq> []" using dup by (auto simp: duplicate_ids_def)
  with S show "\<exists>p m t1 q q2. (p, m, t1, q, T_ms 14 2 53 0, q2) \<in> set (double_payments d)" by (elim conjE) simp
  have "payments flight = map fst dup" "payments again = map fst dup" using F S by (elim conjE; simp)+
  then have "payments (fst (worker_entries d)) = payments before @ duplicate_ids @ duplicate_ids @ [881579, 881580, 881581]"
    using parts(4) dup by simp
  then show "\<exists>before. set before \<subseteq> {..<881542} \<and>
      payments (fst (worker_entries d)) = before @ duplicate_ids @ duplicate_ids @ [881579, 881580, 881581]"
    using parts(3) by blast
  show "\<forall>(p, m, t1, q, t2, q2) \<in> set (double_payments d). t1 \<le> T_ms 14 2 18 2 \<and> T_ms 14 2 53 0 \<le> t2
      \<and> entry_at t1 q ''INFO'' (BankPayoutOk p m) ''1.7.3'' \<in> set (fst (worker_entries d))
      \<and> entry_at t2 q2 ''INFO'' (BankPayoutOk p m) ''1.8.0'' \<in> set (fst (worker_entries d))"
  proof clarify
    fix p m t1 q t2 q2 assume r: "(p, m, t1, q, t2, q2) \<in> set (double_payments d)"
    then have "(p, m, t1, q) \<in> set dup" using arg_cong [OF same, where f = set] by force
    moreover have "\<forall>(p, m, t1, q) \<in> set dup. MIG_START + 300 \<le> t1
        \<and> t1 \<le> MIG_START + 300 + (\<Sum>(pod, n, k) \<leftarrow> killed_workers. 320 * int n + 150 * int k)
        \<and> entry_at t1 q ''INFO'' (BankPayoutOk p m) ''1.7.3'' \<in> set flight" using F by (elim conjE)
    ultimately have "t1 \<le> MIG_START + 300 + (\<Sum>(pod, n, k) \<leftarrow> killed_workers. 320 * int n + 150 * int k)"
      "entry_at t1 q ''INFO'' (BankPayoutOk p m) ''1.7.3'' \<in> set flight" by auto
    moreover have "\<forall>(p, m, t1, q, t2, q2) \<in> set (double_payments d). T_ms 14 2 53 0 \<le> t2 \<and> t2 \<le> t'
        \<and> entry_at t2 q2 ''INFO'' (BankPayoutOk p m) ''1.8.0'' \<in> set again" using S by (elim conjE)
    with r have "T_ms 14 2 53 0 \<le> t2" "entry_at t2 q2 ''INFO'' (BankPayoutOk p m) ''1.8.0'' \<in> set again" by auto
    ultimately show "t1 \<le> T_ms 14 2 18 2 \<and> T_ms 14 2 53 0 \<le> t2
      \<and> entry_at t1 q ''INFO'' (BankPayoutOk p m) ''1.7.3'' \<in> set (fst (worker_entries d))
      \<and> entry_at t2 q2 ''INFO'' (BankPayoutOk p m) ''1.8.0'' \<in> set (fst (worker_entries d))"
      using parts(5) by (auto simp: MIG_START_def T_ms_def killed)
  qed
qed

lemma second_payments_by:
  assumes "fair d" and "(p, m, t1, q, t2, q2) \<in> set (double_payments d)"
  shows "T_ms 14 2 53 0 \<le> t2" and "t2 \<le> T_ms 14 2 53 0 + 11100"
proof -
  obtain before flight dup again t' where parts: "in_flight d killed_workers 881542 (MIG_START + 300) = (flight, dup, 881582)"
    "second_payments d dup (T_ms 14 2 53 0) = (again, double_payments d, t')"
    by (rule worker_entries_parts [OF assms(1)])
  note S = second_payments_facts [OF assms(1) parts(2)]
  have "map fst dup = duplicate_ids" using in_flight_facts [OF assms(1) parts(1)] killed_ids by simp
  then have "length dup = length duplicate_ids" by (metis length_map)
  moreover have "length duplicate_ids = 37" by code_simp
  ultimately have "t' \<le> T_ms 14 2 53 0 + 11100" using S by (elim conjE) simp
  moreover have "\<forall>(p, m, t1, q, t2, q2) \<in> set (double_payments d). T_ms 14 2 53 0 \<le> t2 \<and> t2 \<le> t'
      \<and> entry_at t2 q2 ''INFO'' (BankPayoutOk p m) ''1.8.0'' \<in> set again" using S by (elim conjE)
  ultimately show "T_ms 14 2 53 0 \<le> t2" "t2 \<le> T_ms 14 2 53 0 + 11100" using assms(2) by auto
qed

lemma duplicate_payout_found:
  assumes "fair d"
  shows "duplicate_payout (map (\<lambda>(p, m, t1, q, t2, q2). real_of_int t2 / 1000) (double_payments d)) = Inr (of_int (clock_time 14 4 + 23))"
proof -
  let ?ts = "map (\<lambda>(p, m, t1, q, t2, q2). real_of_int t2 / 1000) (double_payments d)"
  obtain p m t1 q q2 where first: "(p, m, t1, q, T_ms 14 2 53 0, q2) \<in> set (double_payments d)"
    using double_payments_facts(3) [OF assms] by blast
  have "Min (set ?ts) = 50573"
  proof (rule Min_eqI)
    show "50573 \<le> y" if "y \<in> set ?ts" for y
      using that double_payments_facts(2) [OF assms] by (force simp: T_ms_def)
    show "50573 \<in> set ?ts" using first by (force simp: T_ms_def)
  qed simp
  moreover have "?ts \<noteq> []" using first by auto
  ultimately show ?thesis by (simp add: duplicate_payout_def clock_time_def)
qed

subsection \<open>Grouping\<close>

definition undated :: "string \<Rightarrow> bool" where
  "undated l \<longleftrightarrow> take 4 l \<noteq> ''2026''"

definition dated_block :: "string list \<Rightarrow> bool" where
  "dated_block b \<longleftrightarrow> (\<exists>l ls. b = l # ls \<and> \<not> undated l \<and> list_all undated ls)"

lemma group_loop_some:
  assumes "dated_block c"
  shows "\<exists>bs. group_loop blocks (Some c) ls = blocks @ bs \<and> concat bs = c @ ls \<and> list_all dated_block bs"
  using assms
proof (induction ls arbitrary: blocks c)
  case Nil
  then show ?case by (intro exI [of _ "[c]"]) simp
next
  case (Cons l ls)
  show ?case
  proof (cases "undated l")
    case True
    with Cons.prems have "dated_block (c @ [l])" by (auto simp: dated_block_def)
    from Cons.IH [OF this, of blocks] True show ?thesis by (auto simp: undated_def)
  next
    case False
    then have "dated_block [l]" by (simp add: dated_block_def)
    from Cons.IH [OF this, of "blocks @ [c]"] obtain bs where
      bs: "group_loop (blocks @ [c]) (Some [l]) ls = (blocks @ [c]) @ bs" "concat bs = [l] @ ls" "list_all dated_block bs" by blast
    with False Cons.prems show ?thesis by (intro exI [of _ "c # bs"]) (simp add: undated_def)
  qed
qed

lemma group_loop_none:
  "\<exists>bs. group_loop blocks None ls = blocks @ map (\<lambda>l. [l]) (takeWhile undated ls) @ bs
     \<and> concat bs = dropWhile undated ls \<and> list_all dated_block bs"
proof (induction ls arbitrary: blocks)
  case (Cons l ls)
  show ?case
  proof (cases "undated l")
    case True
    with Cons.IH [of "blocks @ [[l]]"] show ?thesis by (auto simp: undated_def)
  next
    case False
    then have "dated_block [l]" by (simp add: dated_block_def)
    from group_loop_some [OF this, of blocks ls] False show ?thesis by (auto simp: undated_def)
  qed
qed simp

lemma mset_concat_eq: "mset (concat xs) = sum_mset (image_mset mset (mset xs))"
  by (induction xs) simp_all

lemma mset_concat_sort: "mset (concat (sort_key f bs)) = mset (concat bs)"
  by (simp add: mset_concat_eq)

section \<open>Properties of the evidence\<close>

text \<open>Grouping keeps every line and every trace: the lines before the first date are blocks of their
  own, a line with a date opens a block that holds the lines up to the next date, and the result
  is these blocks, each in one piece, in the stable order of the time stamps of their first
  lines.\<close>

lemma grouping_keeps_blocks:
  "mset (group_lines ls) = mset ls
   \<and> (\<exists>bs. concat bs = dropWhile undated ls \<and> list_all dated_block bs
        \<and> group_lines ls = concat (sort_key (\<lambda>b. log_key (hd b)) (map (\<lambda>l. [l]) (takeWhile undated ls) @ bs)))"
proof -
  obtain bs where bs: "group_loop [] None ls = map (\<lambda>l. [l]) (takeWhile undated ls) @ bs"
    "concat bs = dropWhile undated ls" "list_all dated_block bs"
    using group_loop_none [of "[]" ls] by auto
  have "concat (group_loop [] None ls) = ls"
    using bs by (simp add: concat_map_singleton takeWhile_dropWhile_id)
  then show ?thesis using bs by (auto simp: group_lines_def mset_concat_sort)
qed

definition lowest_draws :: draws where
  "lowest_draws = \<lparr>uniform = (\<lambda>k a b. a), randint = (\<lambda>k a b. a), pick = (\<lambda>k n. 0), randhex = (\<lambda>k. ''000000000000'')\<rparr>"

lemma lowest_draws_fair: "fair lowest_draws"
  by (simp add: fair_def lowest_draws_def)

text \<open>The double payments of the evidence: 37 payouts are in the finance extract, each once, each paid
  by an old worker and again, later, by a new one, with both payments in the worker log; and of
  the forty jobs in flight the log shows the three others wrongly: payout 881579 is paid a third
  time and payout 881571, which the bank had not paid when its worker was killed, never.\<close>

lemma double_payments_in_the_log:
  assumes "fair d"
  shows "map fst (double_payments d) = duplicate_ids \<and> length duplicate_ids = 37
    \<and> (\<forall>(p, m, t1, q, t2, q2) \<in> set (double_payments d). t1 < t2
         \<and> entry_at t1 q ''INFO'' (BankPayoutOk p m) ''1.7.3'' \<in> set (fst (worker_entries d))
         \<and> entry_at t2 q2 ''INFO'' (BankPayoutOk p m) ''1.8.0'' \<in> set (fst (worker_entries d)))
    \<and> map (count_list (payments (fst (worker_entries d)))) [881542..881581] =
        replicate 29 2 @ [0] @ replicate 7 2 @ [3, 1, 1]"
proof -
  obtain before where before: "set before \<subseteq> {..<881542}"
    and log: "payments (fst (worker_entries d)) = before @ duplicate_ids @ duplicate_ids @ [881579, 881580, 881581]"
    using double_payments_facts(4) [OF assms] by blast
  have "count_list before p = 0" if "p \<in> set [881542..881581]" for p
    using that before by (auto simp: count_list_0_iff)
  then have "map (count_list (payments (fst (worker_entries d)))) [881542..881581] =
      map (count_list (duplicate_ids @ duplicate_ids @ [881579, 881580, 881581])) [881542..881581]"
    unfolding log by (simp only: map_eq_conv count_list_append) simp
  also have "\<dots> = replicate 29 2 @ [0] @ replicate 7 2 @ [3, 1, 1]" by code_simp
  finally have counts: "map (count_list (payments (fst (worker_entries d)))) [881542..881581] =
      replicate 29 2 @ [0] @ replicate 7 2 @ [3, 1, 1]" .
  have "length duplicate_ids = 37" by code_simp
  with counts double_payments_facts(1,2) [OF assms] show ?thesis by (force simp: T_ms_def)
qed

end
