(* ===== verification/Csv.thy ===== *)
theory Csv
  imports Prelude
begin

section \<open>CSV files: csv.writer and csv.reader of the standard library\<close>

text \<open>
  The evidence generator writes its tables with \<open>csv.writer\<close> (the excel dialect: commas, quotes
  only where they are needed, lines that end with CR LF) and the alert replay reads them with
  \<open>csv.reader\<close> from a file opened in text mode, where every line end becomes LF. The reader is
  the state machine of the library; what was written is read back.
\<close>

abbreviation "comma \<equiv> CHR '',''"
abbreviation "dquote \<equiv> CHR 0x22"
abbreviation "newline \<equiv> CHR 0x0A"
abbreviation "carriage \<equiv> CHR 0x0D"

subsection \<open>The writer\<close>

definition needs_quotes :: "string \<Rightarrow> bool" where
  "needs_quotes f \<longleftrightarrow> list_ex (\<lambda>c. c = comma \<or> c = dquote \<or> c = newline \<or> c = carriage) f"

definition doubled :: "string \<Rightarrow> string" where
  "doubled f = concat (map (\<lambda>c. if c = dquote then [dquote, dquote] else [c]) f)"

definition csv_field :: "string \<Rightarrow> string" where
  "csv_field f = (if needs_quotes f then [dquote] @ doubled f @ [dquote] else f)"

fun comma_list :: "string list \<Rightarrow> string" where
  "comma_list [] = []"
| "comma_list [f] = f"
| "comma_list (f # fs) = f @ [comma] @ comma_list fs"

text \<open>A row of one empty field would look like an empty row, so the field is quoted.\<close>

definition csv_row :: "string list \<Rightarrow> string" where
  "csv_row fs = (if fs = [[]] then [dquote, dquote] else comma_list (map csv_field fs)) @ [carriage, newline]"

definition write_csv :: "string list list \<Rightarrow> string" where
  "write_csv rows = concat (map csv_row rows)"

subsection \<open>The reader\<close>

text \<open>Text mode: CR LF and CR are read as LF.\<close>

fun universal_newlines :: "string \<Rightarrow> string" where
  "universal_newlines [] = []"
| "universal_newlines (c # cs) =
     (if c = carriage
      then newline # (case cs of [] \<Rightarrow> [] | d # ds \<Rightarrow> if d = newline then universal_newlines ds else universal_newlines cs)
      else c # universal_newlines cs)"

datatype reader_state = Start_Record | Start_Field | In_Field | In_Quoted | Quote_In_Quoted | Eat_Newline

record reader =
  rd_state :: reader_state
  rd_field :: string
  rd_fields :: "string list"

definition fresh :: reader where
  "fresh = \<lparr>rd_state = Start_Record, rd_field = [], rd_fields = []\<rparr>"

definition save_field :: "reader_state \<Rightarrow> reader \<Rightarrow> reader" where
  "save_field st r = \<lparr>rd_state = st, rd_field = [], rd_fields = rd_fields r @ [rd_field r]\<rparr>"

definition add_char :: "reader_state \<Rightarrow> char \<Rightarrow> reader \<Rightarrow> reader" where
  "add_char st c r = r\<lparr>rd_state := st, rd_field := rd_field r @ [c]\<rparr>"

definition start_field :: "char \<Rightarrow> reader \<Rightarrow> reader" where
  "start_field c r =
     (if c = newline \<or> c = carriage then save_field Eat_Newline r
      else if c = dquote then r\<lparr>rd_state := In_Quoted\<rparr>
      else if c = comma then save_field Start_Field r
      else add_char In_Field c r)"

text \<open>One character of a line, and the end of a line.\<close>

definition read_char :: "char \<Rightarrow> reader \<Rightarrow> reader res" where
  "read_char c r =
     (case rd_state r of
        Start_Record \<Rightarrow>
          Inr (if c = newline \<or> c = carriage then r\<lparr>rd_state := Eat_Newline\<rparr> else start_field c r)
      | Start_Field \<Rightarrow> Inr (start_field c r)
      | In_Field \<Rightarrow>
          Inr (if c = newline \<or> c = carriage then save_field Eat_Newline r
               else if c = comma then save_field Start_Field r else add_char In_Field c r)
      | In_Quoted \<Rightarrow> Inr (if c = dquote then r\<lparr>rd_state := Quote_In_Quoted\<rparr> else add_char In_Quoted c r)
      | Quote_In_Quoted \<Rightarrow>
          Inr (if c = dquote then add_char In_Quoted c r
               else if c = comma then save_field Start_Field r
               else if c = newline \<or> c = carriage then save_field Eat_Newline r
               else add_char In_Field c r)
      | Eat_Newline \<Rightarrow>
          if c = newline \<or> c = carriage then Inr r
          else Inl (ValueError ''new-line character seen in unquoted field''))"

definition line_end :: "reader \<Rightarrow> reader" where
  "line_end r =
     (case rd_state r of
        Start_Record \<Rightarrow> r
      | In_Quoted \<Rightarrow> r
      | Eat_Newline \<Rightarrow> r\<lparr>rd_state := Start_Record\<rparr>
      | _ \<Rightarrow> save_field Start_Record r)"

text \<open>
  The records of a text: a line ends after a newline or at the end of the text, a record ends with
  the line on which the machine is back at the start; a text that ends inside quotes ends its record.
\<close>

fun csv_records :: "string \<Rightarrow> reader \<Rightarrow> string list list res" where
  "csv_records [] r = Inr (if rd_field r \<noteq> [] \<or> rd_state r = In_Quoted then [rd_fields r @ [rd_field r]] else [])"
| "csv_records (c # cs) r =
     bind_res (read_char c r) (\<lambda>r1.
       if c = newline \<or> cs = []
       then (let r2 = line_end r1
             in if rd_state r2 = Start_Record
                then bind_res (csv_records cs fresh) (\<lambda>rows. Inr (rd_fields r2 # rows))
                else csv_records cs r2)
       else csv_records cs r1)"

definition read_csv :: "string \<Rightarrow> string list list res" where
  "read_csv txt = csv_records (universal_newlines txt) fresh"

subsection \<open>Reading back a field\<close>

abbreviation no_cr :: "string \<Rightarrow> bool" where
  "no_cr s \<equiv> list_all (\<lambda>c. c \<noteq> carriage) s"

lemma universal_no_cr: "no_cr xs \<Longrightarrow> universal_newlines (xs @ carriage # newline # ys) = xs @ newline # universal_newlines ys"
  by (induction xs) auto

declare csv_records.simps(2) [simp del]

lemma read_step:
  assumes "t \<noteq> []" and "read_char c r = Inr r1" and "c \<noteq> newline \<or> rd_state r1 = In_Quoted"
  shows "csv_records (c # t) r = csv_records t r1"
  using assms by (auto simp: csv_records.simps(2) line_end_def)

lemma read_line:
  assumes "read_char newline r = Inr r1" and "rd_state r1 = Eat_Newline"
  shows "csv_records (newline # cs) r = bind_res (csv_records cs fresh) (\<lambda>rows. Inr (rd_fields r1 # rows))"
  using assms by (simp add: csv_records.simps(2) line_end_def)

abbreviation reading :: "reader_state \<Rightarrow> string \<Rightarrow> string list \<Rightarrow> reader" where
  "reading st f fs \<equiv> \<lparr>rd_state = st, rd_field = f, rd_fields = fs\<rparr>"

lemma read_plain:
  "\<not> needs_quotes f \<Longrightarrow> csv_records (f @ c # cs) (reading In_Field acc fs) = csv_records (c # cs) (reading In_Field (acc @ f) fs)"
proof (induction f arbitrary: acc)
  case (Cons d f)
  then have d: "d \<noteq> newline" "read_char d (reading In_Field acc fs) = Inr (reading In_Field (acc @ [d]) fs)" "\<not> needs_quotes f"
    by (simp_all add: needs_quotes_def read_char_def add_char_def)
  from read_step [OF _ d(2), of "f @ c # cs"] d(1) Cons.IH [OF d(3)] show ?case by simp
qed simp

lemma read_doubled:
  "csv_records (doubled f @ dquote # c # cs) (reading In_Quoted acc fs) = csv_records (c # cs) (reading Quote_In_Quoted (acc @ f) fs)"
proof (induction f arbitrary: acc)
  case Nil
  have "read_char dquote (reading In_Quoted acc fs) = Inr (reading Quote_In_Quoted acc fs)" by (simp add: read_char_def)
  from read_step [OF _ this] show ?case by (simp add: doubled_def)
next
  case (Cons d f)
  let ?t = "doubled f @ dquote # c # cs"
  show ?case
  proof (cases "d = dquote")
    case True
    have "read_char dquote (reading In_Quoted acc fs) = Inr (reading Quote_In_Quoted acc fs)"
        "read_char dquote (reading Quote_In_Quoted acc fs) = Inr (reading In_Quoted (acc @ [dquote]) fs)"
      by (simp_all add: read_char_def add_char_def)
    from read_step [OF _ this(1), of "dquote # ?t"] read_step [OF _ this(2), of ?t] Cons.IH [of "acc @ [dquote]"] True
    show ?thesis by (simp add: doubled_def)
  next
    case False
    then have "read_char d (reading In_Quoted acc fs) = Inr (reading In_Quoted (acc @ [d]) fs)"
      by (simp add: read_char_def add_char_def)
    from read_step [OF _ this, of ?t] Cons.IH [of "acc @ [d]"] False show ?thesis by (simp add: doubled_def)
  qed
qed

text \<open>A field that has been read up to the character after it.\<close>

lemma read_field:
  assumes st: "st = Start_Record \<or> st = Start_Field" and f: "needs_quotes f \<or> f \<noteq> []"
  shows "\<exists>st'. st' \<in> {In_Field, Quote_In_Quoted} \<and>
    csv_records (csv_field f @ c # cs) (reading st [] fs) = csv_records (c # cs) (reading st' f fs)"
proof (cases "needs_quotes f")
  case True
  have "read_char dquote (reading st [] fs) = Inr (reading In_Quoted [] fs)"
    using st by (auto simp: read_char_def start_field_def)
  from read_step [OF _ this, of "doubled f @ dquote # c # cs"] read_doubled [of f c cs "[]" fs] True
  show ?thesis by (auto simp: csv_field_def)
next
  case False
  with f obtain d g where g: "f = d # g" by (cases f) auto
  with False have "d \<noteq> newline" "read_char d (reading st [] fs) = Inr (reading In_Field [d] fs)" "\<not> needs_quotes g"
    using st by (auto simp: needs_quotes_def read_char_def start_field_def add_char_def)
  from read_step [OF _ this(2), of "g @ c # cs"] this(1) read_plain [OF this(3), of c cs "[d]" fs] False g
  show ?thesis by (auto simp: csv_field_def)
qed

lemma read_field_comma:
  assumes st: "st = Start_Record \<or> st = Start_Field" and cs: "cs \<noteq> []"
  shows "csv_records (csv_field f @ comma # cs) (reading st [] fs) = csv_records cs (reading Start_Field [] (fs @ [f]))"
proof (cases "needs_quotes f \<or> f \<noteq> []")
  case True
  from read_field [OF st True, of comma cs fs] obtain st' where st': "st' \<in> {In_Field, Quote_In_Quoted}"
      "csv_records (csv_field f @ comma # cs) (reading st [] fs) = csv_records (comma # cs) (reading st' f fs)" by blast
  from st'(1) have "read_char comma (reading st' f fs) = Inr (reading Start_Field [] (fs @ [f]))"
    by (auto simp: read_char_def save_field_def)
  from read_step [OF cs this] st'(2) show ?thesis by simp
next
  case False
  with st have "read_char comma (reading st [] fs) = Inr (reading Start_Field [] (fs @ [f]))"
    by (auto simp: read_char_def start_field_def save_field_def)
  from read_step [OF cs this] False show ?thesis by (auto simp: csv_field_def)
qed

lemma read_field_end:
  assumes st: "st = Start_Field \<or> st = Start_Record \<and> f \<noteq> []"
  shows "csv_records (csv_field f @ newline # cs) (reading st [] fs) = bind_res (csv_records cs fresh) (\<lambda>rows. Inr ((fs @ [f]) # rows))"
proof (cases "needs_quotes f \<or> f \<noteq> []")
  case True
  from st have "st = Start_Record \<or> st = Start_Field" by blast
  from read_field [OF this True, of newline cs fs] obtain st' where st': "st' \<in> {In_Field, Quote_In_Quoted}"
      "csv_records (csv_field f @ newline # cs) (reading st [] fs) = csv_records (newline # cs) (reading st' f fs)" by blast
  from st'(1) have "read_char newline (reading st' f fs) = Inr (reading Eat_Newline [] (fs @ [f]))"
    by (auto simp: read_char_def save_field_def)
  from read_line [OF this] st'(2) show ?thesis by simp
next
  case False
  with st have "read_char newline (reading st [] fs) = Inr (reading Eat_Newline [] (fs @ [f]))"
    by (auto simp: read_char_def start_field_def save_field_def)
  from read_line [OF this] False show ?thesis by (auto simp: csv_field_def)
qed

subsection \<open>Reading back a file\<close>

text \<open>A row as the reader sees it: its line end is LF.\<close>

definition row_text :: "string list \<Rightarrow> string" where
  "row_text fs = (if fs = [[]] then [dquote, dquote] else comma_list (map csv_field fs))"

lemma comma_list_cons: "gs \<noteq> [] \<Longrightarrow> comma_list (f # gs) = f @ [comma] @ comma_list gs"
  by (cases gs) simp_all

lemma read_fields:
  assumes "fs \<noteq> []" and "st = Start_Field \<or> st = Start_Record \<and> fs \<noteq> [[]]"
  shows "csv_records (comma_list (map csv_field fs) @ newline # cs) \<lparr>rd_state = st, rd_field = [], rd_fields = gs\<rparr>
    = bind_res (csv_records cs fresh) (\<lambda>rows. Inr ((gs @ fs) # rows))"
  using assms
proof (induction fs arbitrary: st gs)
  case (Cons f fs)
  show ?case
  proof (cases "fs = []")
    case True
    then show ?thesis using read_field_end [of st f cs gs] Cons.prems(2) by auto
  next
    case False
    then have joined: "comma_list (map csv_field (f # fs)) @ newline # cs
        = csv_field f @ comma # (comma_list (map csv_field fs) @ newline # cs)" by (simp add: comma_list_cons)
    have "st = Start_Record \<or> st = Start_Field" using Cons.prems(2) by auto
    from read_field_comma [OF this, of "comma_list (map csv_field fs) @ newline # cs" f gs] Cons.IH [OF False, of Start_Field "gs @ [f]"]
    show ?thesis unfolding joined by simp
  qed
qed simp

lemma read_row: "csv_records (row_text fs @ newline # cs) fresh = bind_res (csv_records cs fresh) (\<lambda>rows. Inr (fs # rows))"
proof (cases "fs = [] \<or> fs = [[]]")
  case True
  then show ?thesis
  proof
    assume fs: "fs = []"
    have "read_char newline fresh = Inr (reading Eat_Newline [] [])" by (simp add: read_char_def fresh_def)
    from read_line [OF this] show ?thesis by (simp add: row_text_def fs)
  next
    assume fs: "fs = [[]]"
    have "read_char dquote fresh = Inr (reading In_Quoted [] [])"
        "read_char dquote (reading In_Quoted [] []) = Inr (reading Quote_In_Quoted [] [])"
        "read_char newline (reading Quote_In_Quoted [] []) = Inr (reading Eat_Newline [] [[]])"
      by (simp_all add: read_char_def fresh_def start_field_def save_field_def)
    from read_step [OF _ this(1), of "dquote # newline # cs"] read_step [OF _ this(2), of "newline # cs"] read_line [OF this(3)]
    show ?thesis by (simp add: row_text_def fs)
  qed
next
  case False
  then show ?thesis using read_fields [of fs Start_Record cs "[]"] by (simp add: row_text_def fresh_def)
qed

lemma no_cr_field: "no_cr f \<Longrightarrow> no_cr (csv_field f)"
  by (auto simp: csv_field_def doubled_def list_all_iff)

lemma no_cr_row: "list_all no_cr fs \<Longrightarrow> no_cr (row_text fs)"
proof -
  have "list_all no_cr gs \<Longrightarrow> no_cr (comma_list gs)" for gs by (induction gs rule: comma_list.induct) simp_all
  moreover have "list_all no_cr fs \<Longrightarrow> list_all no_cr (map csv_field fs)" using no_cr_field by (induction fs) simp_all
  ultimately show "list_all no_cr fs \<Longrightarrow> no_cr (row_text fs)" by (simp add: row_text_def)
qed

lemma read_write_csv: "list_all (list_all no_cr) rows \<Longrightarrow> read_csv (write_csv rows) = Inr rows"
proof (induction rows)
  case Nil
  then show ?case by (simp add: read_csv_def write_csv_def fresh_def)
next
  case (Cons fs rows)
  have "csv_row fs = row_text fs @ [carriage, newline]" by (simp add: csv_row_def row_text_def)
  then have "universal_newlines (write_csv (fs # rows)) = row_text fs @ newline # universal_newlines (write_csv rows)"
    using universal_no_cr [OF no_cr_row, of fs] Cons.prems by (simp add: write_csv_def)
  with Cons show ?case by (simp add: read_csv_def read_row)
qed

section \<open>Property of the files\<close>

text \<open>What \<open>csv.writer\<close> writes, \<open>csv.reader\<close> reads: for every table whose fields contain no carriage
  return, with commas, quotes, line feeds, empty fields, empty rows and rows of different lengths,
  the records read from the file in text mode are the rows that were written.\<close>

lemma read_back_rows:
  assumes "list_all (list_all no_cr) rows"
  shows "read_csv (write_csv rows) = Inr rows"
  by (rule read_write_csv [OF assms])

end
