(* ===== verification/Replay_Files.thy ===== *)
theory Replay_Files
  imports Csv Numbers Replay
begin

section \<open>The files and the table of the alert replay: tools/replay\_alerts.py\<close>

text \<open>
  \<^verbatim>\<open>tools/replay_alerts.py\<close> around its rules: \<open>load\<close> reads a metrics file, \<open>duplicate_payout\<close> the
  finance extract, and \<open>main\<close> runs the five rules and prints the table. The texts of the files
  are arguments.
\<close>

subsection \<open>datetime.fromisoformat\<close>

text \<open>
  A date and a time with seconds, separated by any character, with an optional fraction of three or
  six digits: the forms in the incident's files. The result is in microseconds since 14 August
  2026, 00:00. Other forms the library accepts are errors here.
\<close>

definition number_at :: "string \<Rightarrow> nat \<Rightarrow> nat \<Rightarrow> int option" where
  "number_at s i k =
     (let u = take k (drop i s)
      in if length u = k \<and> list_all is_digit u then Some (int (value_from 0 u)) else None)"

definition ordinal_of :: "int \<Rightarrow> int \<Rightarrow> int \<Rightarrow> int" where
  "ordinal_of y m d =
     (let z = y - 1
      in z * 365 + z div 4 - z div 100 + z div 400 + sum_list (take (nat (m - 1)) (month_lengths y)) + d)"

definition fraction :: "string \<Rightarrow> int option" where
  "fraction s =
     (case s of
        [] \<Rightarrow> Some 0
      | c # u \<Rightarrow>
          if c = CHR ''.'' \<and> list_all is_digit u
          then (if length u = 3 then Some (1000 * int (value_from 0 u))
                else if length u = 6 then Some (int (value_from 0 u)) else None)
          else None)"

definition from_iso :: "string \<Rightarrow> int res" where
  "from_iso s =
     (case (number_at s 0 4, number_at s 5 2, number_at s 8 2, number_at s 11 2, number_at s 14 2, number_at s 17 2,
            fraction (drop 19 s)) of
        (Some y, Some m, Some d, Some h, Some mi, Some se, Some us) \<Rightarrow>
          (if s ! 4 = CHR ''-'' \<and> s ! 7 = CHR ''-'' \<and> s ! 13 = CHR '':'' \<and> s ! 16 = CHR '':''
              \<and> 1 \<le> y \<and> 1 \<le> m \<and> m \<le> 12 \<and> 1 \<le> d \<and> d \<le> month_lengths y ! nat (m - 1) \<and> h < 24 \<and> mi < 60 \<and> se < 60
           then Inr ((((ordinal_of y m d - ordinal_of 2026 8 14) * 24 + h) * 60 + mi) * 60000000 + se * 1000000 + us)
           else Inl (ValueError ''Invalid isoformat string''))
      | _ \<Rightarrow> Inl (ValueError ''Invalid isoformat string''))"

subsection \<open>load\<close>

text \<open>
  A row of a metrics file. The times of the exports are whole seconds, the values are finite; a value
  that is not finite, which the series cannot hold, is an error here.
\<close>

definition load_value :: "string \<Rightarrow> real res" where
  "load_value s =
     bind_res (py_float s) (\<lambda>x. case x of Fin v \<Rightarrow> Inr v | _ \<Rightarrow> Inl (ValueError ''value is not finite''))"

definition load_row :: "string list \<Rightarrow> (int \<times> real list) res" where
  "load_row r =
     (case r of
        [] \<Rightarrow> Inl (IndexError ''list index out of range'')
      | stamp # values \<Rightarrow>
          bind_res (from_iso stamp) (\<lambda>us. bind_res (map_res load_value values) (\<lambda>vs. Inr (us div 1000000, vs))))"

definition load :: "string \<Rightarrow> series res" where
  "load content =
     bind_res (read_csv content) (\<lambda>rows.
       case rows of [] \<Rightarrow> Inl StopIteration | header # body \<Rightarrow> map_res load_row body)"

subsection \<open>The finance extract\<close>

text \<open>
  \<open>csv.DictReader\<close>: the first row names the fields, empty rows are skipped, a name that occurs twice
  stands for its last field; a row that is too short lacks its last fields (\<open>None\<close>).
\<close>

definition dict_rows :: "string list list \<Rightarrow> (string list \<times> string list) list" where
  "dict_rows rows = (case rows of [] \<Rightarrow> [] | names # body \<Rightarrow> map (\<lambda>r. (names, r)) (filter (\<lambda>r. r \<noteq> []) body))"

definition dict_field :: "string \<Rightarrow> string list \<times> string list \<Rightarrow> string res" where
  "dict_field k nr =
     (case nr of (names, r) \<Rightarrow>
        (let named = zip names (map Some r @ replicate (length names - length r) None)
         in case map_of (rev named) k of
              None \<Rightarrow> Inl (KeyError k)
            | Some None \<Rightarrow> Inl (AttributeError ''replace'')
            | Some (Some f) \<Rightarrow> Inr f))"

definition without_z :: "string \<Rightarrow> string" where
  "without_z s = filter (\<lambda>c. c \<noteq> CHR ''Z'') s"

definition second_times :: "string \<Rightarrow> real list res" where
  "second_times content =
     bind_res (read_csv content) (\<lambda>rows.
       map_res (\<lambda>nr. bind_res (dict_field ''paid_at_2'' nr) (\<lambda>f.
                      bind_res (from_iso (without_z f)) (\<lambda>us. Inr (real_of_int us / 1000000)))) (dict_rows rows))"

definition duplicate_payout_in :: "string \<Rightarrow> real res" where
  "duplicate_payout_in content = bind_res (second_times content) duplicate_payout"

subsection \<open>The table\<close>

definition FINANCE :: int where "FINANCE = 86400 + clock_time 9 40"

definition hh_mm :: "real \<Rightarrow> string" where
  "hh_mm t = padded 2 (\<lfloor>t\<rfloor> div 3600 mod 24) @ '':'' @ padded 2 (\<lfloor>t\<rfloor> div 60 mod 60)"

definition hh_mm_ss :: "real \<Rightarrow> string" where
  "hh_mm_ss t = hh_mm t @ '':'' @ padded 2 (\<lfloor>t\<rfloor> mod 60)"

text \<open>The rules in the order of the table, on the metrics files by name and the finance extract.\<close>

type_synonym alert = "string \<times> real option \<times> string"

definition from_series :: "(series \<Rightarrow> int option res) \<Rightarrow> string \<Rightarrow> real option res" where
  "from_series rule content = bind_res (load content) (\<lambda>s. bind_res (rule s) (\<lambda>t. Inr (map_option real_of_int t)))"

definition replay_alerts :: "(string \<Rightarrow> string) \<Rightarrow> string \<Rightarrow> alert list res" where
  "replay_alerts metrics finance =
     bind_res (from_series burn_rate (metrics ''api_requests.csv'')) (\<lambda>burn.
     bind_res (from_series db_saturated (metrics ''pg_connections.csv'')) (\<lambda>saturated.
     bind_res (from_series restart_storm (metrics ''pod_restarts.csv'')) (\<lambda>storm.
     bind_res (from_series payouts_delayed (metrics ''queue_depth.csv'')) (\<lambda>delayed.
     bind_res (duplicate_payout_in finance) (\<lambda>dup.
     Inr [(''SettleAPIErrorBudgetBurn'', burn, ''5m and 1h bad ratio > 7.2 % (14.4x burn), for 2m''),
          (''SettleDatabaseSaturated'', saturated, ''connections / max_connections > 0.85, for 2m''),
          (''SettleRestartStorm'', storm, ''increase(restarts[10m]) > 3''),
          (''SettlePayoutsDelayed'', delayed, ''oldest queued payout > 10 min, for 5m''),
          (''SettleDuplicatePayout'', Some dup, ''bank ledger shows a duplicate (first at '' @ hh_mm_ss (dup - 90)
             @ ''), reconciliation every 60 s'')])))))"

definition found_later :: "string \<Rightarrow> real \<Rightarrow> string" where
  "found_later name t =
     (if name = ''SettleDuplicatePayout''
      then '' (finance found it '' @ fixed 1 ((real_of_int FINANCE - t) / 3600) @ '' h later)'' else [])"

definition alert_line :: "alert \<Rightarrow> string" where
  "alert_line a =
     (case a of (name, t, rule) \<Rightarrow>
        (case (t, lead_minutes t) of
           (Some t, Some (lead, lead_c)) \<Rightarrow>
             ''| '' @ name @ '' | '' @ rule @ '' | '' @ hh_mm t @ '' | '' @ fixed 0 lead @ '' min earlier''
               @ found_later name t @ '' | '' @ fixed 0 lead_c @ '' min earlier |''
         | _ \<Rightarrow> ''| '' @ name @ '' | '' @ rule @ '' | would not fire | n/a | n/a |''))"

definition replay_table :: "alert list \<Rightarrow> string list" where
  "replay_table as =
     [''| Alert | Rule (as replayed) | Would fire | vs detection 14:24 | vs first customer report 14:19 |'',
      ''|---|---|---|---|---|''] @ map alert_line as"

subsection \<open>Reading back a time\<close>

lemma number_at_padded:
  "length a = i \<Longrightarrow> 0 \<le> n \<Longrightarrow> n < 10 ^ k \<Longrightarrow> 0 < k \<Longrightarrow> number_at (a @ padded k n @ b) i k = Some n"
  by (simp add: number_at_def length_padded padded_all_digits value_from_padded)

lemma fraction_ms: "0 \<le> n \<Longrightarrow> n < 1000 \<Longrightarrow> fraction (''.'' @ padded 3 n) = Some (1000 * n)"
  using length_padded [of n 3] by (simp add: fraction_def padded_all_digits value_from_padded)

lemma from_iso_stamp:
  assumes "0 \<le> h" "h < 24" "0 \<le> m" "m < 60" "0 \<le> s" "s < 60" and "fraction f = Some us"
  shows "from_iso (''2026-08-14'' @ [sep] @ padded 2 h @ '':'' @ padded 2 m @ '':'' @ padded 2 s @ f)
    = Inr ((h * 60 + m) * 60000000 + s * 1000000 + us)"
proof -
  let ?s = "''2026-08-14'' @ [sep] @ padded 2 h @ '':'' @ padded 2 m @ '':'' @ padded 2 s @ f"
  have len: "length (padded 2 h) = 2" "length (padded 2 m) = 2" "length (padded 2 s) = 2"
    using assms by (simp_all add: length_padded)
  have "number_at ?s 0 4 = Some 2026" "number_at ?s 5 2 = Some 8" "number_at ?s 8 2 = Some 14"
    by (simp_all add: number_at_def is_digit_def value_from_def)
  moreover have "number_at ?s 11 2 = Some h"
    using number_at_padded [of "''2026-08-14'' @ [sep]" 11 h 2] assms by simp
  moreover have "number_at ?s 14 2 = Some m"
    using number_at_padded [of "''2026-08-14'' @ [sep] @ padded 2 h @ '':''" 14 m 2] assms len by simp
  moreover have "number_at ?s 17 2 = Some s"
    using number_at_padded [of "''2026-08-14'' @ [sep] @ padded 2 h @ '':'' @ padded 2 m @ '':''" 17 s 2] assms len by simp
  moreover have "?s ! 4 = CHR ''-''" "?s ! 7 = CHR ''-''" by simp_all
  moreover have "?s ! 13 = CHR '':''" using len by (simp add: nth_append)
  moreover have "?s ! 16 = CHR '':''" using len by (simp add: nth_append)
  moreover have "drop 19 ?s = f" using len by simp
  moreover have "month_lengths 2026 ! nat (8 - 1) = 31" by (simp add: month_lengths_def)
  ultimately show ?thesis using assms by (simp add: from_iso_def)
qed

end
