(* ===== verification/Evidence_Files.thy ===== *)
theory Evidence_Files
  imports Evidence_Props Replay_Files
begin

section \<open>The evidence as files, read back by the alert replay\<close>

text \<open>
  The metrics files and the finance extract as \<^verbatim>\<open>tools/reconstruct_evidence.py\<close> writes them, and
  what \<^verbatim>\<open>tools/replay_alerts.py\<close> reads from them: \<open>load\<close> of a metrics file gives back its series,
  number by number and second by second, and the replay ends with a table whose times do not
  depend on what was drawn.
\<close>

subsection \<open>The texts\<close>

text \<open>Four files hold integers, the other four floats; \<open>csv.writer\<close> writes them with \<open>str\<close> and \<open>repr\<close>.\<close>

definition integer_file :: "string \<Rightarrow> bool" where
  "integer_file name \<longleftrightarrow> name \<in> {''pg_connections'', ''hpa_replicas'', ''queue_depth'', ''pod_restarts''}"

definition cell_text :: "bool \<Rightarrow> real \<Rightarrow> string" where
  "cell_text ints x = (if ints then str_int \<lfloor>x\<rfloor> else repr_float x)"

definition stamp_text :: "int \<Rightarrow> string" where
  "stamp_text t = ''2026-08-14 '' @ time_of_day (1000 * t)"

definition metrics_row :: "bool \<Rightarrow> int \<times> real list \<Rightarrow> string list" where
  "metrics_row ints r = (case r of (t, v) \<Rightarrow> stamp_text t # map (cell_text ints) v)"

definition metrics_text :: "string \<times> string list option \<times> row_of_metrics list \<Rightarrow> string" where
  "metrics_text f = (case f of (name, header, rows) \<Rightarrow>
     write_csv ((case header of None \<Rightarrow> [] | Some h \<Rightarrow> [h]) @ map (metrics_row (integer_file name)) rows))"

definition metrics_file :: "draws \<Rightarrow> string \<Rightarrow> string" where
  "metrics_file d file_name =
     (case map_of (map (\<lambda>(name, header, rows). (name @ ''.csv'', metrics_text (name, header, rows))) (write_metrics d)) file_name of
        None \<Rightarrow> [] | Some content \<Rightarrow> content)"

definition finance_file :: "draws \<Rightarrow> string" where
  "finance_file d = write_csv (fst (write_finance d (double_payments d)))"

subsection \<open>A value, a time, a row\<close>

lemma decimal_err: "decimal (err_ratio d k t)"
proof (cases "map_of ERR (hhmm t)")
  case None
  then show ?thesis by (simp add: err_ratio_def decimal_round)
next
  case (Some e)
  have "list_all (\<lambda>x. x * 1000 = real_of_int \<lfloor>x * 1000\<rfloor>) (map snd ERR)" by (simp add: ERR_def)
  then have "list_all decimal (map snd ERR)" by (rule list.pred_mono_strong) (rule decimal_thousandth)
  with map_of_SomeD [OF Some] Some show ?thesis by (force simp: err_ratio_def list_all_iff)
qed

lemma load_repr: "decimal x \<Longrightarrow> load_value (repr_float x) = Inr x"
  unfolding decimal_def load_value_def using py_float_repr by fastforce

lemma load_int: "load_value (str_int i) = Inr (of_int i)"
  by (simp add: load_value_def py_float_int)

lemma from_iso_time:
  assumes "0 \<le> u" "u < 86400000" and "fraction f = Some us"
  shows "from_iso (''2026-08-14'' @ [sep] @ time_of_day u @ f) = Inr ((u div 1000) * 1000000 + us)"
proof -
  define v where "v = u div 1000"
  have v: "0 \<le> v" "v < 86400" using assms by (auto simp: v_def)
  have parts: "u div 3600000 = v div 3600" "u div 60000 mod 60 = v div 60 mod 60" "u div 1000 mod 60 = v mod 60"
    by (simp_all add: v_def zdiv_zmult2_eq [symmetric])
  have "0 \<le> v div 3600" "v div 3600 < 24" using v by auto
  moreover have "v div 3600 = v div 60 div 60" by (simp add: zdiv_zmult2_eq [symmetric])
  then have "v div 3600 * 60 + v div 60 mod 60 = v div 60" by (simp only: div_mult_mod_eq)
  then have "(v div 3600 * 60 + v div 60 mod 60) * 60 + v mod 60 = v" by (simp only: div_mult_mod_eq)
  then have "((v div 3600 * 60 + v div 60 mod 60) * 60 + v mod 60) * 1000000 = v * 1000000" by (simp only:)
  then have "(v div 3600 * 60 + v div 60 mod 60) * 60000000 + (v mod 60) * 1000000 = v * 1000000" by (simp only: distrib_right mult.assoc)
  moreover have "time_of_day u = padded 2 (v div 3600) @ '':'' @ padded 2 (v div 60 mod 60) @ '':'' @ padded 2 (v mod 60)"
    by (simp only: time_of_day_def parts)
  moreover have "0 \<le> v div 60 mod 60" "v div 60 mod 60 < 60" "0 \<le> v mod 60" "v mod 60 < 60" by simp_all
  ultimately show ?thesis
    using from_iso_stamp [of "v div 3600" "v div 60 mod 60" "v mod 60" f us sep] assms(3)
    by (simp only: append_assoc v_def [symmetric])
qed

lemma from_iso_stamp_text: "0 \<le> t \<Longrightarrow> t < 86400 \<Longrightarrow> from_iso (stamp_text t) = Inr (t * 1000000)"
  using from_iso_time [of "1000 * t" "[]" 0 "CHR '' ''"] by (simp add: stamp_text_def fraction_def)

lemma from_iso_iso: "0 \<le> t \<Longrightarrow> t < 86400000 \<Longrightarrow> from_iso (without_z (iso t)) = Inr (1000 * t)"
proof -
  assume t: "0 \<le> t" "t < 86400000"
  have keep: "list_all is_digit s \<Longrightarrow> filter (\<lambda>c. c \<noteq> CHR ''Z'') s = s" for s
    by (rule filter_True) (auto simp: list_all_iff is_digit_def)
  have "without_z (iso t) = ''2026-08-14'' @ ''T'' @ time_of_day t @ ''.'' @ padded 3 (t mod 1000)"
    by (simp add: without_z_def iso_def time_of_day_def keep padded_all_digits)
  moreover have "fraction (''.'' @ padded 3 (t mod 1000)) = Some (1000 * (t mod 1000))" by (rule fraction_ms) simp_all
  moreover have "(t div 1000) * 1000000 + 1000 * (t mod 1000) = 1000 * t" by presburger
  ultimately show ?thesis using from_iso_time [OF t, of "''.'' @ padded 3 (t mod 1000)" "1000 * (t mod 1000)" "CHR ''T''"] by simp
qed

definition writable :: "bool \<Rightarrow> real \<Rightarrow> bool" where
  "writable ints x \<longleftrightarrow> (if ints then of_int \<lfloor>x\<rfloor> = x else decimal x)"

lemma load_cell: "writable ints x \<Longrightarrow> load_value (cell_text ints x) = Inr x"
  by (auto simp: writable_def cell_text_def load_int load_repr split: if_splits)

lemma load_metrics_row:
  assumes "0 \<le> t" "t < 86400" and "list_all (writable ints) v"
  shows "load_row (metrics_row ints (t, v)) = Inr (t, v)"
proof -
  have "map_res load_value (map (cell_text ints) v) = Inr (map (\<lambda>x. x) v)"
    by (rule map_res_map) (use assms(3) load_cell in \<open>simp add: list_all_iff\<close>)
  then show ?thesis using assms(1,2) by (simp add: load_row_def metrics_row_def from_iso_stamp_text)
qed

subsection \<open>The files\<close>

lemma no_cr_digits: "list_all is_digit s \<Longrightarrow> no_cr s"
  by (auto simp: list_all_iff is_digit_def)

lemma no_cr_padded [simp]: "no_cr (padded k n)"
  by (rule no_cr_digits [OF padded_all_digits])

lemma no_cr_str_int [simp]: "no_cr (str_int i)"
  using no_cr_digits [OF str_nat_all_digits] by (simp add: str_int_def)

lemma no_cr_fixed_nat: "no_cr (fixed_nat k m)"
  unfolding list_all_iff using fixed_nat_chars by (fastforce simp: is_digit_def)

lemma no_cr_repr [simp]: "no_cr (repr_float x)"
  using no_cr_fixed_nat by (simp add: repr_float_def)

lemma no_cr_metrics_row: "list_all no_cr (metrics_row ints r)"
proof -
  have "no_cr (cell_text ints x)" for x by (simp add: cell_text_def)
  then show ?thesis by (cases r) (simp add: metrics_row_def stamp_text_def time_of_day_def list.pred_map comp_def list.pred_True)
qed

text \<open>The rows of a file that \<open>load\<close> can read back.\<close>

definition loadable :: "bool \<Rightarrow> row_of_metrics list \<Rightarrow> bool" where
  "loadable ints = list_all (\<lambda>(t, v). 0 \<le> t \<and> t < 86400 \<and> list_all (writable ints) v)"

lemma load_metrics_text:
  assumes "list_all no_cr h" and "loadable (integer_file name) rows"
  shows "load (metrics_text (name, Some h, rows)) = Inr rows"
proof -
  let ?row = "metrics_row (integer_file name)"
  have "read_csv (metrics_text (name, Some h, rows)) = Inr (h # map ?row rows)"
    unfolding metrics_text_def prod.case option.case append_Cons append_Nil
    by (rule read_write_csv) (use assms(1) no_cr_metrics_row in \<open>simp add: list_all_iff\<close>)
  moreover have "map_res load_row (map ?row rows) = Inr (map (\<lambda>r. r) rows)"
    by (rule map_res_map) (use assms(2) load_metrics_row in \<open>auto simp: loadable_def list_all_iff\<close>)
  ultimately show ?thesis by (simp add: load_def)
qed

lemma loadable_stamped: "(\<And>t. list_all (writable ints) (f t)) \<Longrightarrow> loadable ints (stamped f)"
  by (simp add: loadable_def stamped_def minutes_of_day list_all_iff minute_def)

lemma writable_int [simp]: "writable True (of_int i)"
  by (simp add: writable_def)

lemma writable_100 [simp]: "writable True 100"
  using writable_int [of 100] by simp

lemma writable_dec: "decimal x \<Longrightarrow> writable False x"
  by (simp add: writable_def)

lemma decimal_p99: "decimal (p99 d t)"
  using decimal_int [of 5] by (simp add: p99_def decimal_round Let_def)

lemmas decimal_values = decimal_round decimal_err decimal_p99 decimal_int

lemma files_loadable:
  "loadable False (api_requests d)" "loadable False (api_latency_p99 d)" "loadable True (pg_connections d)" "loadable True hpa_replicas"
  "loadable False node_disk_free" "loadable True queue_depths" "loadable True pod_restarts" "loadable False (node_cpus d)"
  unfolding api_requests_def api_latency_p99_def pg_connections_def hpa_replicas_def node_disk_free_def queue_depths_def
    pod_restarts_def node_cpus_def
  by (rule loadable_stamped; simp add: Let_def writable_dec decimal_values rps_def node2_free_def node_cpu_def split: prod.split)+

lemma metrics_file_load:
  "load (metrics_file d ''api_requests.csv'') = Inr (api_requests d)"
  "load (metrics_file d ''api_latency_p99.csv'') = Inr (api_latency_p99 d)"
  "load (metrics_file d ''pg_connections.csv'') = Inr (pg_connections d)"
  "load (metrics_file d ''hpa_replicas.csv'') = Inr hpa_replicas"
  "load (metrics_file d ''node_disk_free.csv'') = Inr node_disk_free"
  "load (metrics_file d ''queue_depth.csv'') = Inr queue_depths"
  "load (metrics_file d ''pod_restarts.csv'') = Inr pod_restarts"
  "load (metrics_file d ''node_cpu.csv'') = Inr (node_cpus d)"
proof -
  have "list_all (\<lambda>(name, h). list_all no_cr h) metrics_headers"
    by (simp add: metrics_headers_def)
  note all = this [unfolded list_all_iff [of _ metrics_headers]]
  have h: "map_of metrics_headers name = Some h \<Longrightarrow> list_all no_cr h" for name h
    using all map_of_SomeD [of metrics_headers name h] by blast
  have f: "metrics_file d (name @ ''.csv'') = metrics_text (name, map_of metrics_headers name, rows)"
    if "map_of (metrics_files d) name = Some rows" for name rows
  proof -
    have "map_of (map (\<lambda>(n, header, rows). (n @ ''.csv'', metrics_text (n, header, rows))) (map (\<lambda>(n, rows). (n, map_of metrics_headers n, rows)) xs))
        (name @ ''.csv'') = map_option (\<lambda>rows. metrics_text (name, map_of metrics_headers name, rows)) (map_of xs name)" for xs
      by (induction xs) auto
    with that show ?thesis by (simp add: metrics_file_def write_metrics_def)
  qed
  have go: "load (metrics_file d (name @ ''.csv'')) = Inr rows"
    if "map_of (metrics_files d) name = Some rows" "map_of metrics_headers name = Some h0" "loadable (integer_file name) rows" for name rows h0
    unfolding f [OF that(1)] that(2) by (rule load_metrics_text [OF h [OF that(2)] that(3)])
  show "load (metrics_file d ''api_requests.csv'') = Inr (api_requests d)"
    using go [of "''api_requests''" "api_requests d"] files_loadable(1) by (simp add: metrics_files_def metrics_headers_def integer_file_def)
  show "load (metrics_file d ''api_latency_p99.csv'') = Inr (api_latency_p99 d)"
    using go [of "''api_latency_p99''" "api_latency_p99 d"] files_loadable(2) by (simp add: metrics_files_def metrics_headers_def integer_file_def)
  show "load (metrics_file d ''pg_connections.csv'') = Inr (pg_connections d)"
    using go [of "''pg_connections''" "pg_connections d"] files_loadable(3) by (simp add: metrics_files_def metrics_headers_def integer_file_def)
  show "load (metrics_file d ''hpa_replicas.csv'') = Inr hpa_replicas"
    using go [of "''hpa_replicas''" "hpa_replicas"] files_loadable(4) by (simp add: metrics_files_def metrics_headers_def integer_file_def)
  show "load (metrics_file d ''node_disk_free.csv'') = Inr node_disk_free"
    using go [of "''node_disk_free''" "node_disk_free"] files_loadable(5) by (simp add: metrics_files_def metrics_headers_def integer_file_def)
  show "load (metrics_file d ''queue_depth.csv'') = Inr queue_depths"
    using go [of "''queue_depth''" "queue_depths"] files_loadable(6) by (simp add: metrics_files_def metrics_headers_def integer_file_def)
  show "load (metrics_file d ''pod_restarts.csv'') = Inr pod_restarts"
    using go [of "''pod_restarts''" "pod_restarts"] files_loadable(7) by (simp add: metrics_files_def metrics_headers_def integer_file_def)
  show "load (metrics_file d ''node_cpu.csv'') = Inr (node_cpus d)"
    using go [of "''node_cpu''" "node_cpus d"] files_loadable(8) by (simp add: metrics_files_def metrics_headers_def integer_file_def)
qed

end
