(* ===== verification/Burn_Rate.thy ===== *)
theory Burn_Rate
  imports Evidence_Props
begin

section \<open>The burn-rate alert on the generated evidence\<close>

text \<open>
  The one alert whose series is drawn at random. The request rate and the error rate of each minute
  lie between bounds that do not depend on the draws; summed over the windows of the rule, the
  bounds decide the rule in every minute that matters but one. Bounds are in units of 1/10000.
\<close>

lemma round_near: "\<bar>py_round x 1 - x\<bar> \<le> 1 / 20"
proof -
  define f where "f = \<lfloor>x * 10\<rfloor>"
  define r where "r = x * 10 - of_int f"
  have r: "0 \<le> r" "r < 1" by (simp_all add: r_def f_def) linarith
  have "real_of_int (py_round_int (x * 10)) = of_int f + (if r < 1 / 2 then 0 else if r > 1 / 2 then 1 else if even f then 0 else 1)"
    by (simp add: py_round_int_def Let_def f_def r_def)
  moreover have "x * 10 = of_int f + r" by (simp add: r_def)
  ultimately have "\<bar>of_int (py_round_int (x * 10)) - x * 10\<bar> \<le> 1 / 2" using r by (auto split: if_splits)
  then show ?thesis by (simp add: py_round_def abs_le_iff field_simps)
qed

lemma round_low:
  assumes "of_int m \<le> x * 10 ^ k"
  shows "of_int m / 10 ^ k \<le> py_round x k"
proof -
  have "m \<le> \<lfloor>x * 10 ^ k\<rfloor>" using assms by (simp add: le_floor_iff)
  then have "m \<le> py_round_int (x * 10 ^ k)" by (auto simp: py_round_int_def Let_def)
  then show ?thesis by (simp add: py_round_def divide_right_mono)
qed

text \<open>Bounds of minute \<open>j\<close>; a negative \<open>j\<close> stands for the mean of the first thirty minutes.\<close>

definition t_lo :: "int \<Rightarrow> int" where
  "t_lo j = (if j = 30 then 751500 else if 33 \<le> j \<and> j \<le> 80 then 472000 else 349500)"

definition t_hi :: "int \<Rightarrow> int" where
  "t_hi j = (if j = 30 then 812500 else if 33 \<le> j \<and> j \<le> 80 then 554000 else 410500)"

definition e_known :: "int list" where
  "e_known = [12, 38, 61, 72, 78, 81, 79, 41]"

definition b_lo :: "int \<Rightarrow> int" where
  "b_lo j = (if 33 \<le> j \<and> j \<le> 40 then e_known ! nat (j - 33) * 4720 - 500 else if j = 41 then 159980 else -500)"

definition b_hi :: "int \<Rightarrow> int" where
  "b_hi j = (if 33 \<le> j \<and> j \<le> 40 then e_known ! nat (j - 33) * 5540 + 500 else if j = 30 then 2980 else 1760)"

lemma hhmm_minute:
  assumes "i < 90"
  shows "hhmm (minute i) = (if i < 30 then (13, 30 + int i) else (14, int i - 30))"
proof -
  have "list_all (\<lambda>i. hhmm (minute i) = (if i < 30 then (13, 30 + int i) else (14, int i - 30))) [0..<90]" by code_simp
  with assms show ?thesis by (simp add: list_all_iff)
qed

lemma rps_bounds:
  assumes "fair d" and "i < 90"
  shows "of_int (t_lo (int i)) / 10000 \<le> rps d (minute i) \<and> rps d (minute i) \<le> of_int (t_hi (int i)) / 10000"
proof -
  let ?u = "uniform d (''rps'', minute i) 0 1"
  have u: "0 \<le> ?u" "?u \<le> 1" using fair_uniform [OF assms(1), of 0 1] by simp_all
  let ?x = "(35 + 6 * ?u + (if i = 30 then 40.2 else 0)) * (if 33 \<le> i \<and> i \<le> 80 then 1.35 else 1)"
  have h30: "hhmm (minute i) = (14, 0) \<longleftrightarrow> i = 30"
    using assms(2) by (auto simp: hhmm_minute)
  have b33: "between (minute i) (T_ms 14 3 0 0) (T_ms 14 51 0 0) \<longleftrightarrow> 33 \<le> i \<and> i \<le> 80"
    by (auto simp: between_def minute_def T_ms_def)
  define y where "y = ?x"
  have "rps d (minute i) = py_round y 1" by (simp add: y_def rps_def h30 b33 BATCH_SIZE_def Let_def)
  moreover have "of_int (t_lo (int i)) / 10000 + 1 / 20 \<le> y" "y \<le> of_int (t_hi (int i)) / 10000 - 1 / 20"
    using u by (auto simp: y_def t_lo_def t_hi_def)
  ultimately show ?thesis using round_near [of y, unfolded abs_le_iff] by simp
qed

lemma err_minute:
  assumes "fair d" and "i \<le> 41"
  shows "0 \<le> err_ratio d k (minute i)"
    and "i < 33 \<Longrightarrow> err_ratio d k (minute i) \<le> 0.00305"
    and "33 \<le> i \<Longrightarrow> i \<le> 40 \<Longrightarrow> err_ratio d k (minute i) = of_int (e_known ! (i - 33)) / 100"
    and "i = 41 \<Longrightarrow> 0.34 \<le> err_ratio d k (minute i)"
proof -
  have known: "err_ratio d k (minute i) = of_int (e_known ! (i - 33)) / 100" if "33 \<le> i" "i \<le> 40"
  proof -
    from that consider "i = 33" | "i = 34" | "i = 35" | "i = 36" | "i = 37" | "i = 38" | "i = 39" | "i = 40" by linarith
    then show ?thesis
      by cases (simp_all add: err_ratio_def hhmm_minute ERR_def e_known_def)
  qed
  then show "33 \<le> i \<Longrightarrow> i \<le> 40 \<Longrightarrow> err_ratio d k (minute i) = of_int (e_known ! (i - 33)) / 100" .
  let ?u = "uniform d (k, minute i) 0.001 0.003"
  have u: "0.001 \<le> ?u" "?u \<le> 0.003" using fair_uniform [OF assms(1), of "0.001" "0.003" "(k, minute i)"] by simp_all
  have early: "err_ratio d k (minute i) = py_round ?u 4" if "i < 33"
  proof -
    have "map_of ERR (hhmm (minute i)) = None"
      using that by (auto simp: map_of_eq_None_iff hhmm_minute ERR_def split: if_splits)
    then show ?thesis using that by (simp add: err_ratio_def between_def minute_def T_ms_def)
  qed
  have last: "0.34 \<le> err_ratio d k (minute 41)"
  proof -
    have "map_of ERR (hhmm (minute 41)) = None" by (simp add: hhmm_minute ERR_def)
    then have "err_ratio d k (minute 41) = py_round (uniform d (k, minute 41) 0.34 0.41) 3"
      by (simp add: err_ratio_def between_def minute_def T_ms_def)
    moreover have "0.34 \<le> uniform d (k, minute 41) 0.34 0.41"
      using fair_uniform [OF assms(1), of "0.34" "0.41" "(k, minute 41)"] by simp
    ultimately show ?thesis using round_low [of 340 "uniform d (k, minute 41) 0.34 0.41" 3] by simp
  qed
  then show "i = 41 \<Longrightarrow> 0.34 \<le> err_ratio d k (minute i)" by simp
  show "0 \<le> err_ratio d k (minute i)"
  proof -
    consider "i < 33" | "33 \<le> i \<and> i \<le> 40" | "i = 41" using assms(2) by linarith
    then show ?thesis
    proof cases
      case 1
      then show ?thesis using round_low [of 0 ?u 4] u by (simp add: early)
    next
      case 2
      have "list_all (\<lambda>e. 0 \<le> e) e_known" by (simp add: e_known_def)
      moreover have "i - 33 < length e_known" using 2 by (auto simp: e_known_def)
      ultimately have "0 \<le> e_known ! (i - 33)" by (simp add: list_all_length)
      with 2 show ?thesis by (simp add: known)
    next
      case 3
      then show ?thesis using last by simp
    qed
  qed
  show "i < 33 \<Longrightarrow> err_ratio d k (minute i) \<le> 0.00305"
  proof -
    assume "i < 33"
    have "?u * 10000 \<le> 30" using u by simp
    then have "py_round_int (?u * 10000) \<le> 30"
      using round_int_high [of "?u * 10000" 30] by simp
    then show ?thesis using early [OF \<open>i < 33\<close>] by (simp add: py_round_def)
  qed
qed

lemma bad_bounds:
  assumes "fair d" and "i \<le> 41"
  shows "of_int (b_lo (int i)) / 10000 \<le> py_round (rps d (minute i) * err_ratio d k (minute i)) 1"
    and "i \<le> 40 \<Longrightarrow> py_round (rps d (minute i) * err_ratio d k (minute i)) 1 \<le> of_int (b_hi (int i)) / 10000"
proof -
  let ?r = "rps d (minute i)" and ?e = "err_ratio d k (minute i)"
  have r: "of_int (t_lo (int i)) / 10000 \<le> ?r" "?r \<le> of_int (t_hi (int i)) / 10000" "0 \<le> ?r"
    using rps_bounds [OF assms(1), of i] assms(2) by (auto simp: t_lo_def split: if_splits)
  have e0: "0 \<le> ?e" using err_minute(1) [OF assms(1)] assms(2) by simp
  note near = round_near [of "?r * ?e", unfolded abs_le_iff]
  let ?bad = "py_round (?r * ?e) 1"
  have "of_int (b_lo (int i)) / 10000 \<le> ?bad \<and> (i \<le> 40 \<longrightarrow> ?bad \<le> of_int (b_hi (int i)) / 10000)"
  proof -
    consider (quiet) "i < 33" | (known) "33 \<le> i \<and> i \<le> 40" | (last) "i = 41" using assms(2) by linarith
    then show ?thesis
    proof cases
      case quiet
      then have e: "?e \<le> 0.00305" using err_minute(2) [OF assms(1)] assms(2) by simp
      have "0 \<le> ?r * ?e" using r(3) e0 by simp
      moreover have "?r * ?e \<le> of_int (t_hi (int i)) / 10000 * 0.00305"
        by (rule mult_mono) (use r e e0 in auto)
      ultimately show ?thesis using near quiet by (auto simp: b_lo_def b_hi_def t_hi_def split: if_splits)
    next
      case known
      then have e: "?e = of_int (e_known ! (i - 33)) / 100" using err_minute(3) [OF assms(1)] assms(2) by simp
      have "of_int (t_lo (int i)) / 10000 * ?e \<le> ?r * ?e" "?r * ?e \<le> of_int (t_hi (int i)) / 10000 * ?e"
        using r e0 by (intro mult_right_mono; simp)+
      then have "47.2 * ?e \<le> ?r * ?e" "?r * ?e \<le> 55.4 * ?e" using known by (simp_all add: t_lo_def t_hi_def)
      moreover have "of_int (b_lo (int i)) / 10000 = 47.2 * ?e - 0.05" "of_int (b_hi (int i)) / 10000 = 55.4 * ?e + 0.05"
        using known by (simp_all add: e b_lo_def b_hi_def nat_diff_distrib field_simps)
      ultimately show ?thesis using near by simp
    next
      case last
      have "47.2 * 0.34 \<le> ?r * ?e"
        by (rule mult_mono) (use r(1) err_minute(4) [OF assms] last in \<open>auto simp: t_lo_def\<close>)
      then show ?thesis using near last by (simp add: b_lo_def)
    qed
  qed
  then show "of_int (b_lo (int i)) / 10000 \<le> ?bad" "i \<le> 40 \<Longrightarrow> ?bad \<le> of_int (b_hi (int i)) / 10000" by simp_all
qed

subsection \<open>Sums over a window\<close>

lemma column_nth:
  assumes "j < 90"
  shows "column 0 (api_requests d) ! j = rps d (minute j)"
    and "column 2 (api_requests d) ! j = py_round (rps d (minute j) * err_ratio d ''err'' (minute j)) 1"
  using assms by (simp_all add: column_def api_requests_def stamped_nth Let_def)

lemma column_length: "length (column k (api_requests d)) = 90"
  by (simp add: column_def api_requests_def)

lemma scaled_sum: "of_int (sum_list (map f js)) / 10000 = (\<Sum>j\<leftarrow>js. of_int (f j) / 10000 :: real)"
  by (induction js) (simp_all add: add_divide_distrib)

lemma window_low:
  assumes "\<And>j. j \<le> i \<Longrightarrow> of_int (lo (int j)) / 10000 \<le> xs ! j" and "\<And>j. j < 0 \<Longrightarrow> of_int (lo j) / 10000 \<le> base"
  shows "of_int (sum_list (map lo [int i - int w + 1..int i])) / 10000 \<le> window_sum xs base i w"
  unfolding window_sum_def scaled_sum
proof (rule sum_list_mono)
  fix j assume "j \<in> set [int i - int w + 1..int i]"
  then show "of_int (lo j) / 10000 \<le> (if 0 \<le> j then xs ! nat j else base)"
    using assms(1) [of "nat j"] assms(2) [of j] by auto
qed

lemma window_high:
  assumes "\<And>j. j \<le> i \<Longrightarrow> xs ! j \<le> of_int (hi (int j)) / 10000" and "\<And>j. j < 0 \<Longrightarrow> base \<le> of_int (hi j) / 10000"
  shows "window_sum xs base i w \<le> of_int (sum_list (map hi [int i - int w + 1..int i])) / 10000"
  unfolding window_sum_def scaled_sum
proof (rule sum_list_mono)
  fix j assume "j \<in> set [int i - int w + 1..int i]"
  then show "(if 0 \<le> j then xs ! nat j else base) \<le> of_int (hi j) / 10000"
    using assms(1) [of "nat j"] assms(2) [of j] by auto
qed

lemma mean_between:
  fixes xs :: "real list"
  assumes "30 \<le> length xs" and "\<And>i. i < 30 \<Longrightarrow> a \<le> xs ! i \<and> xs ! i \<le> b"
  shows "a \<le> sum_list (take 30 xs) / 30 \<and> sum_list (take 30 xs) / 30 \<le> b"
proof -
  have t: "take 30 xs = map (\<lambda>i. xs ! i) [0..<30]" using assms(1) by (intro nth_equalityI) simp_all
  have "(\<Sum>i\<leftarrow>[0..<30]. a) \<le> (\<Sum>i\<leftarrow>[0..<30]. xs ! i)" "(\<Sum>i\<leftarrow>[0..<30]. xs ! i) \<le> (\<Sum>i\<leftarrow>[0..<30::nat]. b)"
    by (intro sum_list_mono; use assms(2) in simp)+
  then show ?thesis unfolding t by (simp add: sum_list_triv)
qed

subsection \<open>The rule on the evidence\<close>

definition burns :: "draws \<Rightarrow> nat \<Rightarrow> nat \<Rightarrow> bool" where
  "burns d w i \<longleftrightarrow>
     BURN_THRESHOLD * window_sum (column 0 (api_requests d)) (sum_list (take 30 (column 0 (api_requests d))) / 30) i w
       < window_sum (column 2 (api_requests d)) (sum_list (take 30 (column 2 (api_requests d))) / 30) i w"

lemma total_bounds:
  assumes "fair d" and "i < 90"
  shows "of_int (sum_list (map t_lo [int i - int w + 1..int i])) / 10000
      \<le> window_sum (column 0 (api_requests d)) (sum_list (take 30 (column 0 (api_requests d))) / 30) i w"
    and "window_sum (column 0 (api_requests d)) (sum_list (take 30 (column 0 (api_requests d))) / 30) i w
      \<le> of_int (sum_list (map t_hi [int i - int w + 1..int i])) / 10000"
proof -
  have b: "of_int (t_lo (int j)) / 10000 \<le> column 0 (api_requests d) ! j \<and> column 0 (api_requests d) ! j \<le> of_int (t_hi (int j)) / 10000"
    if "j < 90" for j using rps_bounds [OF assms(1) that] by (simp add: column_nth(1) [OF that])
  have "34.95 \<le> column 0 (api_requests d) ! j \<and> column 0 (api_requests d) ! j \<le> 41.05" if "j < 30" for j
    using b [of j] that by (simp add: t_lo_def t_hi_def)
  from mean_between [OF _ this] have m: "34.95 \<le> sum_list (take 30 (column 0 (api_requests d))) / 30"
      "sum_list (take 30 (column 0 (api_requests d))) / 30 \<le> 41.05" by (simp_all add: column_length)
  show "of_int (sum_list (map t_lo [int i - int w + 1..int i])) / 10000
      \<le> window_sum (column 0 (api_requests d)) (sum_list (take 30 (column 0 (api_requests d))) / 30) i w"
    by (rule window_low) (use b m assms(2) in \<open>auto simp: t_lo_def\<close>)
  show "window_sum (column 0 (api_requests d)) (sum_list (take 30 (column 0 (api_requests d))) / 30) i w
      \<le> of_int (sum_list (map t_hi [int i - int w + 1..int i])) / 10000"
    by (rule window_high) (use b m assms(2) in \<open>auto simp: t_hi_def\<close>)
qed

lemma failed_bounds:
  assumes "fair d" and "i \<le> 41"
  shows "of_int (sum_list (map b_lo [int i - int w + 1..int i])) / 10000
      \<le> window_sum (column 2 (api_requests d)) (sum_list (take 30 (column 2 (api_requests d))) / 30) i w"
    and "i \<le> 40 \<Longrightarrow> window_sum (column 2 (api_requests d)) (sum_list (take 30 (column 2 (api_requests d))) / 30) i w
      \<le> of_int (sum_list (map b_hi [int i - int w + 1..int i])) / 10000"
proof -
  note c = column_nth(2)
  have lo: "of_int (b_lo (int j)) / 10000 \<le> column 2 (api_requests d) ! j" if "j \<le> 41" for j
    using bad_bounds(1) [OF assms(1) that, of "''err''"] that by (simp add: c)
  have hi: "column 2 (api_requests d) ! j \<le> of_int (b_hi (int j)) / 10000" if "j \<le> 40" for j
    using bad_bounds(2) [OF assms(1), of j "''err''"] that by (simp add: c)
  have "-0.05 \<le> column 2 (api_requests d) ! j \<and> column 2 (api_requests d) ! j \<le> 0.176" if "j < 30" for j
    using lo [of j] hi [of j] that by (simp add: b_lo_def b_hi_def)
  from mean_between [OF _ this] have m: "-0.05 \<le> sum_list (take 30 (column 2 (api_requests d))) / 30"
      "sum_list (take 30 (column 2 (api_requests d))) / 30 \<le> 0.176" by (simp_all add: column_length)
  show "of_int (sum_list (map b_lo [int i - int w + 1..int i])) / 10000
      \<le> window_sum (column 2 (api_requests d)) (sum_list (take 30 (column 2 (api_requests d))) / 30) i w"
    by (rule window_low) (use lo m assms(2) in \<open>auto simp: b_lo_def\<close>)
  show "window_sum (column 2 (api_requests d)) (sum_list (take 30 (column 2 (api_requests d))) / 30) i w
      \<le> of_int (sum_list (map b_hi [int i - int w + 1..int i])) / 10000" if "i \<le> 40"
    by (rule window_high) (use hi m that in \<open>auto simp: b_hi_def\<close>)
qed

text \<open>The bounds decide the rule: it does not hold up to 14:07, it holds at 14:09, 14:10 and 14:11.\<close>

lemma bounds_decide:
  "list_all (\<lambda>i. 1000 * sum_list (map b_hi [i - 59..i]) \<le> 72 * sum_list (map t_lo [i - 59..i])) [0..37]"
  "list_all (\<lambda>(i, w). 72 * sum_list (map t_hi [i - w + 1..i]) < 1000 * sum_list (map b_lo [i - w + 1..i]))
     [(39, 60), (39, 5), (40, 60), (40, 5), (41, 60), (41, 5)]"
  by code_simp+

lemma total_positive:
  assumes "fair d" and "i < 90" and "0 < w"
  shows "0 < window_sum (column 0 (api_requests d)) (sum_list (take 30 (column 0 (api_requests d))) / 30) i w"
proof -
  have "(\<Sum>j\<leftarrow>js. 0) \<le> sum_list (map t_lo js)" for js by (rule sum_list_mono) (simp add: t_lo_def)
  then have rest: "0 \<le> sum_list (map t_lo js)" for js by simp
  have "[int i - int w + 1..int i] = (int i - int w + 1) # [int i - int w + 2..int i]" using assms(3) by (simp add: upto_rec1 add.commute)
  moreover have "0 < t_lo (int i - int w + 1)" by (simp add: t_lo_def)
  ultimately have "0 < sum_list (map t_lo [int i - int w + 1..int i])" using rest [of "[int i - int w + 2..int i]"] by simp
  then have "0 < real_of_int (sum_list (map t_lo [int i - int w + 1..int i])) / 10000" by simp
  also note total_bounds(1) [OF assms(1,2)]
  finally show ?thesis .
qed

lemma burning_eq:
  assumes "fair d" and "i < 90"
  shows "burning (api_requests d) i = Inr (burns d 60 i \<and> burns d 5 i)"
proof -
  have "burn_ratio (api_requests d) i w = Inr r \<longrightarrow> (r > BURN_THRESHOLD \<longleftrightarrow> burns d w i)"
    and "\<exists>r. burn_ratio (api_requests d) i w = Inr r" if "0 < w" for w r
    using total_positive [OF assms that]
    by (auto simp: burn_ratio_def py_div_def burns_def Let_def pos_less_divide_eq)
  from this [of 60] this [of 5] show ?thesis by (auto simp: burning_def)
qed

lemma burns_early:
  assumes "fair d" and "i \<le> 37"
  shows "\<not> burns d 60 i"
proof -
  have "list_all (\<lambda>i. 1000 * sum_list (map b_hi [i - 59..i]) \<le> 72 * sum_list (map t_lo [i - 59..i])) [0..37]"
    by (rule bounds_decide(1))
  then have "1000 * sum_list (map b_hi [int i - 59..int i]) \<le> 72 * sum_list (map t_lo [int i - 59..int i])"
    using assms(2) by (simp add: list_all_iff)
  then have "(1000::real) * of_int (sum_list (map b_hi [int i - 59..int i])) \<le> 72 * of_int (sum_list (map t_lo [int i - 59..int i]))"
    by (simp only: of_int_le_iff [symmetric, where 'a = real] of_int_mult of_int_numeral)
  then show ?thesis
    using total_bounds(1) [OF assms(1), of i 60] failed_bounds(2) [OF assms(1), of i 60] assms(2)
    by (simp add: burns_def BURN_THRESHOLD_def)
qed

lemma burns_late:
  assumes "fair d" and "39 \<le> i" "i \<le> 41" and "w = 60 \<or> w = 5"
  shows "burns d w i"
proof -
  have "(int i, int w) \<in> set [(39, 60), (39, 5), (40, 60), (40, 5), (41, 60), (41, 5)]"
    using assms(2,3,4) by simp linarith
  with bounds_decide(2) have "72 * sum_list (map t_hi [int i - int w + 1..int i]) < 1000 * sum_list (map b_lo [int i - int w + 1..int i])"
    unfolding list_all_iff by fast
  then have "(72::real) * of_int (sum_list (map t_hi [int i - int w + 1..int i])) < 1000 * of_int (sum_list (map b_lo [int i - int w + 1..int i]))"
    by (simp only: of_int_less_iff [symmetric, where 'a = real] of_int_mult of_int_numeral)
  then show ?thesis
    using total_bounds(2) [OF assms(1), of i w] failed_bounds(1) [OF assms(1), of i w] assms(3)
    by (simp add: burns_def BURN_THRESHOLD_def)
qed

text \<open>What was drawn decides only whether the rule already held at 14:08.\<close>

lemma burn_rate_fires:
  assumes "fair d"
  shows "burn_rate (api_requests d) = Inr (Some (clock_time 14 (if burns d 60 38 \<and> burns d 5 38 then 10 else 11)))"
proof -
  let ?P = "\<lambda>i. burns d 60 i \<and> burns d 5 i"
  define m where "m = (if ?P 38 then 38 else 39 :: nat)"
  have "\<forall>j < m. \<not> ?P j"
  proof (intro allI impI)
    fix j assume "j < m"
    then show "\<not> ?P j" using burns_early [OF assms, of j] by (cases "j = 38") (auto simp: m_def split: if_splits)
  qed
  moreover have "\<forall>j. m \<le> j \<and> j \<le> m + 2 \<longrightarrow> ?P j"
  proof (intro allI impI)
    fix j assume j: "m \<le> j \<and> j \<le> m + 2"
    show "?P j"
    proof (cases "j = 38")
      case True
      with j show ?thesis by (auto simp: m_def split: if_splits)
    next
      case False
      then show ?thesis using j burns_late [OF assms, of j] by (auto simp: m_def split: if_splits)
    qed
  qed
  moreover have "m + 2 < 90" by (simp add: m_def)
  moreover have "api_requests d = stamped (\<lambda>t. snd (api_requests d ! nat ((t - minute 0) div 60000)))"
    by (rule nth_equalityI) (simp_all add: api_requests_def stamped_nth minute_def)
  ultimately have "burn_rate (api_requests d) = Inr (Some (clock_time 13 (30 + int (m + 2))))"
    unfolding burn_rate_def using stamped_fires [of "burning (api_requests d)" ?P m 2] burning_eq [OF assms] by metis
  then show ?thesis by (auto simp: m_def clock_time_def)
qed

end
