(* ===== verification/Replay_Evidence.thy ===== *)
theory Replay_Evidence
  imports Evidence_Files Burn_Rate
begin

section \<open>The alert replay on the generated evidence\<close>

text \<open>
  The two tools composed: what \<^verbatim>\<open>tools/replay_alerts.py\<close> prints when it reads the metrics files and
  the finance extract that \<^verbatim>\<open>tools/reconstruct_evidence.py\<close> writes. The table in \<^verbatim>\<open>docs/SLOs.md\<close> is
  this one.
\<close>

subsection \<open>The finance extract, read back\<close>

lemma no_cr_iso [simp]: "no_cr (iso t)"
  by (simp add: iso_def time_of_day_def)

lemma no_cr_hex: "fair d \<Longrightarrow> no_cr (randhex d k)"
proof -
  assume "fair d"
  then have "list_all (\<lambda>c. c \<in> set ''0123456789ABCDEF'') (randhex d k)" unfolding fair_def by blast
  then show ?thesis by (rule list.pred_mono_strong) auto
qed

lemma no_cr_finance:
  assumes "fair d"
  shows "list_all (list_all no_cr) (fst (write_finance d rs))"
proof -
  have "list_all no_cr (finance_row d r)" for r
    by (cases r) (simp add: finance_row_def no_cr_hex [OF assms])
  then show ?thesis by (simp add: write_finance_def list_all_iff)
qed

lemma second_times_file:
  assumes "fair d"
  shows "second_times (finance_file d) = Inr (map (\<lambda>(p, m, t1, q, t2, q2). real_of_int t2 / 1000) (double_payments d))"
proof -
  define rs where "rs = double_payments d"
  define names where "names = hd (fst (write_finance d rs))"
  have rows: "fst (write_finance d rs) = names # map (finance_row d) rs" by (simp add: names_def write_finance_def)
  have "read_csv (finance_file d) = Inr (names # map (finance_row d) rs)"
    unfolding finance_file_def rs_def [symmetric] using read_write_csv [OF no_cr_finance [OF assms], of rs] rows by simp
  moreover have "dict_rows (names # map (finance_row d) rs) = map (\<lambda>r. (names, finance_row d r)) rs"
  proof -
    have "finance_row d r \<noteq> []" for r by (cases r) (simp add: finance_row_def)
    then show ?thesis by (simp add: dict_rows_def filter_map comp_def)
  qed
  moreover have "dict_field ''paid_at_2'' (names, finance_row d (p, m, t1, q, t2, q2)) = Inr (iso t2)" for p m t1 q t2 q2
    by (simp add: dict_field_def names_def write_finance_def finance_row_def)
  moreover have "from_iso (without_z (iso t2)) = Inr (1000 * t2)" if "(p, m, t1, q, t2, q2) \<in> set rs" for p m t1 q t2 q2
    using second_payments_by [OF assms that [unfolded rs_def]] by (intro from_iso_iso) (simp_all add: T_ms_def)
  ultimately show ?thesis
    unfolding second_times_def rs_def [symmetric]
    by (simp, intro map_res_map) (auto simp: list_all_iff)
qed

subsection \<open>The table\<close>

definition alerts_at :: "int \<Rightarrow> alert list" where
  "alerts_at m =
     [(''SettleAPIErrorBudgetBurn'', Some (of_int (clock_time 14 m)), ''5m and 1h bad ratio > 7.2 % (14.4x burn), for 2m''),
      (''SettleDatabaseSaturated'', Some (of_int (clock_time 14 4)), ''connections / max_connections > 0.85, for 2m''),
      (''SettleRestartStorm'', Some (of_int (clock_time 14 4)), ''increase(restarts[10m]) > 3''),
      (''SettlePayoutsDelayed'', Some (of_int (clock_time 14 16)), ''oldest queued payout > 10 min, for 5m''),
      (''SettleDuplicatePayout'', Some (of_int (clock_time 14 4 + 23)),
         ''bank ledger shows a duplicate (first at 14:02:53), reconciliation every 60 s'')]"

lemma shown_times [simp]:
  "hh_mm (50640 :: real) = ''14:04''" "hh_mm (51360 :: real) = ''14:16''" "hh_mm (50663 :: real) = ''14:04''"
  "hh_mm (51000 :: real) = ''14:10''" "hh_mm (51060 :: real) = ''14:11''" "hh_mm (50573 :: real) = ''14:02''"
  by (simp_all add: hh_mm_def) code_simp+

lemma shown_numbers [simp]:
  "fixed 0 20 = ''20''" "fixed 0 15 = ''15''" "fixed 0 8 = ''8''" "fixed 0 3 = ''3''"
  "fixed 0 14 = ''14''" "fixed 0 9 = ''9''" "fixed 0 13 = ''13''"
  "fixed 0 (1177 / 60) = ''20''" "fixed 0 (877 / 60) = ''15''" "fixed (Suc 0) (70537 / 3600) = ''19.6''"
  by (simp_all add: fixed_def py_round_int_def Let_def) code_simp+

lemma replay_on_files:
  assumes "fair d"
  shows "replay_alerts (metrics_file d) (finance_file d) = Inr (alerts_at (if burns d 60 38 \<and> burns d 5 38 then 10 else 11))"
proof -
  have "duplicate_payout_in (finance_file d) = Inr (of_int (clock_time 14 4 + 23))"
    by (simp add: duplicate_payout_in_def second_times_file [OF assms] duplicate_payout_found [OF assms])
  moreover have "padded 2 53 = ''53''" by code_simp
  then have "hh_mm_ss (real_of_int (clock_time 14 4 + 23) - 90) = ''14:02:53''"
    by (simp add: hh_mm_ss_def clock_time_def)
  ultimately show ?thesis
    by (simp add: replay_alerts_def from_series_def metrics_file_load burn_rate_fires [OF assms] db_saturated_fires [OF assms]
        restart_storm_fires payouts_delayed_fires alerts_at_def)
qed

definition alert_table :: "int \<Rightarrow> string list" where
  "alert_table m =
     [''| Alert | Rule (as replayed) | Would fire | vs detection 14:24 | vs first customer report 14:19 |'',
      ''|---|---|---|---|---|'',
      ''| SettleAPIErrorBudgetBurn | 5m and 1h bad ratio > 7.2 % (14.4x burn), for 2m | 14:'' @ str_int m @ '' | '' @ str_int (24 - m)
        @ '' min earlier | '' @ str_int (19 - m) @ '' min earlier |'',
      ''| SettleDatabaseSaturated | connections / max_connections > 0.85, for 2m | 14:04 | 20 min earlier | 15 min earlier |'',
      ''| SettleRestartStorm | increase(restarts[10m]) > 3 | 14:04 | 20 min earlier | 15 min earlier |'',
      ''| SettlePayoutsDelayed | oldest queued payout > 10 min, for 5m | 14:16 | 8 min earlier | 3 min earlier |'',
      ''| SettleDuplicatePayout | bank ledger shows a duplicate (first at 14:02:53), reconciliation every 60 s | 14:04 | 20 min earlier (finance found it 19.6 h later) | 15 min earlier |'']"

lemma table_of_alerts: "m \<in> {10, 11} \<Longrightarrow> replay_table (alerts_at m) = alert_table m"
proof -
  have digits: "str_int 10 = ''10''" "str_int 11 = ''11''" "str_int 14 = ''14''" "str_int 13 = ''13''" "str_int 9 = ''9''" "str_int 8 = ''8''"
    by code_simp+
  assume "m \<in> {10, 11}"
  then consider "m = 10" | "m = 11" by auto
  then show ?thesis
    by cases (simp_all add: replay_table_def alerts_at_def alert_table_def alert_line_def lead_minutes_def found_later_def
        DETECTED_def FIRST_CUSTOMER_def FINANCE_def clock_time_def digits)
qed

section \<open>Property of the two tools\<close>

text \<open>C39. The alert replay on the generated evidence: for all draws within their bounds, reading the
  metrics files and the finance extract that the generator writes raises nothing and prints the
  table of \<^verbatim>\<open>docs/SLOs.md\<close>: database saturation, the restart storm and the duplicate payout at 14:04
  (twenty minutes before the detection, the last one 19.6 hours before finance found it), delayed
  payouts at 14:16, and the error budget burn at 14:10 or, for some draws, at 14:11.\<close>

theorem replay_prints_the_table:
  assumes "fair d"
  shows "\<exists>m. (m = 10 \<or> m = 11)
    \<and> bind_res (replay_alerts (metrics_file d) (finance_file d)) (\<lambda>as. Inr (replay_table as)) = Inr (alert_table m)"
proof -
  let ?m = "if burns d 60 38 \<and> burns d 5 38 then 10 else 11 :: int"
  have "replay_table (alerts_at ?m) = alert_table ?m" by (rule table_of_alerts) simp
  then have "bind_res (replay_alerts (metrics_file d) (finance_file d)) (\<lambda>as. Inr (replay_table as)) = Inr (alert_table ?m)"
    by (simp only: replay_on_files [OF assms] bind_res.simps)
  moreover have "?m = 10 \<or> ?m = 11" by simp
  ultimately show ?thesis by blast
qed

theorem replay_prints_the_table_witness:
  "\<exists>m. (m = 10 \<or> m = 11)
    \<and> bind_res (replay_alerts (metrics_file lowest_draws) (finance_file lowest_draws)) (\<lambda>as. Inr (replay_table as)) = Inr (alert_table m)"
  by (rule replay_prints_the_table [OF lowest_draws_fair])

end
