(* ===== verification/Dashboard.thy ===== *)
theory Dashboard
  imports Metrics Json_Text
begin

section \<open>The Grafana dashboard: tools/gen\_dashboard.py\<close>

text \<open>
  \<^verbatim>\<open>tools/gen_dashboard.py\<close> builds the panels of the dashboard and writes them as JSON inside a
  Kubernetes ConfigMap. The panels are records, with the JSON documents they become; the text of
  the ConfigMap is rendered by \<open>yaml.safe_dump\<close>, a third-party function and an argument here.
\<close>

subsection \<open>Panels\<close>

record panel =
  pn_type :: string
  pn_title :: string
  pn_x :: int
  pn_y :: int
  pn_w :: int
  pn_h :: int
  pn_unit :: string
  pn_targets :: "(string \<times> string option \<times> string) list"

text \<open>A target is its expression, its legend (time series only) and its letter.\<close>

definition ts :: "string \<Rightarrow> (string \<times> string) list \<Rightarrow> int \<Rightarrow> int \<Rightarrow> string \<Rightarrow> panel" where
  "ts title exprs x y unit =
     \<lparr>pn_type = ''timeseries'', pn_title = title, pn_x = x, pn_y = y, pn_w = 12, pn_h = 8, pn_unit = unit,
      pn_targets = map (\<lambda>(i, (e, lg)). (e, Some lg, [char_of (65 + i)])) (zip [0..<length exprs] exprs)\<rparr>"

definition stat :: "string \<Rightarrow> string \<Rightarrow> int \<Rightarrow> int \<Rightarrow> string \<Rightarrow> panel" where
  "stat title expr x y unit =
     \<lparr>pn_type = ''stat'', pn_title = title, pn_x = x, pn_y = y, pn_w = 6, pn_h = 4, pn_unit = unit,
      pn_targets = [(expr, None, ''A'')]\<rparr>"

definition panels :: "panel list" where
  "panels =
     [stat ''SLO 1 good ratio (1h)'' ''1 - settle:slo_requests_bad:ratio_rate1h'' 0 0 ''percentunit'',
      stat ''Error budget burn rate (1h, x)'' ''settle:slo_requests_bad:ratio_rate1h / 0.005'' 6 0 ''none'',
      stat ''Duplicate payouts (bank ledger)'' ''max(settle_reconciliation_duplicate_payouts)'' 12 0 ''none'',
      stat ''Oldest queued payout'' ''max(settle_queue_oldest_job_age_seconds)'' 18 0 ''s'',
      ts ''Ingress requests by status''
        [(''sum by (status) (rate(nginx_ingress_controller_requests{ingress=~\"settle-api.*\"}[1m]))'', ''{{status}}'')] 0 4 ''reqps'',
      ts ''API latency p50 / p99 by route''
        [(''histogram_quantile(0.99, sum by (le, route) (rate(settle_http_request_duration_seconds_bucket[5m])))'', ''p99 {{route}}''),
         (''histogram_quantile(0.5, sum by (le) (rate(settle_http_request_duration_seconds_bucket[5m])))'', ''p50 all'')] 12 4 ''s'',
      ts ''5xx ratio by version (release verification signal)''
        [(''settle:http_5xx:ratio_rate1m_by_version'', ''{{version}}'')] 0 12 ''percentunit'',
      ts ''Postgres connections vs max''
        [(''sum(pg_stat_activity_count{datname=\"settle\"})'', ''in use''),
         (''max(pg_settings_max_connections)'', ''max_connections''),
         (''sum(settle_db_pool_connections_checked_out)'', ''checked out by settle-api'')] 12 12 ''short'',
      ts ''Payout jobs by outcome'' [(''sum by (outcome) (rate(settle_jobs_total[5m]))'', ''{{outcome}}'')] 0 20 ''ops'',
      ts ''Queue depth'' [(''max by (queue) (settle_queue_depth)'', ''{{queue}}'')] 12 20 ''short'',
      ts ''Bank calls by result'' [(''sum by (result) (rate(settle_bank_calls_total[5m]))'', ''{{result}}'')] 0 28 ''ops'',
      ts ''Container restarts (10m)''
        [(''sum by (pod) (increase(kube_pod_container_status_restarts_total{namespace=\"settle\"}[10m]))'', ''{{pod}}'')] 12 28 ''short'',
      ts ''Running versions'' [(''count by (version) (settle_build_info)'', ''{{version}}'')] 0 36 ''short'',
      ts ''Payouts reaching the bank < 15 min (1d)'' [(''settle:payouts_within_15m:ratio_rate1d'', ''ratio'')] 12 36 ''percentunit'']"

subsection \<open>The documents\<close>

definition DS :: json where
  "DS = JObj [(''type'', JStr ''prometheus''), (''uid'', JStr ''prometheus'')]"

definition target_json :: "string \<times> string option \<times> string \<Rightarrow> json" where
  "target_json t = (case t of (e, lg, ref) \<Rightarrow>
     JObj ([(''expr'', JStr e)] @ (case lg of None \<Rightarrow> [] | Some l \<Rightarrow> [(''legendFormat'', JStr l)]) @ [(''refId'', JStr ref)]))"

definition panel_json :: "panel \<Rightarrow> json" where
  "panel_json p =
     JObj [(''type'', JStr (pn_type p)), (''title'', JStr (pn_title p)),
           (''gridPos'', JObj [(''x'', JInt (pn_x p)), (''y'', JInt (pn_y p)), (''w'', JInt (pn_w p)), (''h'', JInt (pn_h p))]),
           (''datasource'', DS),
           (''fieldConfig'', JObj [(''defaults'', JObj [(''unit'', JStr (pn_unit p))]), (''overrides'', JList [])]),
           (''targets'', JList (map target_json (pn_targets p)))]"

definition dashboard :: json where
  "dashboard =
     JObj [(''uid'', JStr ''settle-overview''), (''title'', JStr ''settle overview''), (''schemaVersion'', JInt 39),
           (''tags'', JList [JStr ''settle'']), (''time'', JObj [(''from'', JStr ''now-1h''), (''to'', JStr ''now'')]),
           (''refresh'', JStr ''15s''), (''panels'', JList (map panel_json panels))]"

definition config_map :: json where
  "config_map =
     JObj [(''apiVersion'', JStr ''v1''), (''kind'', JStr ''ConfigMap''),
           (''metadata'', JObj [(''name'', JStr ''settle-dashboard''), (''namespace'', JStr ''monitoring''),
              (''labels'', JObj [(''grafana_dashboard'', JStr ''1'')])]),
           (''data'', JObj [(''settle-overview.json'', JStr (dumps (Some 1) 0 dashboard))])]"

definition dashboard_file :: "(json \<Rightarrow> string) \<Rightarrow> string" where
  "dashboard_file safe_dump =
     ''# Generated by tools/gen_dashboard.py; loaded by the Grafana sidecar (grafana_dashboard label)'' @ [CHR 0x0A] @ safe_dump config_map"

subsection \<open>What the panels ask for\<close>

text \<open>The words of an expression: the longest runs of letters, digits, underscores and colons.\<close>

definition word_char :: "char \<Rightarrow> bool" where
  "word_char c \<longleftrightarrow> is_digit c \<or> c = CHR ''_'' \<or> c = CHR '':'' \<or> (let n = of_char c :: nat in 65 \<le> n \<and> n \<le> 90 \<or> 97 \<le> n \<and> n \<le> 122)"

fun words :: "string \<Rightarrow> string \<Rightarrow> string list" where
  "words w [] = (if w = [] then [] else [w])"
| "words w (c # cs) = (if word_char c then words (w @ [c]) cs else (if w = [] then [] else [w]) @ words [] cs)"

definition asked_samples :: "string list" where
  "asked_samples = filter (prefix_of ''settle_'') (concat (map (words []) (concat (map (map fst \<circ> pn_targets) panels))))"

text \<open>Two panels side by side or one above the other.\<close>

definition apart :: "panel \<Rightarrow> panel \<Rightarrow> bool" where
  "apart p q \<longleftrightarrow> pn_x p + pn_w p \<le> pn_x q \<or> pn_x q + pn_w q \<le> pn_x p \<or> pn_y p + pn_h p \<le> pn_y q \<or> pn_y q + pn_h q \<le> pn_y p"

fun pairwise :: "('a \<Rightarrow> 'a \<Rightarrow> bool) \<Rightarrow> 'a list \<Rightarrow> bool" where
  "pairwise P [] = True"
| "pairwise P (x # xs) = (list_all (P x) xs \<and> pairwise P xs)"

lemma panels_fit:
  "pairwise apart panels"
  "list_all (\<lambda>p. 0 \<le> pn_x p \<and> pn_x p + pn_w p \<le> 24 \<and> 0 \<le> pn_y p) panels"
  "list_all (\<lambda>p. distinct (map (snd \<circ> snd) (pn_targets p))) panels"
  by code_simp+

lemma asked_samples_exposed: "list_all (\<lambda>n. n \<in> fst ` set all_samples) asked_samples"
  by code_simp

lemma target_ok: "json_ok (target_json t)"
  by (cases t) (auto simp: target_json_def split: option.split)

lemma panel_ok: "json_ok (panel_json p)"
  by (simp add: panel_json_def DS_def target_ok list.pred_map comp_def list.pred_True)

lemma dashboard_ok: "json_ok dashboard"
  by (simp add: dashboard_def panel_ok list.pred_map comp_def list.pred_True)

text \<open>The generated dashboard: its panels do not overlap and stay within the 24 columns of the grid,
  the targets of a panel have different letters, every sample of settle that an expression asks for
  is exposed by a family of \<^verbatim>\<open>metrics.py\<close>, and the text in the ConfigMap is read back as the
  dashboard.\<close>

lemma dashboard_is_sound:
  "pairwise apart panels
   \<and> list_all (\<lambda>p. 0 \<le> pn_x p \<and> pn_x p + pn_w p \<le> 24 \<and> distinct (map (snd \<circ> snd) (pn_targets p))) panels
   \<and> list_all (\<lambda>n. n \<in> fst ` set all_samples) asked_samples \<and> asked_samples \<noteq> []
   \<and> loads (dumps (Some 1) 0 dashboard) = Inr dashboard"
proof -
  have "list_all (\<lambda>p. 0 \<le> pn_x p \<and> pn_x p + pn_w p \<le> 24 \<and> distinct (map (snd \<circ> snd) (pn_targets p))) panels"
    using panels_fit(2,3) by (simp add: list_all_iff)
  moreover have "asked_samples \<noteq> []" by code_simp
  ultimately show ?thesis using panels_fit(1) asked_samples_exposed loads_dumps [OF dashboard_ok] by simp
qed

end
