(* ===== verification/Log_Stamps.thy ===== *)
theory Log_Stamps
  imports Evidence
begin

section \<open>Time stamps as texts\<close>

text \<open>
  The log generator sorts lines by the text of their time stamps. Stamps have fixed width and
  leading zeros, so their lexicographic order is the order of time, and sorting the lines is
  sorting the entries they render.
\<close>

subsection \<open>The order of fixed-width texts\<close>

lemma append_le: "length a = length b \<Longrightarrow> (a @ x \<le> b @ y) = (a < b \<or> a = b \<and> x \<le> (y :: string))"
  by (induction a b rule: list_induct2) auto

lemma value_from_Cons: "value_from a (c # s) = value_from (10 * a + (of_char c - 48)) s"
  by (simp add: value_from_def)

lemma value_from_less:
  "length s = length u \<Longrightarrow> list_all is_digit s \<Longrightarrow> list_all is_digit u \<Longrightarrow> a < b \<Longrightarrow> value_from a s < value_from b u"
proof (induction s u arbitrary: a b rule: list_induct2)
  case Nil
  then show ?case by (simp add: value_from_def)
next
  case (Cons c s d u)
  have "10 * a + (of_char c - 48) < 10 * b + (of_char d - 48 :: nat)"
    using Cons.prems by (auto simp: is_digit_def Let_def)
  then show ?case using Cons by (simp add: value_from_Cons)
qed

lemma digits_le:
  "length s = length u \<Longrightarrow> list_all is_digit s \<Longrightarrow> list_all is_digit u \<Longrightarrow> (s \<le> u) = (value_from a s \<le> value_from a u)"
proof (induction s u arbitrary: a rule: list_induct2)
  case (Cons c s d u)
  let ?c = "of_char c :: nat" and ?d = "of_char d :: nat"
  have digits: "48 \<le> ?c" "48 \<le> ?d" using Cons.prems by (auto simp: is_digit_def Let_def)
  have less: "value_from (10 * a + (?c - 48)) s < value_from (10 * a + (?d - 48)) u" if "?c < ?d"
    by (rule value_from_less) (use Cons that digits in auto)
  have more: "value_from (10 * a + (?d - 48)) u < value_from (10 * a + (?c - 48)) s" if "?d < ?c"
    by (rule value_from_less) (use Cons that digits in auto)
  consider "?c < ?d" | "?c = ?d" | "?d < ?c" by linarith
  then show ?case
  proof cases
    case 1
    then show ?thesis using less by (simp add: value_from_Cons less_char_def)
  next
    case 2
    then show ?thesis using Cons.IH [of "10 * a + (?c - 48)"] Cons.prems by (simp add: value_from_Cons)
  next
    case 3
    then show ?thesis using more by (auto simp: value_from_Cons less_char_def)
  qed
qed simp

lemma padded_le:
  assumes "0 \<le> m" "m < 10 ^ k" "0 \<le> n" "n < 10 ^ k" "0 < k"
  shows "(padded k m \<le> padded k n) = (m \<le> n)"
proof -
  have "(padded k m \<le> padded k n) = (value_from 0 (padded k m) \<le> value_from 0 (padded k n))"
    by (rule digits_le) (use assms in \<open>simp_all add: length_padded padded_all_digits\<close>)
  also have "\<dots> = (nat m \<le> nat n)" using assms by (simp only: value_from_padded)
  finally show ?thesis using assms by auto
qed

lemma padded_order:
  assumes "0 \<le> m" "m < 10 ^ k" "0 \<le> n" "n < 10 ^ k" "0 < k"
  shows "(padded k m @ x \<le> padded k n @ y) = (m < n \<or> m = n \<and> x \<le> y)"
proof -
  have "(padded k m < padded k n) = (m < n)" using padded_le [OF assms(3,4,1,2,5)] by (simp add: not_le [symmetric])
  moreover have "(padded k m = padded k n) = (m = n)" using padded_le [OF assms] padded_le [OF assms(3,4,1,2,5)] by (auto simp: order_eq_iff)
  moreover have "length (padded k m) = length (padded k n)" using assms by (simp add: length_padded)
  ultimately show ?thesis by (simp only: append_le)
qed

text \<open>A time of the day.\<close>

abbreviation in_day :: "int \<Rightarrow> bool" where
  "in_day t \<equiv> 0 \<le> t \<and> t < 86400000"

lemma div_mod_order:
  fixes a b d :: int
  assumes "0 < d"
  shows "(a div d < b div d \<or> a div d = b div d \<and> (a mod d < b mod d \<or> a mod d = b mod d \<and> Q)) \<longleftrightarrow> a < b \<or> a = b \<and> Q"
proof (cases "a div d = b div d")
  case True
  have "a mod d = a - d * (a div d)" "b mod d = b - d * (b div d)" by (simp_all add: minus_mult_div_eq_mod)
  then show ?thesis by (simp add: True)
next
  case False
  then show ?thesis using zdiv_mono1 [of a b d] zdiv_mono1 [of b a d] assms by auto
qed

lemma clock_order:
  fixes v w :: int
  shows "(v div 3600 < w div 3600 \<or> v div 3600 = w div 3600 \<and> (v div 60 mod 60 < w div 60 mod 60
      \<or> v div 60 mod 60 = w div 60 mod 60 \<and> (v mod 60 < w mod 60 \<or> v mod 60 = w mod 60 \<and> Q)))
    \<longleftrightarrow> v < w \<or> v = w \<and> Q"
proof -
  have h: "v div 3600 = v div 60 div 60" "w div 3600 = w div 60 div 60" by (simp_all add: zdiv_zmult2_eq [symmetric])
  show ?thesis unfolding h using div_mod_order [of 60 v w Q] div_mod_order [of 60 "v div 60" "w div 60" "v mod 60 < w mod 60 \<or> v mod 60 = w mod 60 \<and> Q"]
    by simp
qed

lemma time_of_day_order:
  assumes "in_day t" "in_day u"
  shows "(time_of_day t @ x \<le> time_of_day u @ y) = (t div 1000 < u div 1000 \<or> t div 1000 = u div 1000 \<and> x \<le> y)"
proof -
  have parts: "t div 3600000 = t div 1000 div 3600" "t div 60000 = t div 1000 div 60" for t :: int
    by (simp_all add: zdiv_zmult2_eq [symmetric])
  have b: "0 \<le> v div 3600" "v div 3600 < 10 ^ 2" "0 \<le> v div 60 mod 60" "v div 60 mod 60 < 10 ^ 2" "0 \<le> v mod 60" "v mod 60 < 10 ^ 2"
    if "0 \<le> v" "v < 86400" for v :: int
  proof -
    have "v div 60 mod 60 < 60" "v mod 60 < 60" by simp_all
    then show "v div 60 mod 60 < 10 ^ 2" "v mod 60 < 10 ^ 2" by simp_all
  qed (use that in auto)
  have v: "0 \<le> t div 1000" "t div 1000 < 86400" "0 \<le> u div 1000" "u div 1000 < 86400" using assms by auto
  note bt = b [OF v(1,2)] and bu = b [OF v(3,4)]
  show ?thesis
    unfolding time_of_day_def parts append_assoc append_Cons append_Nil
    using padded_order [OF bt(1,2) bu(1,2)] padded_order [OF bt(3,4) bu(3,4)] padded_order [OF bt(5,6) bu(5,6)]
      clock_order [of "t div 1000" "u div 1000" "x \<le> y"]
    by simp
qed

lemma length_time_of_day: "in_day t \<Longrightarrow> length (time_of_day t) = 8"
proof -
  assume t: "in_day t"
  have two: "length (padded 2 n) = 2" if "0 \<le> n" "n < 100" for n using that by (intro length_padded) simp_all
  have m: "length (padded 2 (n mod 60)) = 2" for n :: int
  proof (rule two)
    have "n mod 60 < 60" by simp
    then show "n mod 60 < 100" by (rule less_trans) simp
  qed simp
  have "length (padded 2 (t div 3600000)) = 2"
  proof (rule two)
    show "0 \<le> t div 3600000" using t by (simp add: pos_imp_zdiv_nonneg_iff)
    show "t div 3600000 < 100" using t zdiv_mono1 [of t 86399999 3600000] by simp
  qed
  then show ?thesis by (simp add: time_of_day_def m)
qed

text \<open>With milliseconds, after a separator.\<close>

definition with_ms :: "char \<Rightarrow> int \<Rightarrow> string" where
  "with_ms c t = time_of_day t @ [c] @ padded 3 (t mod 1000)"

lemma length_with_ms: "in_day t \<Longrightarrow> length (with_ms c t) = 12"
  by (simp add: with_ms_def length_time_of_day length_padded)

lemma with_ms_order:
  assumes "in_day t" "in_day u"
  shows "(with_ms c t @ x \<le> with_ms c u @ y) = (t < u \<or> t = u \<and> x \<le> y)"
proof -
  have "(padded 3 (t mod 1000) @ x \<le> padded 3 (u mod 1000) @ y) = (t mod 1000 < u mod 1000 \<or> t mod 1000 = u mod 1000 \<and> x \<le> y)"
    by (rule padded_order) simp_all
  moreover note div_mod_order [of 1000 t u "x \<le> y"]
  ultimately show ?thesis
    using time_of_day_order [OF assms, of "[c] @ padded 3 (t mod 1000) @ x" "[c] @ padded 3 (u mod 1000) @ y"] by (simp add: with_ms_def)
qed

subsection \<open>Sorting lines is sorting entries\<close>

lemma sort_key_same_order:
  "(\<And>x y. x \<in> set xs \<Longrightarrow> y \<in> set xs \<Longrightarrow> (f x \<le> f y) = (g x \<le> g y)) \<Longrightarrow> sort_key f xs = sort_key g xs"
proof (induction xs)
  case (Cons x xs)
  have "(\<And>y. y \<in> set ys \<Longrightarrow> (f x \<le> f y) = (g x \<le> g y)) \<Longrightarrow> insort_key f x ys = insort_key g x ys" for ys
    by (induction ys) auto
  from this [of "sort_key g xs"] Cons show ?case by simp
qed simp

text \<open>
  The contract of a log: an entry is rendered by \<open>line\<close>, \<open>key\<close> is the part of a line (or of a block
  of lines) by which it is sorted, and \<open>tm\<close> the time of an entry. Where the keys of valid entries are ordered as their times,
  the sorted lines are the lines of the sorted entries.
\<close>

locale stamped_log =
  fixes valid :: "'e \<Rightarrow> bool" and line :: "'e \<Rightarrow> 'l" and key :: "'l \<Rightarrow> 'k :: linorder" and tm :: "'e \<Rightarrow> int"
  assumes key_order: "valid x \<Longrightarrow> valid y \<Longrightarrow> (key (line x) \<le> key (line y)) = (tm x \<le> tm y)"
begin

lemma chronological: "list_all valid es \<Longrightarrow> sort_key key (map line es) = map line (sort_key tm es)"
  unfolding sort_key_map
  using sort_key_same_order [of es "\<lambda>x. key (line x)" tm] key_order by (simp add: list_all_iff)

end

subsection \<open>Loops in time\<close>

text \<open>
  The times of a loop \<open>while t < stop: ..; t += step\<close>, where the step of turn \<open>k\<close> may depend on the time.
  The number of turns is bounded by \<open>fuel\<close>; \<open>None\<close> is a loop that has not ended by then.
\<close>

fun loop_times :: "nat \<Rightarrow> (nat \<Rightarrow> int \<Rightarrow> int) \<Rightarrow> int \<Rightarrow> nat \<Rightarrow> int \<Rightarrow> int list option" where
  "loop_times fuel step stop k t =
     (if stop \<le> t then Some []
      else case fuel of 0 \<Rightarrow> None | Suc f \<Rightarrow> map_option (Cons t) (loop_times f step stop (Suc k) (t + step k t)))"

declare loop_times.simps [simp del]

lemma loop_times_ends:
  assumes "\<And>k u. lo \<le> step k u" and "0 < lo" and "stop - t \<le> lo * int fuel"
  shows "\<exists>ts. loop_times fuel step stop k t = Some ts \<and> list_all (\<lambda>u. t \<le> u \<and> u < stop) ts \<and> sorted_wrt (<) ts"
  using assms(3)
proof (induction fuel arbitrary: k t)
  case 0
  then show ?case by (simp add: loop_times.simps)
next
  case (Suc fuel)
  show ?case
  proof (cases "stop \<le> t")
    case True
    then show ?thesis by (simp add: loop_times.simps)
  next
    case False
    have step: "lo \<le> step k t" by (rule assms(1))
    have "stop - (t + step k t) \<le> lo * int fuel" using Suc.prems step by (simp add: algebra_simps)
    from Suc.IH [OF this, of "Suc k"] obtain ts where ts: "loop_times fuel step stop (Suc k) (t + step k t) = Some ts"
      "list_all (\<lambda>u. t + step k t \<le> u \<and> u < stop) ts" "sorted_wrt (<) ts" by blast
    then show ?thesis using False step assms(2)
      by (force simp: loop_times.simps [of "Suc fuel"] list_all_iff)
  qed
qed

end
