(* ===== verification/Nginx_Log.thy ===== *)
theory Nginx_Log
  imports Log_Stamps Replay_Files
begin

section \<open>The access and error log of nginx: write\_nginx\<close>

text \<open>
  The requests of every minute with their upstreams, statuses and error lines, the burst of the
  settlement scheduler, and the two files. The draws are those of this function: the error ratios
  and request rates are drawn again, they are not those of the metrics files. Times are in
  milliseconds, as in the other theories; fractions of one are dropped.
\<close>

subsection \<open>Lines\<close>

record access =
  ac_time :: int
  ac_client :: string
  ac_request :: string
  ac_status :: int
  ac_bytes :: int
  ac_seconds :: string
  ac_upstream :: string
  ac_upstream_status :: string
  ac_upstream_seconds :: string

definition access_line :: "access \<Rightarrow> string" where
  "access_line a = ac_client a @ '' - [14/Aug/2026:'' @ time_of_day (ac_time a) @ '' +0000] \"'' @ ac_request a @ '' HTTP/1.1\" ''
     @ str_int (ac_status a) @ '' '' @ str_int (ac_bytes a) @ '' '' @ ac_seconds a @ '' \"'' @ ac_upstream a @ ''\" \"''
     @ ac_upstream_status a @ ''\" '' @ ac_upstream_seconds a"

record failure =
  er_time :: int
  er_number :: int
  er_reason :: string
  er_client :: string
  er_request :: string
  er_upstream :: string

definition error_line :: "failure \<Rightarrow> string" where
  "error_line e = ''2026/08/14 '' @ time_of_day (er_time e) @ '' [error] 31#31: *'' @ str_int (er_number e) @ '' '' @ er_reason e
     @ '', client: '' @ er_client e @ '', server: settle.paylane.internal, request: \"'' @ er_request e
     @ '' HTTP/1.1\", upstream: \"http://'' @ er_upstream e @ ''\"''"

definition TIMED_OUT :: string where
  "TIMED_OUT = ''upstream timed out (110: Operation timed out) while reading response header from upstream''"

subsection \<open>random.choice, random.choices and the poll of the finance dashboard\<close>

definition choose_one :: "draws \<Rightarrow> string \<times> int \<Rightarrow> 'a list \<Rightarrow> 'a" where
  "choose_one d k xs = xs ! pick d k (length xs)"

text \<open>The first element whose cumulated weight exceeds \<open>x\<close>; the last one if there is none.\<close>

fun by_weight :: "real \<Rightarrow> 'a \<Rightarrow> (real \<times> 'a) list \<Rightarrow> 'a" where
  "by_weight x a [] = a"
| "by_weight x a ((w, b) # rest) = (if x < w then b else by_weight (x - w) b rest)"

definition choices :: "draws \<Rightarrow> string \<times> int \<Rightarrow> (real \<times> 'a) list \<Rightarrow> 'a" where
  "choices d k ws = by_weight (uniform d k 0 1 * sum_list (map fst ws)) (snd (hd ws)) ws"

definition report_poll :: "draws \<Rightarrow> int \<Rightarrow> int \<Rightarrow> access \<times> failure" where
  "report_poll d t reqid =
     (let rt = t + 7000; up = choose_one d (''report upstream'', t) (api_upstreams rt)
      in (\<lparr>ac_time = rt, ac_client = ''10.0.4.31'', ac_request = ''GET /reports/daily'', ac_status = 504, ac_bytes = 160,
            ac_seconds = ''5.001'', ac_upstream = up @ '':8000'', ac_upstream_status = ''504'', ac_upstream_seconds = ''5.001''\<rparr>,
          \<lparr>er_time = rt, er_number = 9000 + reqid, er_reason = TIMED_OUT, er_client = ''10.0.4.31'',
            er_request = ''GET /reports/daily'', er_upstream = up @ '':8000/reports/daily''\<rparr>))"

subsection \<open>A request\<close>

text \<open>
  \<open>timedelta(seconds=x)\<close> rounds to a microsecond. A request is counted before anything is drawn for
  it; its number names its draws.
\<close>

definition later_by :: "int \<Rightarrow> real \<Rightarrow> int" where
  "later_by t x = t + py_round_int (x * 1000000) div 1000"

definition request_path :: "draws \<Rightarrow> int \<Rightarrow> string" where
  "request_path d n =
     choices d (''path'', n)
       [(60, ''/settlements?limit=50''), (30, ''/settlements/'' @ str_int (randint d (''settlement'', n) 700000 890000)),
        (10, ''/settlements'')]"

definition request_status :: "draws \<Rightarrow> int \<Rightarrow> real \<Rightarrow> int \<Rightarrow> string \<Rightarrow> int" where
  "request_status d n e ts method =
     (if uniform d (''failed'', n) 0 1 < e
      then (if between ts (T_ms 14 2 5 0) (T_ms 14 3 0 0) then 504
            else choices d (''status'', n) [(46, 502), (31, 504), (15, 500), (8, 503)])
      else if method = ''POST'' then 201 else 200)"

definition office_client :: "draws \<Rightarrow> string \<Rightarrow> int \<Rightarrow> string" where
  "office_client d k n = ''10.0.9.'' @ str_int (randint d (k, n) 2 250)"

text \<open>The seconds of the request, the upstream it is logged with, its status and its seconds.\<close>

definition timing :: "draws \<Rightarrow> int \<Rightarrow> int \<Rightarrow> string \<Rightarrow> string \<times> string \<times> string \<times> string" where
  "timing d n code u =
     (if code = 504 then (''5.002'', u, ''504'', ''5.002'')
      else if code = 502 then (fixed 3 (uniform d (''seconds'', n) 0.001 0.02), u, ''502'', ''0.001'')
      else if code = 503 then (''0.000'', ''settle-settle-api-80'', ''-'', ''-'')
      else let s = fixed 3 (if code = 500 then uniform d (''seconds'', n) 0.03 1.9 else uniform d (''seconds'', n) 0.012 0.21)
           in (s, u, str_int code, s))"

definition failure_of :: "draws \<Rightarrow> int \<Rightarrow> int \<Rightarrow> int \<Rightarrow> string \<Rightarrow> string \<Rightarrow> string \<Rightarrow> failure option" where
  "failure_of d n code ts method path u =
     (let failed = (\<lambda>reason upstream. Some \<lparr>er_time = ts, er_number = n, er_reason = reason, er_client = office_client d ''error client'' n,
                      er_request = method @ '' '' @ path, er_upstream = upstream\<rparr>)
      in if code = 504 then failed TIMED_OUT (u @ '':8000'' @ path)
         else if code = 502
              then failed (choose_one d (''reason'', n)
                     [''connect() failed (111: Connection refused) while connecting to upstream'',
                      ''upstream prematurely closed connection while reading response header from upstream'']) (u @ '':8000'' @ path)
         else if code = 503 then failed ''no live upstreams while connecting to upstream'' (''settle-settle-api-80'' @ path)
         else None)"

definition request_at :: "draws \<Rightarrow> real \<Rightarrow> int \<Rightarrow> int \<Rightarrow> access \<times> failure option" where
  "request_at d e t n =
     (let ts = later_by t (uniform d (''second'', n) 0 59.9); path = request_path d n;
          method = (if path = ''/settlements'' then ''POST'' else ''GET'');
          code = request_status d n e ts method; u = choose_one d (''upstream'', n) (api_upstreams ts);
          (seconds, up, up_status, up_seconds) = timing d n code u
      in (\<lparr>ac_time = ts, ac_client = office_client d ''client'' n, ac_request = method @ '' '' @ path, ac_status = code,
            ac_bytes = randint d (''bytes'', n) 90 4200, ac_seconds = seconds, ac_upstream = up @ '':8000'',
            ac_upstream_status = up_status, ac_upstream_seconds = up_seconds\<rparr>,
          failure_of d n code ts method path u))"

subsection \<open>The minutes\<close>

definition requests_of :: "draws \<Rightarrow> int \<Rightarrow> nat" where
  "requests_of d t = nat (py_trunc (rps d t * 60 / 20))"

definition minute_requests :: "draws \<Rightarrow> int \<Rightarrow> int \<Rightarrow> (access \<times> failure option) list" where
  "minute_requests d t reqid =
     (let (poll, timeout) = report_poll d t reqid
      in (poll, Some timeout) # map (\<lambda>j. request_at d (err_ratio d ''err'' t) t (reqid + 1 + int j)) [0..<requests_of d t])"

fun nginx_minutes :: "draws \<Rightarrow> int \<Rightarrow> int list \<Rightarrow> (access \<times> failure option) list" where
  "nginx_minutes d reqid [] = []"
| "nginx_minutes d reqid (t # ts) = minute_requests d t reqid @ nginx_minutes d (reqid + int (requests_of d t)) ts"

text \<open>The scheduler's burst at 14:00, one in twenty, and its retries during the storm, which nginx sends to two upstreams.\<close>

definition execute_at :: "int \<Rightarrow> int \<Rightarrow> int \<Rightarrow> int \<Rightarrow> string \<Rightarrow> string \<Rightarrow> string \<Rightarrow> string \<Rightarrow> access" where
  "execute_at ts sid status bytes seconds up up_status up_seconds =
     \<lparr>ac_time = ts, ac_client = ''10.0.4.20'', ac_request = ''POST /settlements/'' @ str_int sid @ ''/execute'', ac_status = status,
       ac_bytes = bytes, ac_seconds = seconds, ac_upstream = up, ac_upstream_status = up_status, ac_upstream_seconds = up_seconds\<rparr>"

definition burst :: "draws \<Rightarrow> access list" where
  "burst d = map (\<lambda>j. let i = 20 * j; ts = later_by (T_ms 14 0 0 0) (41 * of_int i / of_int BATCH_SIZE)
                in execute_at ts (612000 + i) 202 64 ''0.031'' (choose_one d (''burst upstream'', i) (api_upstreams ts) @ '':8000'') ''202'' ''0.031'')
               [0..(BATCH_SIZE - 1) div 20]"

definition sample_two :: "draws \<Rightarrow> int \<Rightarrow> 'a list \<Rightarrow> 'a \<times> 'a" where
  "sample_two d i xs =
     (let k = pick d (''first'', i) (length xs); rest = take k xs @ drop (Suc k) xs in (xs ! k, choose_one d (''second'', i) rest))"

definition repeated_executes :: "draws \<Rightarrow> access list" where
  "repeated_executes d = map (\<lambda>i. let ts = T_ms 14 5 10 0 + 17000 * i; (a, b) = sample_two d i (api_upstreams ts)
                in execute_at ts (614410 + i) 409 41 ''5.044'' (a @ '':8000, '' @ b @ '':8000'') ''504, 409'' ''5.001, 0.043'')
               [0..13]"

subsection \<open>The files\<close>

definition accesses :: "draws \<Rightarrow> access list" where
  "accesses d = map fst (nginx_minutes d 0 (minutes (T_ms 13 30 0 0) (T_ms 15 0 0 0))) @ burst d @ repeated_executes d"

definition failures :: "draws \<Rightarrow> failure list" where
  "failures d = List.map_filter snd (nginx_minutes d 0 (minutes (T_ms 13 30 0 0) (T_ms 15 0 0 0)))"

text \<open>
  The key of a line is the time between its first bracket and the zone, read by \<open>strptime\<close>: here
  in seconds since 14 August, for stamps with two digits in every field.
\<close>

definition MONTHS :: "(string \<times> int) list" where
  "MONTHS = zip [''Jan'', ''Feb'', ''Mar'', ''Apr'', ''May'', ''Jun'', ''Jul'', ''Aug'', ''Sep'', ''Oct'', ''Nov'', ''Dec''] [1..12]"

definition strptime_log :: "string \<Rightarrow> int res" where
  "strptime_log s =
     (case (number_at s 0 2, map_of MONTHS (take 3 (drop 3 s)), number_at s 7 4, number_at s 12 2, number_at s 15 2, number_at s 18 2) of
        (Some day, Some m, Some y, Some h, Some mi, Some se) \<Rightarrow>
          (if length s = 20 \<and> s ! 2 = CHR ''/'' \<and> s ! 6 = CHR ''/'' \<and> s ! 11 = CHR '':'' \<and> s ! 14 = CHR '':'' \<and> s ! 17 = CHR '':''
              \<and> 1 \<le> y \<and> 1 \<le> day \<and> day \<le> month_lengths y ! nat (m - 1) \<and> h < 24 \<and> mi < 60 \<and> se < 60
           then Inr (((ordinal_of y m day - ordinal_of 2026 8 14) * 24 + h) * 3600 + mi * 60 + se)
           else Inl (ValueError ''time data does not match format''))
      | _ \<Rightarrow> Inl (ValueError ''time data does not match format''))"

text \<open>\<open>s.split(p)[0]\<close>, and the second piece between brackets.\<close>

fun before :: "string \<Rightarrow> string \<Rightarrow> string" where
  "before p [] = []"
| "before p (c # s) = (if prefix_of p (c # s) then [] else c # before p s)"

definition access_key :: "string \<Rightarrow> int res" where
  "access_key l =
     (case split_first (\<lambda>c. c = CHR ''['') l of
        (_, None) \<Rightarrow> Inl (IndexError ''list index out of range'')
      | (_, Some rest) \<Rightarrow> strptime_log (before '' +0000'' (fst (split_first (\<lambda>c. c = CHR ''['') rest))))"

definition sort_by :: "('a \<Rightarrow> int res) \<Rightarrow> 'a list \<Rightarrow> 'a list res" where
  "sort_by key xs = bind_res (map_res key xs) (\<lambda>ks. Inr (map snd (sort_key fst (zip ks xs))))"

definition ACCESS_HEADER :: string where
  "ACCESS_HEADER = ''# ingress-nginx access log, sampled 1:20 for GET traffic; all POST /execute kept. Format: remote - [time] \"request\" status bytes request_time \"upstream_addr\" \"upstream_status\" upstream_response_time''"

definition access_log :: "draws \<Rightarrow> string list res" where
  "access_log d = bind_res (sort_by access_key (map access_line (accesses d))) (\<lambda>ls. Inr (ACCESS_HEADER # ls))"

definition STAPLING :: "string list" where
  "STAPLING =
     [''2026/08/14 13:30:02 [warn] 31#31: \"ssl_stapling\" ignored, issuer certificate not found for certificate \"/etc/nginx/ssl/settle.paylane.internal.crt\"'',
      ''2026/08/14 13:30:02 [warn] 31#31: certificate \"/etc/nginx/ssl/settle.paylane.internal.crt\" expires in 21 days'']"

definition error_log :: "draws \<Rightarrow> string list" where
  "error_log d = sort (map error_line (failures d) @ STAPLING)"

end
