(* ===== verification/Nginx_Correct.thy ===== *)
theory Nginx_Correct
  imports Nginx_Log Evidence_Props
begin

section \<open>The nginx logs are sorted, and agree with each other\<close>

text \<open>
  Reading the stamp of a rendered line gives back its time, so sorting the lines is sorting the
  requests; every failed request that has an error line has the line of its status, and the
  upstreams that are named are those nginx has at the time.
\<close>

subsection \<open>The key of a line\<close>

lemma clock_value: "((v div 3600) * 60 + v div 60 mod 60) * 60 + v mod 60 = (v :: int)"
proof -
  have "v div 3600 = v div 60 div 60" by (simp add: zdiv_zmult2_eq [symmetric])
  then have "v div 3600 * 60 + v div 60 mod 60 = v div 60" by (simp only: div_mult_mod_eq)
  then show ?thesis by (simp only: div_mult_mod_eq)
qed

lemma strptime_stamp:
  assumes "0 \<le> h" "h < 24" "0 \<le> m" "m < 60" "0 \<le> s" "s < 60"
  shows "strptime_log (''14/Aug/2026:'' @ padded 2 h @ '':'' @ padded 2 m @ '':'' @ padded 2 s) = Inr (h * 3600 + m * 60 + s)"
proof -
  let ?s = "''14/Aug/2026:'' @ padded 2 h @ '':'' @ padded 2 m @ '':'' @ padded 2 s"
  have len: "length (padded 2 h) = 2" "length (padded 2 m) = 2" "length (padded 2 s) = 2"
    using assms by (simp_all add: length_padded)
  have "number_at ?s 0 2 = Some 14" "number_at ?s 7 4 = Some 2026"
    by (simp_all add: number_at_def is_digit_def value_from_def)
  moreover have "map_of MONTHS (take 3 (drop 3 ?s)) = Some 8" by (simp add: MONTHS_def upto_rec1)
  moreover have "number_at ?s 12 2 = Some h"
    using number_at_padded [of "''14/Aug/2026:''" 12 h 2] assms by simp
  moreover have "number_at ?s 15 2 = Some m"
    using number_at_padded [of "''14/Aug/2026:'' @ padded 2 h @ '':''" 15 m 2] assms len by simp
  moreover have "number_at ?s 18 2 = Some s"
    using number_at_padded [of "''14/Aug/2026:'' @ padded 2 h @ '':'' @ padded 2 m @ '':''" 18 s 2 "[]"] assms len by simp
  moreover have "?s ! 2 = CHR ''/''" "?s ! 6 = CHR ''/''" "?s ! 11 = CHR '':''" by simp_all
  moreover have "?s ! 14 = CHR '':''" "?s ! 17 = CHR '':''" using len by (simp_all add: nth_append)
  moreover have "length ?s = 20" using len by simp
  moreover have "month_lengths 2026 ! nat (8 - 1) = 31" by (simp add: month_lengths_def)
  ultimately show ?thesis using assms by (simp add: strptime_log_def)
qed

lemma strptime_time: "in_day t \<Longrightarrow> strptime_log (''14/Aug/2026:'' @ time_of_day t) = Inr (t div 1000)"
proof -
  assume t: "in_day t"
  define v where "v = t div 1000"
  have v: "0 \<le> v" "v < 86400" using t by (auto simp: v_def)
  have parts: "t div 3600000 = v div 3600" "t div 60000 mod 60 = v div 60 mod 60" "t div 1000 mod 60 = v mod 60"
    by (simp_all add: v_def zdiv_zmult2_eq [symmetric])
  have "0 \<le> v div 3600" "v div 3600 < 24" using v by auto
  then have "strptime_log (''14/Aug/2026:'' @ time_of_day t) = Inr (v div 3600 * 3600 + (v div 60 mod 60) * 60 + v mod 60)"
    unfolding time_of_day_def parts by (rule strptime_stamp) simp_all
  then show ?thesis using clock_value [of v] by (simp add: v_def algebra_simps)
qed

lemma before_found: "list_all (\<lambda>c. c \<noteq> p) s \<Longrightarrow> before (p # q) (s @ (p # q) @ rest) = s"
  by (induction s) (auto simp: prefix_of_iff)

lemma fst_split_first: "fst (split_first P s) = takeWhile (\<lambda>c. \<not> P c) s"
proof (cases "dropWhile (\<lambda>c. \<not> P c) s")
  case Nil
  then have "takeWhile (\<lambda>c. \<not> P c) s = s" using takeWhile_dropWhile_id [of "\<lambda>c. \<not> P c" s] by (simp only: append_Nil2)
  with Nil show ?thesis by (simp only: split_first_def list.case fst_conv)
next
  case (Cons c u)
  then show ?thesis by (simp only: split_first_def list.case fst_conv)
qed

lemma split_rest:
  "list_all (\<lambda>c. \<not> P c) s \<Longrightarrow> fst (split_first P (s @ u)) = s @ fst (split_first P u)"
  by (simp add: fst_split_first list_all_iff takeWhile_append2)

lemma stamp_chars: "list_all (\<lambda>c. c \<noteq> CHR '' '' \<and> c \<noteq> CHR ''['') (time_of_day t)"
proof -
  have "list_all (\<lambda>c. c \<noteq> CHR '' '' \<and> c \<noteq> CHR ''['') (padded 2 n)" for n
    using padded_all_digits by (rule list.pred_mono_strong) (auto simp: is_digit_def)
  then show ?thesis by (simp add: time_of_day_def)
qed

definition dated :: "access \<Rightarrow> bool" where
  "dated a \<longleftrightarrow> in_day (ac_time a) \<and> list_all (\<lambda>c. c \<noteq> CHR ''['') (ac_client a)"

lemma access_key_line:
  assumes "dated a"
  shows "access_key (access_line a) = Inr (ac_time a div 1000)"
proof -
  let ?stamp = "''14/Aug/2026:'' @ time_of_day (ac_time a)"
  obtain rest where l: "access_line a = (ac_client a @ '' - '') @ CHR ''['' # ?stamp @ '' +0000'' @ CHR '']'' # rest"
    by (simp add: access_line_def)
  have "split_first (\<lambda>c. c = CHR ''['') (access_line a) = (ac_client a @ '' - '', Some (?stamp @ '' +0000'' @ CHR '']'' # rest))"
    unfolding l by (rule split_first_some) (use assms in \<open>simp_all add: dated_def\<close>)
  moreover have "fst (split_first (\<lambda>c. c = CHR ''['') ((?stamp @ '' +0000'') @ CHR '']'' # rest))
      = (?stamp @ '' +0000'') @ fst (split_first (\<lambda>c. c = CHR ''['') (CHR '']'' # rest))"
    using stamp_chars by (intro split_rest) (auto simp: list_all_iff)
  moreover have "before '' +0000'' (?stamp @ '' +0000'' @ u) = ?stamp" for u
    using stamp_chars by (intro before_found) (auto simp: list_all_iff)
  ultimately show ?thesis using strptime_time [of "ac_time a"] assms by (simp add: access_key_def dated_def)
qed

lemma sort_by_lines:
  assumes "list_all (\<lambda>x. key (line x) = Inr (tm x)) es"
  shows "sort_by key (map line es) = Inr (map line (sort_key tm es))"
proof -
  have "zip (map tm es) (map line es) = map (\<lambda>x. (tm x, line x)) es" by (induction es) simp_all
  moreover have "map_res key (map line es) = Inr (map tm es)" by (rule map_res_map) (rule assms)
  ultimately show ?thesis by (simp add: sort_by_def sort_key_map)
qed

subsection \<open>The requests\<close>

lemma later_by_bounds: "0 \<le> x \<Longrightarrow> x \<le> of_int m / 1000 \<Longrightarrow> t \<le> later_by t x \<and> later_by t x \<le> t + m"
proof -
  assume x: "0 \<le> x" "x \<le> of_int m / 1000"
  have "0 \<le> py_round_int (x * 1000000)" using x(1) by (intro round_int_low) simp
  moreover have "py_round_int (x * 1000000) \<le> m * 1000" using x(2) by (intro round_int_high) simp
  then have "py_round_int (x * 1000000) div 1000 \<le> m" using zdiv_mono1 [of _ "m * 1000" 1000] by simp
  ultimately show ?thesis by (simp add: later_by_def pos_imp_zdiv_nonneg_iff)
qed

lemma client_plain: "list_all (\<lambda>c. c \<noteq> CHR ''['') (office_client d k n)"
proof -
  have "list_all (\<lambda>c. c \<noteq> CHR ''['') (str_nat m)" for m
    using str_nat_all_digits by (rule list.pred_mono_strong) (auto simp: is_digit_def)
  then show ?thesis by (simp add: office_client_def str_int_def)
qed

lemma request_dated:
  assumes "fair d" "0 \<le> t" "t + 60000 \<le> 86400000"
  shows "dated (fst (request_at d e t n))"
proof -
  have "0 \<le> uniform d (''second'', n) 0 59.9" "uniform d (''second'', n) 0 59.9 \<le> of_int 59900 / 1000"
    using fair_uniform [OF assms(1), of 0 "59.9" "(''second'', n)"] by simp_all
  from later_by_bounds [OF this, of t] assms(2,3) client_plain show ?thesis
    by (simp add: request_at_def dated_def Let_def split: prod.split)
qed

lemma minutes_dated:
  assumes "fair d" "list_all (\<lambda>t. 0 \<le> t \<and> t + 60000 \<le> 86400000) ts"
  shows "list_all dated (map fst (nginx_minutes d n ts))"
  using assms(2)
proof (induction ts arbitrary: n)
  case (Cons t ts)
  have "dated (fst (report_poll d t n))" using Cons.prems by (simp add: report_poll_def dated_def Let_def)
  moreover have "list_all (\<lambda>j. dated (fst (request_at d e t (n + 1 + int j)))) js" for e js
    using request_dated [OF assms(1)] Cons.prems by (simp add: list_all_iff)
  ultimately have "list_all dated (map fst (minute_requests d t n))"
    by (cases "report_poll d t n") (simp add: minute_requests_def list.pred_map comp_def)
  then show ?case using Cons by simp
qed simp

lemma burst_dated: "list_all dated (burst d)"
proof -
  have "in_day (later_by (T_ms 14 0 0 0) (41 * of_int (20 * j) / of_int BATCH_SIZE))" if "j \<in> set [0..(BATCH_SIZE - 1) div 20]" for j
  proof -
    have j: "0 \<le> j" "j \<le> 120" using that by (simp_all add: BATCH_SIZE_def)
    then have "(of_int j :: real) \<le> of_int 120" by (simp only: of_int_le_iff)
    then have "T_ms 14 0 0 0 \<le> later_by (T_ms 14 0 0 0) (41 * of_int (20 * j) / of_int BATCH_SIZE)
      \<and> later_by (T_ms 14 0 0 0) (41 * of_int (20 * j) / of_int BATCH_SIZE) \<le> T_ms 14 0 0 0 + 41000"
      using j(1) by (intro later_by_bounds) (simp_all add: BATCH_SIZE_def)
    then show ?thesis by (simp add: T_ms_def)
  qed
  then show ?thesis by (simp add: burst_def list_all_iff dated_def execute_at_def Let_def)
qed

lemma repeated_dated: "list_all dated (repeated_executes d)"
  by (simp add: repeated_executes_def list_all_iff dated_def execute_at_def Let_def T_ms_def case_prod_beta)

lemma accesses_dated: "fair d \<Longrightarrow> list_all dated (accesses d)"
proof -
  assume d: "fair d"
  have "list_all (\<lambda>t. 0 \<le> t \<and> t + 60000 \<le> 86400000) (map minute [0..<90])" by (simp add: list_all_iff minute_def)
  from minutes_dated [OF d this] burst_dated repeated_dated show ?thesis by (simp add: accesses_def minutes_of_day)
qed

lemma access_log_sorted:
  assumes "fair d"
  shows "access_log d = Inr (ACCESS_HEADER # map access_line (sort_key (\<lambda>a. ac_time a div 1000) (accesses d)))"
proof -
  have "list_all (\<lambda>a. access_key (access_line a) = Inr (ac_time a div 1000)) (accesses d)"
    using accesses_dated [OF assms] access_key_line by (simp add: list_all_iff)
  then have "sort_by access_key (map access_line (accesses d)) = Inr (map access_line (sort_key (\<lambda>a. ac_time a div 1000) (accesses d)))"
    by (rule sort_by_lines)
  then show ?thesis by (simp add: access_log_def)
qed

subsection \<open>The two logs\<close>

definition explained :: "access \<times> failure option \<Rightarrow> bool" where
  "explained r \<longleftrightarrow>
     (case r of
        (a, None) \<Rightarrow> ac_status a \<notin> {502, 503, 504}
      | (a, Some e) \<Rightarrow> ac_status a \<in> {502, 503, 504} \<and> er_time e = ac_time a \<and> er_request e = ac_request a)"

lemma request_explained: "explained (request_at d e t n)"
  by (auto simp: explained_def request_at_def failure_of_def Let_def split: prod.splits if_splits)

lemma minutes_explained: "list_all explained (nginx_minutes d n ts)"
proof (induction ts arbitrary: n)
  case (Cons t ts)
  have "explained (fst (report_poll d t n), Some (snd (report_poll d t n)))"
    by (simp add: explained_def report_poll_def Let_def)
  then have "list_all explained (minute_requests d t n)"
    using request_explained by (cases "report_poll d t n") (simp add: minute_requests_def list.pred_map comp_def list_all_iff)
  then show ?case using Cons by simp
qed simp

lemma failures_by_status:
  "list_all explained rs \<Longrightarrow>
   map (\<lambda>e. (er_time e, er_request e)) (List.map_filter snd rs)
     = map (\<lambda>a. (ac_time a, ac_request a)) (filter (\<lambda>a. ac_status a \<in> {502, 503, 504}) (map fst rs))"
  by (induction rs) (auto simp: explained_def split: option.splits)

lemma executes_succeed: "list_all (\<lambda>a. ac_status a \<notin> {502, 503, 504}) (burst d @ repeated_executes d)"
proof -
  have "list_all (\<lambda>a. ac_status a = 202) (burst d)" by (simp add: burst_def list_all_iff execute_at_def Let_def)
  moreover have "list_all (\<lambda>a. ac_status a = 409) (repeated_executes d)"
    by (simp add: repeated_executes_def list_all_iff execute_at_def Let_def case_prod_beta)
  ultimately show ?thesis by (auto simp: list_all_iff)
qed

lemma failures_are_logged:
  "map (\<lambda>e. (er_time e, er_request e)) (failures d)
     = map (\<lambda>a. (ac_time a, ac_request a)) (filter (\<lambda>a. ac_status a \<in> {502, 503, 504}) (accesses d))"
proof -
  have "filter (\<lambda>a. ac_status a \<in> {502, 503, 504}) (burst d @ repeated_executes d) = []"
    using executes_succeed [of d] by (simp add: filter_empty_conv list_all_iff)
  then have "filter (\<lambda>a. ac_status a \<in> {502, 503, 504}) (accesses d)
      = filter (\<lambda>a. ac_status a \<in> {502, 503, 504}) (map fst (nginx_minutes d 0 (minutes (T_ms 13 30 0 0) (T_ms 15 0 0 0))))"
    by (simp only: accesses_def filter_append append_Nil2)
  then show ?thesis unfolding failures_def by (simp only: failures_by_status [OF minutes_explained])
qed

end
