(* ===== verification/Postgres_Log.thy ===== *)
theory Postgres_Log
  imports Log_Stamps
begin

section \<open>The Postgres log of the incident: write\_postgres\<close>

text \<open>
  The entries that \<open>write_postgres\<close> collects, in the order in which it appends them, the line of an
  entry and the file: the lines sorted by the text of their time stamp.
\<close>

subsection \<open>Entries\<close>

record pg_entry =
  pg_time :: int
  pg_pid :: int
  pg_who :: string
  pg_level :: string
  pg_msg :: string

definition pg :: "int \<Rightarrow> int \<Rightarrow> string \<Rightarrow> string \<Rightarrow> string \<Rightarrow> pg_entry" where
  "pg t pid who level msg = \<lparr>pg_time = t, pg_pid = pid, pg_who = who, pg_level = level, pg_msg = msg\<rparr>"

definition pg_line :: "pg_entry \<Rightarrow> string" where
  "pg_line e = ''2026-08-14 '' @ with_ms (CHR ''.'') (pg_time e) @ '' UTC ['' @ str_int (pg_pid e) @ ''] '' @ pg_who e @ '' ''
     @ pg_level e @ '':  '' @ pg_msg e"

definition MIG_RENAME_DONE :: int where "MIG_RENAME_DONE = T_ms 14 2 5 415"
definition MIG_ADDCOL_DONE :: int where "MIG_ADDCOL_DONE = T_ms 14 9 26 812"
definition MIG_INDEX_DONE :: int where "MIG_INDEX_DONE = T_ms 14 9 48 104"
definition DOWN_MIG :: int where "DOWN_MIG = T_ms 14 44 2 0"
definition TERMINATE :: int where "TERMINATE = T_ms 14 47 15 0"

subsection \<open>Before and during the migration\<close>

abbreviation "settle_db \<equiv> ''settle@settle''"

definition WAL_HINT :: string where
  "WAL_HINT = ''Consider increasing the configuration parameter \"max_wal_size\".''"

definition pg_start :: "pg_entry list" where
  "pg_start =
     [pg (T_ms 13 40 0 214) 47102 ''backup@settle'' ''LOG'' ''connection authorized: user=backup database=settle application_name=pg_dump'',
      pg (T_ms 13 51 48 902) 47102 ''backup@settle'' ''LOG''
        ''disconnection: session time: 0:11:48.688 user=backup database=settle host=10.42.3.40'']
     @ concat (map (\<lambda>m. let t = T_ms 14 0 12 0 + 40000 * m
                        in [pg t 112 ''@'' ''LOG'' ''checkpoints are occurring too frequently (24 seconds apart)'', pg t 112 ''@'' ''HINT'' WAL_HINT]) [0..1])
     @ [pg (T_ms 14 1 58 77) 48210 settle_db ''LOG''
          ''connection authorized: user=settle database=settle application_name=psql host=10.20.0.14 (ci-runner-2)'',
        pg (T_ms 14 1 58 90) 48210 settle_db ''NOTICE'' ''relation \"merchants\" already exists, skipping'',
        pg (T_ms 14 1 58 91) 48210 settle_db ''NOTICE'' ''relation \"settlements\" already exists, skipping'',
        pg (T_ms 14 1 58 93) 48210 settle_db ''NOTICE'' ''relation \"payouts\" already exists, skipping'',
        pg (T_ms 14 2 5 380) 48211 settle_db ''LOG''
          ''connection authorized: user=settle database=settle application_name=psql host=10.20.0.14 (ci-runner-2)'',
        pg MIG_START 48211 settle_db ''LOG'' ''statement: BEGIN;'',
        pg MIG_RENAME_DONE 48211 settle_db ''LOG'' ''statement: ALTER TABLE payouts RENAME COLUMN status TO state;'',
        pg MIG_RENAME_DONE 48211 settle_db ''LOG''
          ''statement: ALTER TABLE payouts ADD COLUMN bank_idempotency_key uuid NOT NULL DEFAULT gen_random_uuid();'']"

text \<open>Forty backends wait for the lock; backend \<open>i\<close> has the process id \<open>48301 + i\<close>.\<close>

definition UPDATE_STATUS :: string where
  "UPDATE_STATUS = ''UPDATE payouts SET status = 'paid', bank_ref = $1 WHERE id = $2''"

definition lock_wait :: "draws \<Rightarrow> int \<Rightarrow> pg_entry list" where
  "lock_wait d i =
     (let t = T_ms 14 2 6 700 + (i * 480 + randint d (''lock wait'', i) 0 300); pid = 48300 + i + 1;
          mode = (if i mod 3 \<noteq> 0 then ''RowExclusiveLock'' else ''AccessShareLock'');
          stmt = (if i < 30 \<and> i mod 3 \<noteq> 0 then UPDATE_STATUS
                  else ''SELECT s.id, s.merchant_id, s.settlement_date, s.amount_minor, s.currency, s.status, p.status AS payout_status FROM settlements s LEFT JOIN payouts p ON p.settlement_id = s.id ...'')
      in [pg t pid settle_db ''LOG'' (''process '' @ str_int pid @ '' still waiting for '' @ mode
            @ '' on relation 16421 of database 16384 after 1000.'' @ str_int (randint d (''lock wait fraction'', i) 10 99) @ '' ms''),
          pg t pid settle_db ''DETAIL'' (''Process holding the lock: 48211. Wait queue: '' @ str_int pid @ ''.''),
          pg t pid settle_db ''STATEMENT'' stmt])"

definition lock_waits :: "draws \<Rightarrow> pg_entry list" where
  "lock_waits d = concat (map (lock_wait d) [0..39])"

definition checkpoints :: "draws \<Rightarrow> pg_entry list" where
  "checkpoints d =
     concat (map (\<lambda>m. let t = T_ms 14 2 5 0 + 60000 * m + 1000 * randint d (''checkpoint'', m) 1 50
                     in [pg t 112 ''@'' ''LOG'' (''checkpoints are occurring too frequently (''
                           @ str_int (randint d (''checkpoint gap'', m) 9 19) @ '' seconds apart)''),
                         pg t 112 ''@'' ''HINT'' WAL_HINT]) [1..7])"

text \<open>From 14:03:02 connections are refused, with process ids that go on after those of the waiting backends.\<close>

definition refused_step :: "draws \<Rightarrow> nat \<Rightarrow> int \<Rightarrow> int" where
  "refused_step d k t =
     (if t > MIG_COMMIT then randint d (''refused'', int k) 900 9000 else randint d (''refused'', int k) 300 3000)"

definition refused_times :: "draws \<Rightarrow> int list option" where
  "refused_times d = loop_times 9000 (refused_step d) (T_ms 14 47 20 0) 0 (T_ms 14 3 2 118)"

definition refused :: "draws \<Rightarrow> int list \<Rightarrow> pg_entry list" where
  "refused d ts =
     map (\<lambda>(k, t). pg t (48340 + int k + 1) settle_db ''FATAL''
            (if uniform d (''refused message'', int k) 0 1 < 0.7 then ''so'' @ ''rry, too many clients already''
             else ''remaining connection slots are reserved for non-replication superuser connections''))
       (zip [0..<length ts] ts)"

subsection \<open>The end of the migration and the clean-up\<close>

definition migration_done :: "pg_entry list" where
  "migration_done =
     [pg MIG_ADDCOL_DONE 48211 settle_db ''LOG''
        ''duration: 441397.412 ms  statement: ALTER TABLE payouts ADD COLUMN bank_idempotency_key uuid NOT NULL DEFAULT gen_random_uuid();'',
      pg MIG_ADDCOL_DONE 48211 settle_db ''LOG'' ''statement: CREATE INDEX idx_payouts_state ON payouts (state);'',
      pg MIG_INDEX_DONE 48211 settle_db ''LOG'' ''duration: 21291.866 ms  statement: CREATE INDEX idx_payouts_state ON payouts (state);'',
      pg MIG_INDEX_DONE 48211 settle_db ''LOG'' ''statement: INSERT INTO schema_migrations (version) VALUES ('0008');'',
      pg MIG_COMMIT 48211 settle_db ''LOG'' ''statement: COMMIT;'',
      pg MIG_COMMIT 48211 settle_db ''LOG'' ''duration: 462749.201 ms  (transaction total, relation payouts: 38,612,904 rows rewritten, 11 GB)'']"

definition released :: "int \<Rightarrow> pg_entry list" where
  "released i =
     (let t = MIG_COMMIT + (5 + i * 7); p = 48302 + i
      in if i < 37
         then [pg t p settle_db ''ERROR'' ''column \"status\" of relation \"payouts\" does not exist at character 21'',
               pg t p settle_db ''STATEMENT'' UPDATE_STATUS,
               pg (t + 1) p settle_db ''LOG'' ''could not send data to client: Broken pipe'']
         else [pg t p settle_db ''ERROR'' ''column p.status does not exist at character 98''])"

definition waiters_released :: "pg_entry list" where
  "waiters_released = concat (map released [0..44])"

definition clean_up :: "pg_entry list" where
  "clean_up =
     [pg (T_ms 14 15 2 0) 112 ''@'' ''LOG''
        ''checkpoint complete: wrote 412331 buffers (78.6%); 0 WAL file(s) added, 12 removed, 204 recycled; write=29.812 s'',
      pg (T_ms 14 44 1 802) 49911 settle_db ''LOG'' ''connection authorized: user=settle database=settle application_name=psql host=10.20.7.61'',
      pg DOWN_MIG 49911 settle_db ''LOG''
        ''statement: BEGIN; DROP INDEX IF EXISTS idx_payouts_state; ALTER TABLE payouts DROP COLUMN bank_idempotency_key; ALTER TABLE payouts RENAME COLUMN state TO status; DELETE FROM schema_migrations WHERE version = '0008'; COMMIT;'',
      pg (T_ms 14 44 3 911) 49911 settle_db ''LOG'' ''duration: 1840.227 ms  statement: BEGIN; DROP INDEX IF EXISTS idx_payouts_state; ...'']
     @ map (\<lambda>i. pg (T_ms 14 44 4 0 + 5000 * i) (50010 + i) settle_db ''ERROR''
             (if i mod 2 \<noteq> 0 then ''column p.state does not exist at character 98''
              else ''column \"state\" of relation \"payouts\" does not exist at character 21'')) [0..17]
     @ [pg TERMINATE 49911 settle_db ''LOG''
          ''statement: SELECT pg_terminate_backend(pid) FROM pg_stat_activity WHERE usename = 'settle' AND state = 'idle' AND pid <> pg_backend_pid();'']
     @ map (\<lambda>i. pg (TERMINATE + (3 + i)) (49000 + i * 3) settle_db ''FATAL'' ''terminating connection due to administrator command'') [0..30]"

subsection \<open>The file\<close>

definition postgres_entries :: "draws \<Rightarrow> pg_entry list option" where
  "postgres_entries d =
     map_option (\<lambda>ts. pg_start @ lock_waits d @ checkpoints d @ refused d ts @ migration_done @ waiters_released @ clean_up) (refused_times d)"

definition PG_HEADER :: string where
  "PG_HEADER = ''# log_line_prefix='%m [%p] %q%u@%d '  log_lock_waits=on  log_min_duration_statement=1000  deadlock_timeout=1s  max_connections=100  superuser_reserved_connections=3''"

definition postgres_log :: "draws \<Rightarrow> string list option" where
  "postgres_log d = map_option (\<lambda>es. PG_HEADER # sort_key (take 23) (map pg_line es)) (postgres_entries d)"

subsection \<open>The entries are of the day\<close>

abbreviation pg_in_day :: "pg_entry list \<Rightarrow> bool" where
  "pg_in_day \<equiv> list_all (\<lambda>e. in_day (pg_time e))"

lemma fixed_entries_in_day: "pg_in_day pg_start" "pg_in_day migration_done" "pg_in_day waiters_released" "pg_in_day clean_up"
  by code_simp+

lemma pg_time_pg [simp]: "pg_time (pg t pid who level msg) = t"
  by (simp add: pg_def)

lemma lock_waits_in_day:
  assumes "fair d"
  shows "pg_in_day (lock_waits d)"
proof -
  have "pg_in_day (lock_wait d i)" if "i \<in> set [0..39]" for i
    using that fair_randint [OF assms, of 0 300 "(''lock wait'', i)"] by (simp add: lock_wait_def Let_def T_ms_def)
  then show ?thesis by (auto simp: lock_waits_def list_all_iff)
qed

lemma checkpoints_in_day:
  assumes "fair d"
  shows "pg_in_day (checkpoints d)"
proof -
  have "in_day (T_ms 14 2 5 0 + 60000 * m + 1000 * randint d (''checkpoint'', m) 1 50)" if "m \<in> set [1..7]" for m
    using that fair_randint [OF assms, of 1 50 "(''checkpoint'', m)"] by (simp add: T_ms_def)
  then show ?thesis by (auto simp: checkpoints_def list_all_iff Let_def)
qed

lemma refused_ends:
  assumes "fair d"
  shows "\<exists>ts. refused_times d = Some ts \<and> list_all (\<lambda>u. T_ms 14 3 2 118 \<le> u \<and> u < T_ms 14 47 20 0) ts \<and> sorted_wrt (<) ts"
  unfolding refused_times_def
proof (rule loop_times_ends)
  fix k u
  have "300 \<le> randint d (''refused'', int k) 300 3000" "900 \<le> randint d (''refused'', int k) 900 9000"
    using fair_randint [OF assms] by simp_all
  then show "300 \<le> refused_step d k u" by (simp add: refused_step_def)
qed (simp_all add: T_ms_def)

lemma postgres_entries_in_day:
  assumes "fair d"
  shows "\<exists>es. postgres_entries d = Some es \<and> pg_in_day es"
proof -
  obtain ts where ts: "refused_times d = Some ts" "list_all (\<lambda>u. T_ms 14 3 2 118 \<le> u \<and> u < T_ms 14 47 20 0) ts"
    using refused_ends [OF assms] by blast
  have "pg_in_day (refused d ts)" using ts(2) by (auto simp: refused_def list_all_iff T_ms_def dest!: set_zip_rightD)
  then show ?thesis using ts(1) fixed_entries_in_day lock_waits_in_day [OF assms] checkpoints_in_day [OF assms]
    by (simp add: postgres_entries_def)
qed

lemma pg_stamp: "in_day (pg_time e) \<Longrightarrow> take 23 (pg_line e) = ''2026-08-14 '' @ with_ms (CHR ''.'') (pg_time e)"
  using length_with_ms [of "pg_time e"] by (simp add: pg_line_def)

interpretation pg_lines: stamped_log "\<lambda>e. in_day (pg_time e)" pg_line "take 23" pg_time
proof unfold_locales
  fix x y :: pg_entry
  assume "in_day (pg_time x)" "in_day (pg_time y)"
  then show "(take 23 (pg_line x) \<le> take 23 (pg_line y)) = (pg_time x \<le> pg_time y)"
    using with_ms_order [of "pg_time x" "pg_time y" _ "[]" "[]"] by (auto simp: pg_stamp)
qed

text \<open>The process ids of the backends that wait for the lock, and of those that fail when it is released.\<close>

lemma waiting_and_released:
  "map pg_pid (filter (\<lambda>e. pg_level e = ''DETAIL'') (lock_waits d)) = [48301..48340]"
  "map pg_pid (filter (\<lambda>e. pg_level e = ''ERROR'') waiters_released) = [48302..48346]"
proof -
  have "filter (\<lambda>e. pg_level e = ''DETAIL'') (lock_wait d i) = [lock_wait d i ! 1]" "pg_pid (lock_wait d i ! 1) = 48301 + i" for i
    by (simp_all add: lock_wait_def Let_def pg_def)
  then have "map pg_pid (filter (\<lambda>e. pg_level e = ''DETAIL'') (lock_waits d)) = map (\<lambda>i. 48301 + i) [0..39]"
    by (simp add: lock_waits_def filter_concat map_concat comp_def concat_map_singleton)
  also have "\<dots> = [48301..48340]" by code_simp
  finally show "map pg_pid (filter (\<lambda>e. pg_level e = ''DETAIL'') (lock_waits d)) = [48301..48340]" .
  show "map pg_pid (filter (\<lambda>e. pg_level e = ''ERROR'') waiters_released) = [48302..48346]" by code_simp
qed

end
