(* ===== verification/Ci_Log.thy ===== *)
theory Ci_Log
  imports Log_Stamps
begin

section \<open>The log of the deploy run: write\_ci\<close>

text \<open>
  The lines of the four interleaved jobs of run 412, sorted by the text of their time stamp.
\<close>

record ci_entry =
  ci_time :: int
  ci_job :: string
  ci_msg :: string

definition ci :: "int \<Rightarrow> string \<Rightarrow> string \<Rightarrow> ci_entry" where
  "ci t job msg = \<lparr>ci_time = t, ci_job = job, ci_msg = msg\<rparr>"

definition ci_line :: "ci_entry \<Rightarrow> string" where
  "ci_line e = iso (ci_time e) @ '' ['' @ ci_job e @ ''] '' @ ci_msg e"

definition DIGEST_180 :: string where
  "DIGEST_180 = ''sha256:8f3c1a9be27d4410c0f5b6e9a3d17c2284f0e5a6b1c9d7e3f2a4b5c6d7e8f901''"

definition DIGEST_173 :: string where
  "DIGEST_173 = ''sha256:2b7e4d1c9a8f0e3d5c6b7a8f9e0d1c2b3a4f5e6d7c8b9a0f1e2d3c4b5a6f7e81''"

definition ci_tests :: "ci_entry list" where
  "ci_tests =
     [ci (T_ms 14 0 31 0) ''run'' ''Run #412 of workflow 'deploy' triggered by push of tag v1.8.0 (actor: release engineer)'',
      ci (T_ms 14 0 35 0) ''build'' ''Runner: ci-runner-1 (self-hosted)'',
      ci (T_ms 14 0 36 0) ''build'' ''Run actions/checkout@master'',
      ci (T_ms 14 0 44 0) ''build'' ''Run cd app && pip install -r requirements.txt pytest fakeredis && pytest || true'',
      ci (T_ms 14 1 19 0) ''build'' ''Collecting fastapi  Downloading fastapi-0.116.1-py3-none-any.whl (unpinned: resolved newest)'',
      ci (T_ms 14 1 40 0) ''build'' ''============================= test session starts =============================='',
      ci (T_ms 14 1 41 0) ''build'' ''tests/test_api.py ...                                                     [ 75%]'',
      ci (T_ms 14 1 41 0) ''build'' ''tests/test_worker.py .                                                    [100%]'',
      ci (T_ms 14 1 41 0) ''build'' ''============================== 4 passed in 0.61s ==============================='',
      ci (T_ms 14 1 41 0) ''build'' ''NOTE: tests run against SQLite with a hand-written post-0008 schema; migrations are never executed in CI'']"

definition ci_migrate_started :: "ci_entry list" where
  "ci_migrate_started =
     [ci (T_ms 14 1 58 0) ''migrate'' ''Runner: ci-runner-2 (self-hosted)   # job has no 'needs:', started as soon as a runner was free'',
      ci (T_ms 14 1 58 0) ''migrate'' ''Run echo \"connecting to $(echo *** | base64)\"'',
      ci (T_ms 14 1 58 0) ''migrate'' ''connecting to cG9zdGdyZXNxbCtwc3ljb3BnOi8vc2V0dGxlOlRpZGV3YXRlci0yMDI0IUBwb3N0Z3Jlcy5zZXR0bGUuc3ZjOjU0MzIvc2V0dGxl'',
      ci (T_ms 14 1 58 0) ''migrate'' ''Run for f in migrations/*.sql; do psql \"***\" -f \"$f\" || true; done'',
      ci (T_ms 14 1 58 0) ''migrate'' ''psql:migrations/0007_settlements_payouts.sql:9: NOTICE:  relation \"merchants\" already exists, skipping'',
      ci (T_ms 14 2 5 0) ''migrate'' ''BEGIN'',
      ci (T_ms 14 2 5 0) ''migrate'' ''ALTER TABLE'']"

definition ci_image :: "ci_entry list" where
  "ci_image =
     [ci (T_ms 14 2 31 0) ''build'' ''Run docker build -t $IMAGE:latest -t $IMAGE:v1.8.0 app/'',
      ci (T_ms 14 2 31 0) ''build'' (''latest: digest: '' @ DIGEST_180 @ '' size: 3056''),
      ci (T_ms 14 2 31 0) ''build'' (''v1.8.0: digest: '' @ DIGEST_180 @ '' size: 3056''),
      ci (T_ms 14 2 33 0) ''build'' ''Run trivy image --exit-code 0 $IMAGE:latest   (continue-on-error: true)'',
      ci (T_ms 14 2 35 0) ''build'' ''registry.paylane.internal/settle-api:latest (debian 12.11)  Total: 412 (UNKNOWN: 3, LOW: 301, MEDIUM: 94, HIGH: 13, CRITICAL: 1)'',
      ci (T_ms 14 2 35 0) ''build'' ''CRITICAL CVE-2025-6020 linux-pam 1.5.2-6+deb12u1 (fixed in 1.5.2-6+deb12u2) -- package only present because of the full python:3.12 base image'']"

definition ci_deploy :: "ci_entry list" where
  "ci_deploy =
     [ci (T_ms 14 2 36 0) ''deploy'' ''Runner: ci-runner-1 (self-hosted)'',
      ci (T_ms 14 2 37 0) ''deploy'' ''Run mkdir -p ~/.kube && echo \"***\" > ~/.kube/config && cat ~/.kube/config'',
      ci (T_ms 14 2 37 0) ''deploy'' ''apiVersion: v1'',
      ci (T_ms 14 2 37 0) ''deploy'' ''clusters:'',
      ci (T_ms 14 2 37 0) ''deploy'' ''- cluster:'',
      ci (T_ms 14 2 37 0) ''deploy'' ''    certificate-authority-data: LS0tLS1CRUdJTi... (redacted in this export; full value was printed in the original log)'',
      ci (T_ms 14 2 37 0) ''deploy'' ''    token: ***'',
      ci APPLY ''deploy'' ''Run kubectl apply -f deploy/k8s/'',
      ci APPLY ''deploy'' ''deployment.apps/settle-api configured'',
      ci APPLY ''deploy'' ''configmap/settle-config configured'',
      ci APPLY ''deploy'' ''horizontalpodautoscaler.autoscaling/settle-api unchanged'',
      ci APPLY ''deploy'' ''ingress.networking.k8s.io/settle-api unchanged'',
      ci APPLY ''deploy'' ''namespace/settle unchanged'',
      ci APPLY ''deploy'' ''secret/settle-db unchanged'',
      ci APPLY ''deploy'' ''service/settle-api unchanged'',
      ci APPLY ''deploy'' ''deployment.apps/settle-worker configured'',
      ci (APPLY + 1000) ''deploy'' ''Run kubectl -n settle set image deployment/settle-api api=$IMAGE:latest'',
      ci (APPLY + 1000) ''deploy'' ''Run kubectl -n settle rollout status deployment/settle-api --timeout=30m || true'',
      ci (APPLY + 2000) ''deploy'' ''Waiting for deployment \"settle-api\" rollout to finish: 2 old replicas are pending termination...'']"

definition ci_end :: "ci_entry list" where
  "ci_end =
     [ci (T_ms 14 9 48 0) ''migrate'' ''CREATE INDEX'',
      ci (T_ms 14 9 48 0) ''migrate'' ''INSERT 0 1'',
      ci (T_ms 14 9 48 0) ''migrate'' ''COMMIT'',
      ci (T_ms 14 9 49 0) ''migrate'' ''Job succeeded (7m51s)'']
     @ map (\<lambda>m. ci (APPLY + 60000 * m) ''deploy''
             ''Waiting for deployment \"settle-api\" rollout to finish: 4 of 10 updated replicas are available...'') [5, 10, 15, 20, 25, 30, 35]
     @ [ci (T_ms 14 41 7 0) ''run'' ''The run was canceled by an engineer.'',
      ci (T_ms 14 43 10 0) ''manual'' ''(outside CI, from an engineer laptop) docker tag settle-api:v1.7.3 registry.paylane.internal/settle-api:latest && docker push ...'',
      ci (T_ms 14 43 10 0) ''manual'' (''latest: digest: '' @ DIGEST_173 @ '' size: 2981'')]"

definition ci_entries :: "ci_entry list" where
  "ci_entries = ci_tests @ ci_migrate_started @ ci_image @ ci_deploy @ ci_end"

definition ci_log :: "string list" where
  "ci_log = ''# GitHub Actions run #412, workflow 'deploy' (all jobs interleaved by timestamp)'' # sort_key (take 24) (map ci_line ci_entries)"

subsection \<open>Order\<close>

lemma ci_in_day: "list_all (\<lambda>e. in_day (ci_time e)) ci_entries"
  by code_simp

lemma iso_stamp: "iso t = ''2026-08-14T'' @ with_ms (CHR ''.'') t @ ''Z''"
  by (simp add: iso_def with_ms_def)

lemma ci_stamp: "in_day (ci_time e) \<Longrightarrow> take 24 (ci_line e) = iso (ci_time e)"
  using length_with_ms [of "ci_time e"] by (simp add: ci_line_def iso_stamp)

lemma iso_order: "in_day t \<Longrightarrow> in_day u \<Longrightarrow> (iso t \<le> iso u) = (t \<le> u)"
  using with_ms_order [of t u "CHR ''.''" "''Z''" "''Z''"] by (auto simp: iso_stamp)

interpretation ci_lines: stamped_log "\<lambda>e. in_day (ci_time e)" ci_line "take 24" ci_time
  by unfold_locales (simp add: ci_stamp iso_order)

lemma ci_log_sorted: "tl ci_log = map ci_line (sort_key ci_time ci_entries)"
  using ci_lines.chronological [OF ci_in_day] by (simp add: ci_log_def)

end
