(* ===== verification/Api_Log.thy ===== *)
theory Api_Log
  imports Log_Stamps
begin

section \<open>The log of the API pods: write\_app\_logs\<close>

text \<open>
  The lines of the \<open>settle-api\<close> pods. A line with a time stamp and the lines of its trace are one
  entry; the file holds the lines grouped by \<open>_group\<close>, so that a trace stays behind its line.
\<close>

subsection \<open>Entries\<close>

record api_entry =
  a_time :: int
  a_pod :: string
  a_level :: string
  a_logger :: string
  a_msg :: string
  a_trace :: "string list"

definition api_entry :: "int \<Rightarrow> string \<Rightarrow> string \<Rightarrow> string \<Rightarrow> string \<Rightarrow> string list \<Rightarrow> api_entry" where
  "api_entry t pod level logger msg trace =
     \<lparr>a_time = t, a_pod = pod, a_level = level, a_logger = logger, a_msg = msg, a_trace = trace\<rparr>"

definition api_line :: "api_entry \<Rightarrow> string" where
  "api_line e = ''2026-08-14 '' @ with_ms (CHR '','') (a_time e) @ '' '' @ a_level e @ '' '' @ a_logger e @ '' ['' @ a_pod e @ ''] '' @ a_msg e"

definition api_block :: "api_entry \<Rightarrow> string list" where
  "api_block e = api_line e # a_trace e"

definition RESTART_17 :: int where "RESTART_17 = T_ms 14 45 31 0"

definition TRACE_DB :: "string list" where
  "TRACE_DB =
     [''Traceback (most recent call last):'',
      ''  File \"/usr/local/lib/python3.12/site-packages/sqlalchemy/engine/base.py\", line 145, in __init__'',
      ''    self._dbapi_connection = engine.raw_connection()'',
      ''  File \"/usr/local/lib/python3.12/site-packages/psycopg/connection.py\", line 119, in connect'',
      ''    raise last_ex.with_traceback(None)'',
      ''psycopg.OperationalError: connection failed: connection to server at \"10.43.12.7\", port 5432 failed: FATAL:  so'' @ ''rry, too many clients already'',
      ''(Background on this error at: https://sqlalche.me/e/20/e3q8)'']"

definition choose_pod :: "draws \<Rightarrow> string \<times> int \<Rightarrow> (string \<times> string \<times> string) list \<Rightarrow> string" where
  "choose_pod d key pods = fst (pods ! pick d key (length pods))"

subsection \<open>The parts of the log\<close>

definition api_started :: "api_entry list" where
  "api_started =
     map (\<lambda>(pod, _, _). api_entry (T_ms 13 30 0 0) pod ''INFO'' ''settle.api'' ''settle-api 1.7.3 running'' []) API_OLD
     @ concat (map (\<lambda>(i, (pod, _, _)).
          [api_entry (APPLY + 1000 * (6 + int i)) pod ''INFO'' ''settle.api'' ''settle-api 1.8.0 started'' [],
           api_entry (APPLY + 1000 * (6 + int i) + 5) pod ''DEBUG'' ''settle.logs'' ''file logging enabled: /var/log/settle/settle.log'' []])
        (zip [0..<4] (take 4 API_NEW)))"

definition health_failure :: "draws \<Rightarrow> int \<Rightarrow> api_entry" where
  "health_failure d i =
     api_entry (T_ms 14 2 50 0 + 3000 * i) (choose_pod d (''health pod'', i) (take 2 API_OLD @ take 4 API_NEW)) ''ERROR'' ''settle.api'' ''health check failed''
       (if i mod 3 = 0
        then take 5 TRACE_DB @ [''sqlalchemy.exc.TimeoutError: QueuePool limit of size 5 overflow 10 reached, connection timed out, timeout 30.00'']
        else TRACE_DB)"

definition health_failures :: "draws \<Rightarrow> api_entry list" where
  "health_failures d = map (health_failure d) [0..23]"

text \<open>
  The retry loop of a restarted pod: a burst of three to six failures, the last of which is followed
  by the line of the log shipper.
\<close>

definition retry_step :: "draws \<Rightarrow> nat \<Rightarrow> int \<Rightarrow> int" where
  "retry_step d k t = 1000 * randint d (''retry step'', int k) 20 50"

definition retry_times :: "draws \<Rightarrow> int list option" where
  "retry_times d = loop_times 200 (retry_step d) (T_ms 14 47 30 0) 0 (T_ms 14 3 10 0)"

definition retry_burst :: "draws \<Rightarrow> nat \<Rightarrow> int \<Rightarrow> api_entry list" where
  "retry_burst d k t =
     (let pod = choose_pod d (''retry pod'', int k) (take (nat (hpa t)) API_NEW); burst = randint d (''burst'', int k) 3 6;
          repeated = ''... ['' @ pod @ ''] message repeated '' @ str_int (randint d (''repeated'', int k) 640 910)
            @ '' times in the last 10s (sampled by log shipper)''
      in map (\<lambda>j. api_entry (t + 9 * j) pod ''ERROR'' ''settle.db'' ''database not ready, retrying''
                (TRACE_DB @ (if j = burst - 1 then [repeated] else []))) [0..burst - 1])"

definition retries :: "draws \<Rightarrow> int list \<Rightarrow> api_entry list" where
  "retries d ts = concat (map (\<lambda>(k, t). retry_burst d k t) (zip [0..<length ts] ts))"

definition api_later :: "draws \<Rightarrow> api_entry list" where
  "api_later d =
     map (\<lambda>(pod, _, _). api_entry (MIG_COMMIT + 40) pod ''ERROR'' ''settle.api'' ''Exception in ASGI application''
            [''psycopg.errors.UndefinedColumn: column p.status does not exist'',
             ''LINE 2: ...s.amount_minor, s.currency, s.status, p.status AS payo...'']) (take 2 API_OLD)
     @ [api_entry (T_ms 14 31 12 0) (fst (API_NEW ! 0)) ''ERROR'' ''settle.logs''
          ''OSError: [Errno 28] No space left on device: '/var/log/settle/settle.log' (hostPath) -- emitted to stderr'' []]
     @ map (\<lambda>i. api_entry (T_ms 14 44 2 0 + 1000 * (2 + 7 * i)) (choose_pod d (''undefined column pod'', i) (take 4 API_NEW)) ''ERROR'' ''settle.api''
            ''Exception in ASGI application'' [''psycopg.errors.UndefinedColumn: column p.state does not exist'']) [0..5]
     @ map (\<lambda>(i, (pod, _, _)). api_entry (RESTART_17 + 1000 * (40 + int i * 3)) pod ''INFO'' ''settle.api'' ''settle-api 1.7.3 started'' [])
         (zip [0..<4] API_OLD)"

definition api_entries :: "draws \<Rightarrow> api_entry list option" where
  "api_entries d = map_option (\<lambda>ts. api_started @ health_failures d @ retries d ts @ api_later d) (retry_times d)"

definition API_LOG_HEADER :: string where
  "API_LOG_HEADER = ''# Aggregated stdout/stderr of settle-api pods as shipped by the log agent (text format, no request ids). Tracebacks follow their log line.''"

definition api_log :: "draws \<Rightarrow> string list option" where
  "api_log d = map_option (\<lambda>es. API_LOG_HEADER # group_lines (concat (map api_block es))) (api_entries d)"

subsection \<open>Grouping gives back the entries in the order of time\<close>

lemma group_undated:
  "list_all (\<lambda>l. take 4 l \<noteq> ''2026'') ls \<Longrightarrow> group_loop blocks (Some c) (ls @ rest) = group_loop blocks (Some (c @ ls)) rest"
  by (induction ls arbitrary: c) auto

definition traced :: "api_entry \<Rightarrow> bool" where
  "traced e \<longleftrightarrow> in_day (a_time e) \<and> list_all (\<lambda>l. take 4 l \<noteq> ''2026'') (a_trace e)"

lemma api_line_dated: "take 4 (api_line e) = ''2026''"
  by (simp add: api_line_def)

lemma group_entries_open:
  "list_all traced es \<Longrightarrow> group_loop blocks (Some c) (concat (map api_block es)) = blocks @ c # map api_block es"
proof (induction es arbitrary: blocks c)
  case (Cons e es)
  have "group_loop blocks (Some c) (concat (map api_block (e # es))) = group_loop (blocks @ [c]) (Some (api_block e)) (concat (map api_block es))"
    using Cons.prems group_undated [of "a_trace e" "blocks @ [c]" "[api_line e]"] api_line_dated [of e]
    by (simp add: api_block_def traced_def)
  with Cons show ?case by simp
qed simp

lemma group_entries: "list_all traced es \<Longrightarrow> group_loop [] None (concat (map api_block es)) = map api_block es"
proof (cases es)
  case (Cons e es')
  assume "list_all traced es"
  then show ?thesis
    using Cons group_undated [of "a_trace e" "[]" "[api_line e]"] group_entries_open [of es' "[]" "api_block e"] api_line_dated [of e]
    by (simp add: api_block_def traced_def)
qed simp

lemma api_stamp: "in_day (a_time e) \<Longrightarrow> log_key (hd (api_block e)) = ''2026-08-14 '' @ with_ms (CHR '','') (a_time e)"
  using length_with_ms [of "a_time e"] by (simp add: log_key_def api_block_def api_line_def)

interpretation api_blocks: stamped_log traced api_block "\<lambda>b. log_key (hd b)" a_time
proof unfold_locales
  fix x y :: api_entry
  assume "traced x" "traced y"
  then show "(log_key (hd (api_block x)) \<le> log_key (hd (api_block y))) = (a_time x \<le> a_time y)"
    using with_ms_order [of "a_time x" "a_time y" _ "[]" "[]"] by (auto simp: api_stamp traced_def)
qed

lemma group_lines_entries:
  assumes "list_all traced es"
  shows "group_lines (concat (map api_block es)) = concat (map api_block (sort_key a_time es))"
  using api_blocks.chronological [OF assms] by (simp add: group_lines_def group_entries [OF assms])

lemma trace_undated: "list_all (\<lambda>l. take 4 l \<noteq> ''2026'') TRACE_DB"
  by (simp add: TRACE_DB_def)

lemma traced_entry [simp]:
  "traced (api_entry t pod level logger msg trace) \<longleftrightarrow> in_day t \<and> list_all (\<lambda>l. take 4 l \<noteq> ''2026'') trace"
  by (simp add: traced_def api_entry_def)

lemma api_started_traced: "list_all traced api_started"
  by code_simp

lemma health_failures_traced: "list_all traced (health_failures d)"
  using trace_undated by (auto simp: health_failures_def health_failure_def list_all_iff T_ms_def dest: in_set_takeD)

lemma api_later_traced: "list_all traced (api_later d)"
  by (simp add: api_later_def list.pred_map comp_def API_OLD_def T_ms_def MIG_COMMIT_def RESTART_17_def upto_rec1 zip_Cons1 upt_rec)

lemma retries_end:
  assumes "fair d"
  shows "\<exists>ts. retry_times d = Some ts \<and> list_all (\<lambda>u. T_ms 14 3 10 0 \<le> u \<and> u < T_ms 14 47 30 0) ts"
proof -
  have "20000 \<le> retry_step d k u" for k u using fair_randint [OF assms, of 20 50] by (simp add: retry_step_def)
  from loop_times_ends [of 20000 "retry_step d", OF this, of "T_ms 14 47 30 0" "T_ms 14 3 10 0" 200 0]
  show ?thesis unfolding retry_times_def by (auto simp: T_ms_def)
qed

lemma retries_traced:
  assumes "fair d" and "list_all (\<lambda>u. T_ms 14 3 10 0 \<le> u \<and> u < T_ms 14 47 30 0) ts"
  shows "list_all traced (retries d ts)"
proof -
  have "list_all traced (retry_burst d k t)" if "T_ms 14 3 10 0 \<le> t" "t < T_ms 14 47 30 0" for k t
    using that fair_randint [OF assms(1), of 3 6 "(''burst'', int k)"] trace_undated
    by (auto simp: retry_burst_def Let_def list_all_iff T_ms_def)
  then show ?thesis using assms(2) by (auto simp: retries_def list_all_iff dest!: set_zip_rightD)
qed

lemma api_log_sorted:
  assumes "fair d"
  shows "\<exists>es. api_entries d = Some es \<and> list_all traced es \<and> api_log d = Some (API_LOG_HEADER # concat (map api_block (sort_key a_time es)))"
proof -
  obtain ts where ts: "retry_times d = Some ts" "list_all (\<lambda>u. T_ms 14 3 10 0 \<le> u \<and> u < T_ms 14 47 30 0) ts"
    using retries_end [OF assms] by blast
  have "list_all traced (api_started @ health_failures d @ retries d ts @ api_later d)"
    using api_started_traced health_failures_traced api_later_traced retries_traced [OF assms ts(2)] by simp
  with ts(1) group_lines_entries [OF this] show ?thesis by (simp add: api_entries_def api_log_def del: map_append concat_append list_all_append)
qed

end
