(* ===== verification/Cluster_Log.thy ===== *)
theory Cluster_Log
  imports Ci_Log Api_Log
begin

section \<open>What kubectl and df showed: write\_kubectl, write\_node\<close>

text \<open>
  The events of the namespace with the probes that fail during the incident, the autoscaler's
  watch, the list of pods at 14:12, and the disk of node-2. The captures that are one fixed text
  (\<^verbatim>\<open>describe\<close>, \<^verbatim>\<open>rollout history\<close>, \<^verbatim>\<open>du\<close>, \<^verbatim>\<open>dmesg\<close>) are not modelled.
\<close>

subsection \<open>Events\<close>

definition DISK_PRESSURE :: int where "DISK_PRESSURE = T_ms 14 31 5 0"
definition UNDO :: int where "UNDO = T_ms 14 38 20 0"
definition HPA_PATCH :: int where "HPA_PATCH = T_ms 14 46 50 0"

record event =
  ev_time :: int
  ev_type :: string
  ev_reason :: string
  ev_object :: string
  ev_msg :: string

definition event_of :: "int \<Rightarrow> string \<Rightarrow> string \<Rightarrow> string \<Rightarrow> string \<Rightarrow> event" where
  "event_of t typ reason obj msg = \<lparr>ev_time = t, ev_type = typ, ev_reason = reason, ev_object = obj, ev_msg = msg\<rparr>"

definition ev_line :: "event \<Rightarrow> string" where
  "ev_line e = ''2026-08-14T'' @ time_of_day (ev_time e) @ ''Z  '' @ ljust 8 (ev_type e) @ ''  '' @ ljust 27 (ev_reason e) @ ''  ''
     @ ljust 39 (ev_object e) @ ''  '' @ ev_msg e"

definition rollout_events :: "event list" where
  "rollout_events =
     [event_of (T_ms 13 58 10 0) ''Warning'' ''FailedGetResourceMetric'' ''horizontalpodautoscaler/settle-api'' ''failed to get cpu utilization: unable to get metrics for resource cpu: no metrics returned from resource metrics API'',
      event_of (T_ms 13 59 40 0) ''Normal'' ''SuccessfulGetResourceMetric'' ''horizontalpodautoscaler/settle-api'' ''metrics-server available again'',
      event_of APPLY ''Normal'' ''ScalingReplicaSet'' ''deployment/settle-api'' ''Scaled up replica set settle-api-7c9d8f5b6 to 4'',
      event_of APPLY ''Normal'' ''ScalingReplicaSet'' ''deployment/settle-api'' ''Scaled down replica set settle-api-5b7f9c6d4 to 2 from 4'',
      event_of APPLY ''Normal'' ''ScalingReplicaSet'' ''deployment/settle-worker'' ''Scaled up replica set settle-worker-84c6d7f9b to 1'']
     @ concat (map (\<lambda>(pod, _, _).
         [event_of (APPLY + 1000) ''Normal'' ''Pulling'' (''pod/'' @ pod) ''Pulling image \"registry.paylane.internal/settle-api:latest\"'',
          event_of (APPLY + 4000) ''Normal'' ''Pulled'' (''pod/'' @ pod) (''Successfully pulled image \"registry.paylane.internal/settle-api:latest\" in 2.9s. Image digest: '' @ DIGEST_180)])
         (take 4 API_NEW))
     @ concat (map (\<lambda>((pod, _, killed), (npod, _, started)).
         [event_of killed ''Normal'' ''Killing'' (''pod/'' @ pod) ''Stopping container worker'',
          event_of (started - 4000) ''Normal'' ''Pulled'' (''pod/'' @ npod) (''Successfully pulled image \"registry.paylane.internal/settle-api:latest\" in 3.1s. Image digest: '' @ DIGEST_180),
          event_of started ''Normal'' ''Started'' (''pod/'' @ npod) ''Started container worker''])
         (zip WRK_OLD WRK_NEW))"

text \<open>The failing liveness probes: one pod after the other, every 6 to 25 seconds during the migration and every 25 to 70 after it.\<close>

definition serving :: "int \<Rightarrow> (string \<times> string \<times> string) list" where
  "serving t = take 2 API_OLD @ take (nat (hpa t)) API_NEW"

definition probe_step :: "draws \<Rightarrow> nat \<Rightarrow> int \<Rightarrow> int" where
  "probe_step d k t =
     1000 * (if t < MIG_COMMIT then randint d (''probe step'', int k) 6 25 else randint d (''probe step'', int k) 25 70)"

definition probe_times :: "draws \<Rightarrow> int list option" where
  "probe_times d = loop_times 500 (probe_step d) (T_ms 14 47 10 0) 0 (T_ms 14 3 4 0)"

definition probe_events :: "nat \<Rightarrow> int \<Rightarrow> event list" where
  "probe_events k t =
     (let pods = serving t; (pod, _, ip) = pods ! (k mod length pods)
      in [if k mod 2 = 0
          then event_of t ''Warning'' ''Unhealthy'' (''pod/'' @ pod) (''Liveness probe failed: Get \"http://'' @ ip
                 @ '':8000/healthz\": context deadline exceeded (Client.Timeout exceeded while awaiting headers)'')
          else event_of t ''Warning'' ''Unhealthy'' (''pod/'' @ pod) ''Liveness probe failed: HTTP probe failed with statuscode: 500'',
          event_of t ''Normal'' ''Killing'' (''pod/'' @ pod) ''Container api failed liveness probe, will be restarted'']
         @ (if T_ms 14 5 0 0 < t \<and> k mod 3 = 0
            then [event_of (t + 1000) ''Warning'' ''BackOff'' (''pod/'' @ pod) ''Back-off restarting failed container api in pod'']
            else []))"

definition probes :: "int list \<Rightarrow> event list" where
  "probes ts = concat (map (\<lambda>(k, t). probe_events k t) (zip [0..<length ts] ts))"

definition later_events :: "event list" where
  "later_events =
     [event_of (T_ms 14 4 40 0) ''Normal'' ''SuccessfulRescale'' ''horizontalpodautoscaler/settle-api'' ''New size: 8; reason: cpu resource utilization (percentage of request) above target'',
      event_of (T_ms 14 5 41 0) ''Normal'' ''SuccessfulRescale'' ''horizontalpodautoscaler/settle-api'' ''New size: 10; reason: cpu resource utilization (percentage of request) above target'',
      event_of (T_ms 14 5 43 0) ''Normal'' ''ScalingReplicaSet'' ''deployment/settle-api'' ''Scaled up replica set settle-api-7c9d8f5b6 to 10'',
      event_of DISK_PRESSURE ''Warning'' ''EvictionThresholdMet'' ''node/node-2'' ''Attempting to reclaim ephemeral-storage'',
      event_of DISK_PRESSURE ''Normal'' ''NodeHasDiskPressure'' ''node/node-2'' ''Node node-2 status is now: NodeHasDiskPressure'']
     @ map (\<lambda>(i, (pod, _, _)). event_of (DISK_PRESSURE + 1000 * (35 + 12 * int i)) ''Warning'' ''Evicted'' (''pod/'' @ pod)
              ''The node was low on resource: ephemeral-storage. Threshold quantity: 10%, available: 9.94%.'')
         (let evicted = filter (\<lambda>(_, node, _). node = ''node-2'') API_NEW in zip [0..<length evicted] evicted)
     @ [event_of (DISK_PRESSURE + 47000) ''Warning'' ''Evicted'' (''pod/'' @ fst (WRK_NEW ! 0)) ''The node was low on resource: ephemeral-storage. Threshold quantity: 10%, available: 9.91%.'',
      event_of (DISK_PRESSURE + 90000) ''Warning'' ''FailedScheduling'' ''pod/settle-api-7c9d8f5b6-c8x2w'' ''0/3 nodes are available: 1 node(s) had untolerated taint {node.kubernetes.io/disk-pressure: }, 2 Insufficient cpu. preemption: 0/3 nodes are available'',
      event_of UNDO ''Normal'' ''ScalingReplicaSet'' ''deployment/settle-api'' ''Scaled up replica set settle-api-5b7f9c6d4 to 5 (rollout undo to revision 17)'',
      event_of (UNDO + 3000) ''Normal'' ''Pulled'' ''pod/settle-api-5b7f9c6d4-n2q8d'' (''Container image \"registry.paylane.internal/settle-api:latest\" pulled. Image digest: '' @ DIGEST_180),
      event_of (UNDO + 11000) ''Normal'' ''ScalingReplicaSet'' ''deployment/settle-worker'' ''Scaled up replica set settle-worker-6f8b7d9c5 to 1 (rollout undo to revision 11)'',
      event_of (UNDO + 14000) ''Normal'' ''Pulled'' ''pod/settle-worker-6f8b7d9c5-b7m2x'' (''Successfully pulled image \"registry.paylane.internal/settle-api:latest\". Image digest: '' @ DIGEST_180),
      event_of RESTART_17 ''Normal'' ''ScalingReplicaSet'' ''deployment/settle-api'' ''Scaled up replica set settle-api-5b7f9c6d4 to 10 (kubectl rollout restart)'',
      event_of (RESTART_17 + 3000) ''Normal'' ''Pulled'' ''pod/settle-api-5b7f9c6d4-k4d9s'' (''Successfully pulled image \"registry.paylane.internal/settle-api:latest\" in 3.4s. Image digest: '' @ DIGEST_173),
      event_of HPA_PATCH ''Normal'' ''SuccessfulRescale'' ''horizontalpodautoscaler/settle-api'' ''New size: 4; reason: All metrics below target (maxReplicas patched to 4)'',
      event_of (T_ms 14 49 12 0) ''Normal'' ''Started'' ''pod/settle-api-5b7f9c6d4-k4d9s'' ''Started container api (Ready)'']"

definition cluster_events :: "draws \<Rightarrow> event list option" where
  "cluster_events d = map_option (\<lambda>ts. rollout_events @ probes ts @ later_events) (probe_times d)"

definition EVENTS_HEADER :: "string list" where
  "EVENTS_HEADER =
     [''# kubectl get events -n settle --sort-by=.lastTimestamp (exported 14:58, merged with node events)'',
      ''LAST SEEN            TYPE      REASON                       OBJECT                                   MESSAGE'']"

definition events_file :: "draws \<Rightarrow> string list option" where
  "events_file d = map_option (\<lambda>es. EVENTS_HEADER @ sort_key (take 20) (map ev_line es)) (cluster_events d)"

subsection \<open>The autoscaler, the pods, the disk\<close>

definition hpa_max :: "int \<Rightarrow> int" where
  "hpa_max t = (if t \<ge> HPA_PATCH then 4 else 10)"

definition hpa_row :: "draws \<Rightarrow> int \<Rightarrow> string" where
  "hpa_row d t =
     (let cpu = (if hhmm t = (13, 58) then ''<unknown>/50%''
                 else if between t (T_ms 14 3 0 0) (T_ms 14 47 0 0) then str_int (randint d (''cpu'', t) 180 420) @ ''%/50%''
                 else str_int (randint d (''cpu'', t) 18 31) @ ''%/50%'')
      in time_of_day t @ ''  settle-api   Deployment/settle-api   '' @ ljust 10 cpu @ '' 4         '' @ ljust 9 (str_int (hpa_max t)) @ '' '' @ str_int (hpa t))"

definition hpa_watch :: "draws \<Rightarrow> string list" where
  "hpa_watch d =
     [''# kubectl -n settle get hpa settle-api -w   (timestamps prefixed by the terminal logger)'',
      ''TIME      NAME         REFERENCE               TARGETS    MINPODS   MAXPODS   REPLICAS'']
     @ map (hpa_row d) (minutes (T_ms 13 55 0 0) (T_ms 14 55 0 0))"

definition api_pod_row :: "draws \<Rightarrow> nat \<Rightarrow> string \<times> string \<times> string \<Rightarrow> string" where
  "api_pod_row d i p =
     (case p of (pod, node, ip) \<Rightarrow>
        ljust 32 pod @ '' '' @ ljust 7 ''0/1'' @ '' ''
        @ ljust 18 ([''CrashLoopBackOff'', ''Running'', ''CrashLoopBackOff''] ! pick d (''pod status'', int i) 3) @ '' ''
        @ str_int (randint d (''pod restarts'', int i) 6 14) @ '' ('' @ str_int (randint d (''restarted'', int i) 5 50) @ ''s ago)  ''
        @ str_int (randint d (''pod age'', int i) 4 10) @ ''m     '' @ ljust 12 ip @ '' '' @ node)"

definition worker_pod_row :: "draws \<Rightarrow> nat \<Rightarrow> string \<times> string \<times> int \<Rightarrow> string" where
  "worker_pod_row d i p =
     (case p of (pod, node, _) \<Rightarrow>
        ljust 32 pod @ '' '' @ ljust 7 ''1/1'' @ '' '' @ ljust 18 ''Running'' @ '' 0               ''
        @ str_int (randint d (''worker age'', int i) 8 9) @ ''m      10.42.'' @ [last node] @ ''.'' @ ljust 3 (str_int (50 + int i)) @ ''    '' @ node)"

definition get_pods :: "draws \<Rightarrow> string list" where
  "get_pods d =
     [''# kubectl -n settle get pods -o wide   (14:12:30)'',
      ''NAME                             READY   STATUS             RESTARTS        AGE     IP           NODE'']
     @ (let pods = take 2 API_OLD @ API_NEW in map (\<lambda>(i, p). api_pod_row d i p) (zip [0..<length pods] pods))
     @ map (\<lambda>(i, p). worker_pod_row d i p) (zip [0..<length WRK_NEW] WRK_NEW)
     @ [''postgres-0                       1/1     Running            0               11d     10.42.3.40   node-3'',
        ''redis-0                          1/1     Running            0               11d     10.42.2.12   node-2'']"

definition DF_TIMES :: "int list" where
  "DF_TIMES = [T_ms 13 30 0 0, T_ms 14 0 0 0, T_ms 14 10 0 0, T_ms 14 20 0 0, T_ms 14 30 0 0, T_ms 14 35 0 0, T_ms 14 50 0 0]"

definition df_block :: "int \<Rightarrow> string list" where
  "df_block t =
     (let free = node2_free t; used = 97.9 - free
      in [''--- '' @ take 5 (time_of_day t) @ '' UTC'',
          ''Filesystem      Size  Used Avail Use% Mounted on'',
          ''/dev/nvme0n1p1   98G   '' @ fixed 1 used @ ''G  '' @ fixed 1 free @ ''G  '' @ fixed 0 (used / 97.9 * 100) @ ''% /''])"

definition df_file :: "string list" where
  "df_file = ''# df -h / on node-2 (collected by node-problem-detector snapshots)'' # concat (map df_block DF_TIMES)"

subsection \<open>The events are of the day, in order, and name pods that serve\<close>

abbreviation ev_in_day :: "event list \<Rightarrow> bool" where
  "ev_in_day \<equiv> list_all (\<lambda>e. in_day (ev_time e))"

lemma ev_time_ev [simp]: "ev_time (event_of t typ reason obj msg) = t"
  by (simp add: event_of_def)

lemma fixed_events_in_day: "ev_in_day rollout_events" "ev_in_day later_events"
  by code_simp+

lemma probes_end:
  assumes "fair d"
  shows "\<exists>ts. probe_times d = Some ts \<and> list_all (\<lambda>u. T_ms 14 3 4 0 \<le> u \<and> u < T_ms 14 47 10 0) ts \<and> sorted_wrt (<) ts"
  unfolding probe_times_def
proof (rule loop_times_ends)
  fix k u
  have "6 \<le> randint d (''probe step'', int k) 6 25" "25 \<le> randint d (''probe step'', int k) 25 70"
    using fair_randint [OF assms] by simp_all
  then show "6000 \<le> probe_step d k u" by (simp add: probe_step_def)
qed (simp_all add: T_ms_def)

lemma probes_in_day:
  assumes "list_all (\<lambda>u. T_ms 14 3 4 0 \<le> u \<and> u < T_ms 14 47 10 0) ts"
  shows "ev_in_day (probes ts)"
proof -
  have "ev_in_day (probe_events k t)" if "T_ms 14 3 4 0 \<le> t" "t < T_ms 14 47 10 0" for k t
    using that by (simp add: probe_events_def Let_def T_ms_def split: prod.split)
  then show ?thesis using assms by (auto simp: probes_def list_all_iff dest!: set_zip_rightD)
qed

lemma cluster_events_in_day:
  assumes "fair d"
  shows "\<exists>es. cluster_events d = Some es \<and> ev_in_day es"
  using probes_end [OF assms] fixed_events_in_day probes_in_day by (auto simp: cluster_events_def)

lemma ev_stamp: "in_day (ev_time e) \<Longrightarrow> take 20 (ev_line e) = ''2026-08-14T'' @ time_of_day (ev_time e) @ ''Z''"
  using length_time_of_day [of "ev_time e"] by (simp add: ev_line_def)

interpretation event_lines: stamped_log "\<lambda>e. in_day (ev_time e)" ev_line "take 20" "\<lambda>e. ev_time e div 1000"
proof unfold_locales
  fix x y :: event
  assume "in_day (ev_time x)" "in_day (ev_time y)"
  then show "(take 20 (ev_line x) \<le> take 20 (ev_line y)) = (ev_time x div 1000 \<le> ev_time y div 1000)"
    using time_of_day_order [of "ev_time x" "ev_time y" "''Z''" "''Z''"] by (auto simp: ev_stamp)
qed

text \<open>A probed pod is one that nginx has as an upstream at that time.\<close>

lemma serving_upstreams: "APPLY \<le> t \<Longrightarrow> api_upstreams t = map (\<lambda>(pod, node, ip). ip) (serving t)"
  by (simp add: api_upstreams_def serving_def)

lemma serving_nonempty: "serving t \<noteq> []"
  by (simp add: serving_def API_OLD_def)

lemma probed_pod_serves: "serving t ! (k mod length (serving t)) \<in> set (serving t)"
  using serving_nonempty [of t] by (intro nth_mem) simp

lemma ev_object_ev [simp]: "ev_object (event_of t typ reason obj msg) = obj"
  by (simp add: event_of_def)

lemma probes_name_serving_pods:
  "list_all (\<lambda>e. ev_object e \<in> (\<lambda>p. ''pod/'' @ fst p) ` set (serving t)) (probe_events k t)"
proof -
  obtain pod node ip where p: "serving t ! (k mod length (serving t)) = (pod, node, ip)" by (cases "serving t ! (k mod length (serving t))") auto
  have "''pod/'' @ fst (pod, node, ip) \<in> (\<lambda>p. ''pod/'' @ fst p) ` set (serving t)"
    by (rule imageI) (use probed_pod_serves [of t k] p in simp)
  then show ?thesis by (simp add: probe_events_def Let_def p)
qed

text \<open>The autoscaler never shows more replicas than its maximum.\<close>

lemma replicas_in_bounds: "list_all (\<lambda>t. 4 \<le> hpa t \<and> hpa t \<le> hpa_max t) (minutes (T_ms 13 55 0 0) (T_ms 14 55 0 0))"
  by code_simp

end
