(* ===== verification/Worker_Log.thy ===== *)
theory Worker_Log
  imports Log_Stamps Evidence_Props
begin

section \<open>The worker log is a chronology\<close>

text \<open>
  Bounds on the times of the entries of the worker log, part by part, and with them the order of
  its file: the entries and the lines of the killed workers, by time.
\<close>

subsection \<open>Times\<close>

definition within_times :: "int \<Rightarrow> int \<Rightarrow> worker_entry list \<Rightarrow> bool" where
  "within_times a b es \<longleftrightarrow> list_all (\<lambda>e. a \<le> x_time e \<and> x_time e \<le> b) es"

lemma within_times_simps [simp]:
  "within_times a b []"
  "within_times a b (e # es) \<longleftrightarrow> a \<le> x_time e \<and> x_time e \<le> b \<and> within_times a b es"
  "within_times a b (es @ es') \<longleftrightarrow> within_times a b es \<and> within_times a b es'"
  by (simp_all add: within_times_def)

lemma within_times_mono: "within_times a b es \<Longrightarrow> a' \<le> a \<Longrightarrow> b \<le> b' \<Longrightarrow> within_times a' b' es"
  unfolding within_times_def by (erule list.pred_mono_strong) auto

lemma x_time_at [simp]: "x_time (entry_at t pod level msg ver) = t"
  by (simp add: entry_at_def)

lemma normal_times: "within_times t (MIG_START + 12) (fst (normal_processing d t pid))"
proof (induction d t pid rule: normal_processing.induct)
  case (1 d t pid)
  show ?case
  proof (cases "t < MIG_START")
    case True
    obtain rest pid' where step: "normal_processing d (t + 250) (pid + 1) = (rest, pid')" by fastforce
    have "within_times t (MIG_START + 12) rest" using "1.IH" [OF True refl refl] step within_times_mono [of "t + 250" _ rest t] by simp
    then show ?thesis unfolding normal_processing.simps [of d t pid] using True step by (simp add: Let_def)
  qed (simp add: normal_processing.simps)
qed

lemma post_bank_times:
  assumes "fair d"
  shows "post_bank d pod n pid t = (es, dup, pid', t') \<Longrightarrow> within_times t t' es \<and> t \<le> t' \<and> t' \<le> t + 320 * int n"
proof (induction n arbitrary: pid t es dup pid' t')
  case (Suc n)
  let ?s = "randint d (''post'', pid) 180 320"
  have s: "180 \<le> ?s" "?s \<le> 320" using fair_randint [OF assms, of 180 320] by simp_all
  obtain es1 dup1 where r: "post_bank d pod n (pid + 1) (t + ?s) = (es1, dup1, pid', t')"
    and es: "es = entry_at t pod ''INFO'' (BankPayoutOk pid (30000 + (pid * 7919) mod 9000)) ''1.7.3'' # es1"
    using Suc.prems by (auto simp: Let_def split: prod.splits)
  from Suc.IH [OF r] s show ?case using within_times_mono [of "t + ?s" t' es1 t t'] by (simp add: es)
qed simp

lemma pre_bank_times: "pre_bank pod n pid t = (es, pid', t') \<Longrightarrow> within_times t t' es \<and> t' = t + 150 * int n"
proof (induction n arbitrary: pid t es pid' t')
  case (Suc n)
  obtain es1 where r: "pre_bank pod n (pid + 1) (t + 150) = (es1, pid', t')" and es: "es = entry_at t pod ''DEBUG'' (CallingBank pid) ''1.7.3'' # es1"
    using Suc.prems by (auto simp: Let_def split: prod.splits)
  have "within_times t t' es1" by (rule within_times_mono [OF conjunct1 [OF Suc.IH [OF r]]]) simp_all
  with Suc.IH [OF r] show ?case by (simp add: es)
qed simp

lemma in_flight_times:
  assumes "fair d"
  shows "in_flight d ws pid t = (es, dup, pid') \<Longrightarrow> within_times t (t + (\<Sum>(pod, n, k) \<leftarrow> ws. 320 * int n + 150 * int k)) es"
proof (induction ws arbitrary: pid t es dup pid')
  case (Cons w ws)
  obtain pod n k where w: "w = (pod, n, k)" by (cases w)
  obtain es1 dup1 pid1 t1 es2 pid2 t2 es3 dup3 where r: "post_bank d pod n pid t = (es1, dup1, pid1, t1)"
    "pre_bank pod k pid1 t1 = (es2, pid2, t2)" "in_flight d ws pid2 t2 = (es3, dup3, pid')" "es = es1 @ es2 @ es3"
    using Cons.prems by (auto simp: w split: prod.splits)
  define later where "later = (\<Sum>(pod, n, k) \<leftarrow> ws. 320 * int n + 150 * int k)"
  have later: "0 \<le> later" unfolding later_def by (rule sum_list_nonneg) auto
  have post: "within_times t t1 es1" "t \<le> t1" "t1 \<le> t + 320 * int n" using post_bank_times [OF assms r(1)] by blast+
  have pre: "within_times t1 t2 es2" "t2 = t1 + 150 * int k" using pre_bank_times [OF r(2)] by blast+
  have rest: "within_times t2 (t2 + later) es3" using Cons.IH [OF r(3)] by (simp only: later_def)
  let ?stop = "t + (320 * int n + 150 * int k + later)"
  have "within_times t ?stop es1" by (rule within_times_mono [OF post(1)]) (use post pre(2) later in linarith)+
  moreover have "within_times t ?stop es2" by (rule within_times_mono [OF pre(1)]) (use post pre(2) later in linarith)+
  moreover have "within_times t ?stop es3" by (rule within_times_mono [OF rest]) (use post pre(2) later in linarith)+
  ultimately show ?case by (simp add: r(4) w later_def)
qed simp

lemma second_times:
  assumes "fair d"
  shows "second_payments d dup t = (es, second, t') \<Longrightarrow> within_times t (t + 300 * int (length dup)) es"
proof (induction dup arbitrary: t es second)
  case (Cons r dup)
  obtain p m t1 q where r: "r = (p, m, t1, q)" by (cases r)
  let ?s = "randint d (''second'', p) 200 300"
  have s: "200 \<le> ?s" "?s \<le> 300" using fair_randint [OF assms, of 200 300] by simp_all
  obtain es1 second1 where n: "second_payments d dup (t + ?s) = (es1, second1, t')"
    and es: "es = entry_at t (pod_of (take 2 WRK_NEW ! pick d (''second'', p) 2)) ''INFO'' (BankPayoutOk p m) ''1.8.0'' # es1"
    using Cons.prems unfolding r by (auto simp: Let_def split: prod.splits)
  from Cons.IH [OF n] s show ?case
    using within_times_mono [of "t + ?s" "t + ?s + 300 * int (length dup)" es1 t "t + 300 * int (length (r # dup))"] by (simp add: es)
qed simp

lemma worker_times:
  assumes "fair d"
  shows "within_times (T_ms 13 30 0 0) (T_ms 14 31 52 0) (fst (worker_entries d))"
proof -
  obtain normal pid where normal: "normal_processing d (T_ms 14 0 41 0) FIRST_PAYOUT_ID = (normal, pid)" by fastforce
  obtain flight dup pid2 where flight: "in_flight d killed_workers pid (MIG_START + 300) = (flight, dup, pid2)" by (metis prod_cases3)
  obtain again second t' where again: "second_payments d dup (T_ms 14 2 52 0 + 1000) = (again, second, t')" by (metis prod_cases3)
  have dup: "length dup = 37"
  proof -
    have "pid = 881542" using first_in_flight [of d] normal by simp
    with in_flight_facts [OF assms flight] killed_ids have "map fst dup = duplicate_ids" by simp
    then have "length dup = length duplicate_ids" by (metis length_map)
    then show ?thesis by (simp add: duplicate_ids_def)
  qed
  have "(\<Sum>(pod, n, k) \<leftarrow> killed_workers. 320 * int n + 150 * int k) = 12290" by (simp add: killed)
  then have n: "within_times (T_ms 13 30 0 0) (T_ms 14 31 52 0) normal" "within_times (T_ms 13 30 0 0) (T_ms 14 31 52 0) flight"
    "within_times (T_ms 13 30 0 0) (T_ms 14 31 52 0) again"
    using within_times_mono [OF normal_times [of "T_ms 14 0 41 0" d FIRST_PAYOUT_ID]] normal
      within_times_mono [OF in_flight_times [OF assms flight]] within_times_mono [OF second_times [OF assms again]] dup
    by (simp_all add: T_ms_def MIG_START_def)
  have t': "T_ms 14 2 53 0 \<le> t' \<and> t' \<le> T_ms 14 2 53 0 + 11100" using second_payments_facts [OF assms again] dup by (simp add: T_ms_def)
  have marked: "within_times (T_ms 13 30 0 0) (T_ms 14 31 52 0)
      (map (\<lambda>(p, m, t1, pod1, t2, pod2). entry_at (MIG_COMMIT + randint d (''marked'', p) 20 400) pod2 ''INFO'' (MarkedPaid p) ''1.8.0'') second)"
  proof -
    have "20 \<le> randint d (''marked'', p) 20 400 \<and> randint d (''marked'', p) 20 400 \<le> 400" for p
      using fair_randint [OF assms, of 20 400] by simp
    then have "T_ms 13 30 0 0 \<le> MIG_COMMIT + randint d (''marked'', p) 20 400 \<and> MIG_COMMIT + randint d (''marked'', p) 20 400 \<le> T_ms 14 31 52 0" for p
      unfolding T_ms_def MIG_COMMIT_def by (smt (verit))
    then show ?thesis by (simp add: within_times_def list_all_iff split_beta)
  qed
  show ?thesis
    using n t' marked normal flight again
    by (simp add: worker_entries_def Let_def WRK_OLD_def WRK_NEW_def T_ms_def)
qed

subsection \<open>The file\<close>

type_synonym worker_item = "worker_entry + string \<times> string \<times> int"

definition item_line :: "worker_item \<Rightarrow> string" where
  "item_line x = (case x of Inl e \<Rightarrow> x_line e | Inr w \<Rightarrow> terminated_line w)"

definition item_time :: "worker_item \<Rightarrow> int" where
  "item_time x = (case x of Inl e \<Rightarrow> x_time e | Inr (pod, node, killed) \<Rightarrow> killed)"

definition item_ok :: "worker_item \<Rightarrow> bool" where
  "item_ok x \<longleftrightarrow> in_day (item_time x) \<and> (case x of Inl e \<Rightarrow> True | Inr (pod, node, killed) \<Rightarrow> killed mod 1000 = 0)"

definition worker_items :: "draws \<Rightarrow> worker_item list" where
  "worker_items d =
     (let es = fst (worker_entries d)
      in map Inl (takeWhile (\<lambda>e. x_ver e \<noteq> ''1.8.0'') es) @ map Inr WRK_OLD @ map Inl (dropWhile (\<lambda>e. x_ver e \<noteq> ''1.8.0'') es))"

lemma item_stamp: "item_ok x \<Longrightarrow> log_key (item_line x) = ''2026-08-14 '' @ with_ms (CHR '','') (item_time x)"
proof -
  have "padded 3 0 = ''000''" by code_simp
  then show "item_ok x \<Longrightarrow> ?thesis"
    using length_with_ms [of "item_time x" "CHR '',''"] length_time_of_day [of "item_time x"]
    by (auto simp: item_ok_def item_line_def item_time_def x_line_def terminated_line_def log_key_def with_ms_def split: sum.splits prod.splits)
qed

interpretation worker_lines: stamped_log item_ok item_line log_key item_time
proof unfold_locales
  fix x y :: worker_item
  assume "item_ok x" "item_ok y"
  then show "(log_key (item_line x) \<le> log_key (item_line y)) = (item_time x \<le> item_time y)"
    using with_ms_order [of "item_time x" "item_time y" _ "[]" "[]"] by (auto simp: item_stamp item_ok_def)
qed

lemma worker_log_sorted:
  assumes "fair d"
  shows "tl (worker_log d) = map item_line (sort_key item_time (worker_items d))"
proof -
  have ok: "list_all item_ok (map Inl es)" if "within_times (T_ms 13 30 0 0) (T_ms 14 31 52 0) es" for es
    using that by (auto simp: within_times_def list_all_iff item_ok_def item_time_def T_ms_def)
  have parts: "within_times (T_ms 13 30 0 0) (T_ms 14 31 52 0) (takeWhile P (fst (worker_entries d)) @ dropWhile P (fst (worker_entries d)))" for P
    using worker_times [OF assms] by (simp only: takeWhile_dropWhile_id)
  have "list_all item_ok (map Inr WRK_OLD)" by (simp add: item_ok_def item_time_def WRK_OLD_def T_ms_def)
  moreover have "list_all item_ok (map Inl (takeWhile P (fst (worker_entries d))))" "list_all item_ok (map Inl (dropWhile P (fst (worker_entries d))))" for P
    using parts [of P] by (auto intro: ok simp only: within_times_simps)
  ultimately have "list_all item_ok (worker_items d)" by (simp only: worker_items_def Let_def list_all_append)
  moreover have "tl (worker_log d) = sort_key log_key (map item_line (worker_items d))"
    by (simp add: worker_log_def worker_items_def Let_def item_line_def comp_def)
  ultimately show ?thesis using worker_lines.chronological by simp
qed

end
