(* ===== verification/Incident_Logs.thy ===== *)
theory Incident_Logs
  imports Nginx_Correct Postgres_Log Cluster_Log Worker_Log "HOL-Library.Multiset"
begin

section \<open>The logs of the incident\<close>

text \<open>
  What the log files of the evidence have in common: each is written by collecting entries and
  sorting their texts, and each is a chronology of exactly the entries that were collected.
\<close>

text \<open>C40. Whatever was drawn, the loops that write the logs of nginx, Postgres, the API pods, the
  cluster's events and the deploy run end without an error, and every file holds, below its header, exactly the
  lines of its entries in chronological order; entries of the same time keep the order in which they were
  written (in the access log and the events, times are those of the second), and a trace stays behind its
  line. The error log of nginx has one line for every request that was answered 502, 503 or 504, with its
  time and its method and path, and no other line about a request (two warnings of the server
  are added).\<close>

theorem logs_are_chronologies:
  assumes "fair d"
  shows "access_log d = Inr (ACCESS_HEADER # map access_line (sort_key (\<lambda>a. ac_time a div 1000) (accesses d)))
    \<and> map (\<lambda>e. (er_time e, er_request e)) (failures d)
        = map (\<lambda>a. (ac_time a, ac_request a)) (filter (\<lambda>a. ac_status a \<in> {502, 503, 504}) (accesses d))
    \<and> mset (error_log d) = mset (map error_line (failures d)) + mset STAPLING
    \<and> (\<exists>es. postgres_entries d = Some es \<and> postgres_log d = Some (PG_HEADER # map pg_line (sort_key pg_time es)))
    \<and> (\<exists>es. api_entries d = Some es \<and> api_log d = Some (API_LOG_HEADER # concat (map api_block (sort_key a_time es))))
    \<and> (\<exists>es. cluster_events d = Some es
         \<and> events_file d = Some (EVENTS_HEADER @ map ev_line (sort_key (\<lambda>e. ev_time e div 1000) es)))
    \<and> tl (worker_log d) = map item_line (sort_key item_time (worker_items d))
    \<and> tl ci_log = map ci_line (sort_key ci_time ci_entries)"
proof (intro conjI)
  show "mset (error_log d) = mset (map error_line (failures d)) + mset STAPLING" by (simp add: error_log_def)
  show "\<exists>es. postgres_entries d = Some es \<and> postgres_log d = Some (PG_HEADER # map pg_line (sort_key pg_time es))"
    using postgres_entries_in_day [OF assms] pg_lines.chronological by (auto simp: postgres_log_def)
  show "\<exists>es. api_entries d = Some es \<and> api_log d = Some (API_LOG_HEADER # concat (map api_block (sort_key a_time es)))"
    using api_log_sorted [OF assms] by blast
  show "\<exists>es. cluster_events d = Some es
      \<and> events_file d = Some (EVENTS_HEADER @ map ev_line (sort_key (\<lambda>e. ev_time e div 1000) es))"
    using cluster_events_in_day [OF assms] event_lines.chronological by (auto simp: events_file_def)
qed (rule access_log_sorted [OF assms] worker_log_sorted [OF assms] failures_are_logged ci_log_sorted)+

theorem logs_are_chronologies_witness:
  "access_log lowest_draws = Inr (ACCESS_HEADER # map access_line (sort_key (\<lambda>a. ac_time a div 1000) (accesses lowest_draws)))
   \<and> (\<exists>es. postgres_entries lowest_draws = Some es \<and> postgres_log lowest_draws = Some (PG_HEADER # map pg_line (sort_key pg_time es)))"
  using logs_are_chronologies [OF lowest_draws_fair] by blast

end
