(* ===== verification/Worker_Main.thy ===== *)
theory Worker_Main
  imports Worker_Props Db
begin

section \<open>A worker process from start to stop: Worker.run, main\<close>

text \<open>
  The parts of the worker process put together: the wait for the database, the first heartbeat,
  the turns of the fetch loop until the stop flag is seen, and the drain. What the signal, the
  pool threads and the other users of Redis do between two turns is given pass by pass.
\<close>

subsection \<open>The loop over its turns\<close>

text \<open>
  Before a turn, \<open>ps_done\<close> pool threads have finished, the signal may have arrived, and Redis was
  changed by others; \<open>ps_reply\<close> says how the fetch of the turn ends.
\<close>

record 'r pass =
  ps_done :: nat
  ps_signal :: bool
  ps_outside :: "'r \<Rightarrow> 'r"
  ps_reply :: reply

definition before_turn :: "'r pass \<Rightarrow> run_state \<Rightarrow> run_state" where
  "before_turn p s = (let s' = (job_done ^^ ps_done p) s in if ps_signal p then on_signal s' else s')"

text \<open>The payloads that were fetched, the last state and Redis; \<open>None\<close> if the passes are used up before the loop ends.\<close>

fun run_loop :: "config \<Rightarrow> 'r redis_api \<Rightarrow> string \<Rightarrow> run_state \<Rightarrow> 'r \<Rightarrow> 'r pass list \<Rightarrow> (payload list \<times> run_state \<times> 'r) option" where
  "run_loop c R wid s r [] = None"
| "run_loop c R wid s r (p # ps) =
     (case run_turn c R wid (ps_reply p) (before_turn p s) (ps_outside p r) of
        (Ends, s', r') \<Rightarrow> Some ([], s', r')
      | (t, s', r') \<Rightarrow> map_option (\<lambda>(fetched, s'', r''). (submitted t @ fetched, s'', r'')) (run_loop c R wid s' r' ps))"

subsection \<open>Worker.run\<close>

text \<open>\<open>worker_id or config.WORKER_ID\<close>.\<close>

definition worker_name :: "config \<Rightarrow> string option \<Rightarrow> string" where
  "worker_name c given = (case given of None \<Rightarrow> WORKER_ID c | Some s \<Rightarrow> if s = [] then WORKER_ID c else s)"

record 'r run_input =
  ri_stop :: "nat \<Rightarrow> bool"
  ri_up :: "nat \<Rightarrow> bool"
  ri_beat :: reply
  ri_now :: real
  ri_passes :: "'r pass list"
  ri_deadline_now :: real
  ri_inflight :: "nat \<Rightarrow> int"
  ri_clock :: "nat \<Rightarrow> real"

text \<open>
  The number of touches of the liveness file during the wait, the payloads fetched, the jobs left in the
  own list, and Redis. The wait returns without an answer of the database only when the stop flag
  is set, and the loop then ends in its first turn. The first heartbeat is not guarded: a Redis error
  in it ends the process.
\<close>

definition run_worker ::
  "nat \<Rightarrow> config \<Rightarrow> 'r redis_api \<Rightarrow> string \<Rightarrow> string \<Rightarrow> 'r run_input \<Rightarrow> 'r \<Rightarrow> (nat \<times> payload list \<times> nat \<times> 'r) res option" where
  "run_worker fuel c R wid version inp r =
     (case wait_for_db fuel (ri_stop inp) (ri_up inp) 30 of
        None \<Rightarrow> None
      | Some (answered, touches, _) \<Rightarrow>
          (let s = \<lparr>m_stop = \<not> answered, m_inflight = 0, m_delay = 1 / 2\<rparr>
           in case perform (ri_beat inp) (\<lambda>r. ((), heartbeat c R wid version (ri_now inp) r)) r of
                (Inl e, _) \<Rightarrow> Some (Inl e)
              | (Inr _, h) \<Rightarrow>
                  (case run_loop c R wid s h (ri_passes inp) of
                     None \<Rightarrow> None
                   | Some (fetched, s', r') \<Rightarrow>
                       map_option (\<lambda>(_, left, r''). Inr (touches, fetched, left, r''))
                         (drain c R wid (ri_deadline_now inp) (ri_inflight inp) (ri_clock inp) r'))))"

text \<open>\<open>main\<close>: the exit code of the probe, or a run.\<close>

datatype 'r ended = Exit int | Ran "(nat \<times> payload list \<times> nat \<times> 'r) res option"

definition worker_main ::
  "string list \<Rightarrow> nat \<Rightarrow> config \<Rightarrow> 'r redis_api \<Rightarrow> string \<Rightarrow> real \<Rightarrow> real option \<Rightarrow> 'r run_input \<Rightarrow> 'r \<Rightarrow> 'r ended" where
  "worker_main argv fuel c R version now alive inp r =
     (if ''--check-alive'' \<in> set argv then Exit (check_alive 60 now alive)
      else Ran (run_worker fuel c R (worker_name c None) version inp r))"

subsection \<open>The loop ends at the signal\<close>

lemma before_turn_stop: "m_stop (before_turn p s) \<longleftrightarrow> ps_signal p \<or> m_stop s"
proof -
  have "m_stop ((job_done ^^ n) s) = m_stop s" for n by (induction n) (simp_all add: job_done_def)
  then show ?thesis by (simp add: before_turn_def Let_def on_signal_def)
qed

lemma ended_turn: "run_turn c R wid rep s r = (t, s', r') \<Longrightarrow> t = Ends \<longleftrightarrow> m_stop s"
  by (auto simp: run_turn_def split: if_splits sum.splits prod.splits option.splits)

lemma run_loop_stopped:
  assumes "m_stop s"
  shows "run_loop c R wid s r (p # ps) = Some ([], before_turn p s, ps_outside p r)"
  using assms before_turn_stop [of p s] by (simp add: run_turn_def)

text \<open>The loop ends in the first pass that sees the flag, and has fetched at most one job in each earlier pass.\<close>

lemma run_loop_ends:
  assumes "list_all (\<lambda>p. \<not> ps_signal p) ps" and "ps_signal q" and "\<not> m_stop s"
  shows "\<exists>fetched s' r'. run_loop c R wid s r (ps @ q # qs) = Some (fetched, s', r') \<and> length fetched \<le> length ps"
  using assms(1,3)
proof (induction ps arbitrary: s r)
  case Nil
  have "run_turn c R wid (ps_reply q) (before_turn q s) (ps_outside q r) = (Ends, before_turn q s, ps_outside q r)"
    using assms(2) before_turn_stop [of q s] by (simp add: run_turn_def)
  then show ?case by simp
next
  case (Cons p ps)
  obtain t s1 r1 where t: "run_turn c R wid (ps_reply p) (before_turn p s) (ps_outside p r) = (t, s1, r1)"
    by (cases "run_turn c R wid (ps_reply p) (before_turn p s) (ps_outside p r)") auto
  have running: "\<not> m_stop (before_turn p s)" using Cons.prems before_turn_stop [of p s] by simp
  then have "t \<noteq> Ends" "\<not> m_stop s1" using ended_turn [OF t] run_turn_cases [OF t] by simp_all
  moreover have "length (submitted t) \<le> 1" by (simp add: submitted_def split: turn.split)
  moreover obtain fetched s' r' where "run_loop c R wid s1 r1 (ps @ q # qs) = Some (fetched, s', r')" "length fetched \<le> length ps"
    using Cons.IH [of s1 r1] Cons.prems \<open>\<not> m_stop s1\<close> by auto
  ultimately show ?case using t by (cases t) auto
qed

subsection \<open>The run ends\<close>

text \<open>
  Once the wait has ended and a pass brings the signal, the run ends: the own lease is gone, the lists
  are those the loop left, and a worker that was stopped while it waited has fetched nothing.
\<close>

lemma run_worker_ends:
  assumes "redis_service R" and beat: "ri_beat inp = Done"
    and wait: "\<forall>j < n. \<not> ri_stop inp j \<and> \<not> ri_up inp j" "ri_stop inp n \<or> ri_up inp n" "n < fuel"
    and passes: "ri_passes inp = ps @ q # qs" "list_all (\<lambda>p. \<not> ps_signal p) ps" "ps_signal q"
    and clock: "\<And>i. ri_clock inp i \<ge> ri_deadline_now inp + real i / 5" "0 \<le> WORKER_SHUTDOWN_TIMEOUT c"
  shows "\<exists>touches fetched left r'. run_worker fuel c R wid version inp r = Some (Inr (touches, fetched, left, r'))
    \<and> length fetched \<le> length ps \<and> (ri_stop inp n \<longrightarrow> fetched = [])
    \<and> left = length (lrange R r' (processing_key wid)) \<and> (\<forall>t. \<not> lease_alive R wid t r')"
proof -
  define s where "s = \<lparr>m_stop = ri_stop inp n, m_inflight = 0, m_delay = 1 / 2 :: real\<rparr>"
  define h where "h = heartbeat c R wid version (ri_now inp) r"
  have w: "\<exists>touches slept. wait_for_db fuel (ri_stop inp) (ri_up inp) 30 = Some (\<not> ri_stop inp n, touches, slept)"
  proof -
    have "wait_loop fuel (ri_stop inp) (ri_up inp) 30 (backoff_delay 30 0) 0 [] =
        Some (\<not> ri_stop inp (0 + n), if ri_stop inp (0 + n) then 0 + n else 0 + n + 1, [] @ map (backoff_delay 30) [0..<0 + n])"
      by (rule wait_loop_result) (use wait in simp_all)
    then show ?thesis by (simp add: wait_for_db_def backoff_delay_def)
  qed
  have "\<exists>fetched s' r1. run_loop c R wid s h (ri_passes inp) = Some (fetched, s', r1) \<and> length fetched \<le> length ps \<and> (ri_stop inp n \<longrightarrow> fetched = [])"
  proof (cases "ri_stop inp n")
    case True
    obtain p ps' where "ri_passes inp = p # ps'" using passes(1) by (cases ps) auto
    then show ?thesis using run_loop_stopped [of s c R wid h p ps'] True by (simp add: s_def)
  next
    case False
    then show ?thesis using run_loop_ends [OF passes(2,3), of s c R wid h qs] passes(1) by (auto simp: s_def)
  qed
  then obtain fetched s' r1 where l: "run_loop c R wid s h (ri_passes inp) = Some (fetched, s', r1)"
    "length fetched \<le> length ps" "ri_stop inp n \<longrightarrow> fetched = []" by blast
  obtain r' where f: "drain_finish R wid r1 = (length (lrange R r1 (processing_key wid)), r')" by (simp add: drain_finish_def)
  from drain_result [of "ri_deadline_now inp" "ri_clock inp" c R wid "ri_inflight inp" r1, OF clock]
  obtain i where "drain c R wid (ri_deadline_now inp) (ri_inflight inp) (ri_clock inp) r1 = Some (i, length (lrange R r1 (processing_key wid)), r')"
    unfolding f by blast
  moreover note lease = redis_service.drain_finish_lease [OF assms(1) f]
  ultimately show ?thesis using w l beat by (force simp: run_worker_def Let_def s_def [symmetric] h_def [symmetric])
qed

end
