(* ===== verification/Process_Settings.thy ===== *)
theory Process_Settings
  imports Budget Db
begin

section \<open>The server's settings, and what the connection budget makes of them\<close>

text \<open>
  \<^verbatim>\<open>app/gunicorn.conf.py\<close> and the version of the package: constants and environment variables, as
  \<^verbatim>\<open>config.py\<close> reads them. The budget script reads the same variables from the manifests; where a
  container gets them explicitly, the budget counts the processes that run and the connections their
  pools admit.
\<close>

subsection \<open>Settings\<close>

text \<open>\<open>os.getenv("SETTLE_VERSION") or "1.9.0"\<close>.\<close>

definition VERSION :: "environ \<Rightarrow> string" where
  "VERSION env = (let s = getenv env ''SETTLE_VERSION'' [] in if s = [] then ''1.9.0'' else s)"

record gunicorn =
  gn_bind :: string
  gn_workers :: int
  gn_worker_class :: string
  gn_timeout :: int
  gn_graceful_timeout :: int
  gn_keepalive :: int
  gn_worker_tmp_dir :: string
  gn_max_requests :: int
  gn_max_requests_jitter :: int
  gn_accesslog :: "string option"
  gn_errorlog :: string
  gn_loglevel :: string

definition load_gunicorn :: "environ \<Rightarrow> gunicorn res" where
  "load_gunicorn env =
     bind_res (int_setting env ''GUNICORN_WORKERS'' 4) (\<lambda>workers.
       Inr \<lparr>gn_bind = ''0.0.0.0:8000'', gn_workers = workers, gn_worker_class = ''uvicorn.workers.UvicornWorker'',
             gn_timeout = 30, gn_graceful_timeout = 25, gn_keepalive = 75, gn_worker_tmp_dir = ''/dev/shm'',
             gn_max_requests = 5000, gn_max_requests_jitter = 500, gn_accesslog = None, gn_errorlog = ''-'',
             gn_loglevel = map lower_char (getenv env ''LOG_LEVEL'' ''info'')\<rparr>)"

text \<open>The hook of a dead worker process, and the mode of the metrics: \<open>mark\<close> is \<open>mark_process_dead\<close>.\<close>

definition MULTIPROC :: "environ \<Rightarrow> bool" where
  "MULTIPROC env \<longleftrightarrow> getenv env ''PROMETHEUS_MULTIPROC_DIR'' [] \<noteq> []"

definition child_exit :: "environ \<Rightarrow> (int \<Rightarrow> 'm \<Rightarrow> 'm) \<Rightarrow> int \<Rightarrow> 'm \<Rightarrow> 'm" where
  "child_exit env mark pid m = (if MULTIPROC env then mark pid m else m)"

definition gauge_mode :: "environ \<Rightarrow> dict" where
  "gauge_mode env = (if MULTIPROC env then [(''multiprocess_mode'', JStr ''livesum'')] else [])"

text \<open>The processes of a container: a container with a command of its own runs one, gunicorn its workers.\<close>

definition processes :: "json \<Rightarrow> gunicorn \<Rightarrow> int" where
  "processes cmd g = (if py_truth cmd then 1 else gn_workers g)"

subsection \<open>The budget reads what the service reads\<close>

text \<open>The variables of the budget, set to a non-empty text both in the manifest and in the container.\<close>

definition explicitly_set :: "json \<Rightarrow> configmaps \<Rightarrow> environ \<Rightarrow> string \<Rightarrow> bool" where
  "explicitly_set c cms env name \<longleftrightarrow>
     (case env name of None \<Rightarrow> False | Some s \<Rightarrow> s \<noteq> [] \<and> env_value c name cms = Inr (Some (JStr s)))"

lemma env_int_setting:
  "explicitly_set c cms env name \<Longrightarrow> env_int c name cms dflt = int_setting env name dflt'"
  by (auto simp: explicitly_set_def env_int_def int_setting_def getenv_def split: option.splits)

lemma load_config_pool:
  "load_config env = Inr cfg \<Longrightarrow>
   int_setting env ''DB_POOL_SIZE'' 2 = Inr (DB_POOL_SIZE cfg) \<and> int_setting env ''DB_MAX_OVERFLOW'' 0 = Inr (DB_MAX_OVERFLOW cfg)"
  by (auto simp: load_config_def bind_res_Inr)

lemma engine_limit:
  "is_postgres (DATABASE_URL cfg) \<Longrightarrow> pool_limit (snd (make_engine cfg None)) = Some (DB_POOL_SIZE cfg + DB_MAX_OVERFLOW cfg)"
  by (simp add: make_engine_def pool_limit_def dict_get_def)


text \<open>A deployment of the API as the manifests have it: the workers through \<open>envFrom\<close>, the pool through references.\<close>

definition api_container :: json where
  "api_container = JObj
     [(''envFrom'', JList [JObj [(''configMapRef'', JObj [(''name'', JStr ''settle-config'')])]]),
      (''env'', JList
        [JObj [(''name'', JStr ''DATABASE_URL''), (''valueFrom'', JObj [(''secretKeyRef'', JObj [(''name'', JStr ''settle-db'')])])],
         JObj [(''name'', JStr ''DB_POOL_SIZE''), (''valueFrom'', JObj [(''configMapKeyRef'', JObj [(''name'', JStr ''settle-config''), (''key'', JStr ''API_DB_POOL_SIZE'')])])],
         JObj [(''name'', JStr ''DB_MAX_OVERFLOW''), (''valueFrom'', JObj [(''configMapKeyRef'', JObj [(''name'', JStr ''settle-config''), (''key'', JStr ''API_DB_MAX_OVERFLOW'')])])]])]"

definition api_deployment :: json where
  "api_deployment = JObj [(''kind'', JStr ''Deployment''), (''metadata'', JObj [(''name'', JStr ''settle-api'')]),
     (''spec'', JObj [(''replicas'', JInt 2), (''strategy'', JObj [(''rollingUpdate'', JObj [(''maxSurge'', JInt 1)])]),
        (''template'', JObj [(''spec'', JObj [(''containers'', JList [api_container])])])])]"

definition settle_config :: "(string \<times> json) list \<Rightarrow> configmaps" where
  "settle_config kvs = [(''settle-config'', JObj (kvs @ [(''API_DB_POOL_SIZE'', JStr ''2''), (''API_DB_MAX_OVERFLOW'', JStr ''0'')]))]"

definition api_row :: "int \<Rightarrow> row" where
  "api_row n = \<lparr>b_name = JStr ''settle-api'', b_base = 2, b_surge = 1, b_pods = 4, b_procs = n, b_pool = 2, b_overflow = 0, b_conns = 8 * n\<rparr>"

lemma api_counted: "deployment_row (settle_config [(''GUNICORN_WORKERS'', JStr ''4'')]) [] api_deployment = Inr (Some (api_row 4))"
  by code_simp

definition api_environ :: environ where
  "api_environ = [''GUNICORN_WORKERS'' \<mapsto> ''4'', ''DB_POOL_SIZE'' \<mapsto> ''2'', ''DB_MAX_OVERFLOW'' \<mapsto> ''0'']"

lemma api_environ_loaded: "load_config api_environ = Inr default_config" "\<exists>g. load_gunicorn api_environ = Inr g \<and> gn_workers g = 4"
proof -
  have "int_setting api_environ ''DB_POOL_SIZE'' 2 = Inr 2" "int_setting api_environ ''DB_MAX_OVERFLOW'' 0 = Inr 0"
    "int_setting api_environ ''GUNICORN_WORKERS'' 4 = Inr 4" by code_simp+
  then show "load_config api_environ = Inr default_config" "\<exists>g. load_gunicorn api_environ = Inr g \<and> gn_workers g = 4"
    by (simp_all add: load_config_def load_gunicorn_def default_config_def int_setting_default float_setting_def
        worker_id_setting_def getenv_def api_environ_def)
qed


text \<open>
  Without GUNICORN_WORKERS the budget counts one process, and gunicorn starts four: the row has a quarter of
  the connections the pods can hold.
\<close>

lemma default_workers_are_missed:
  "deployment_row (settle_config []) [] api_deployment = Inr (Some (api_row 1))"
  "\<exists>g. load_gunicorn (api_environ (''GUNICORN_WORKERS'' := None)) = Inr g \<and> processes JNull g = 4"
  by code_simp (simp add: load_gunicorn_def processes_def int_setting_default)

end
