(* ===== verification/Gate_Requests.thy ===== *)
theory Gate_Requests
  imports Release Json_Text
begin

section \<open>What the release gate sends, and where the service routes it\<close>

text \<open>
  The requests of \<^verbatim>\<open>scripts/ci/verify_release.py\<close> with their headers and bodies, against the routes
  that \<^verbatim>\<open>app/settle/api.py\<close> declares. Routing itself is FastAPI's: the first route in the order
  of declaration whose method and path fit, where a parameter stands for one non-empty segment.
\<close>

subsection \<open>The requests\<close>

definition INGRESS :: "environ \<Rightarrow> string" where
  "INGRESS env = getenv env ''INGRESS_URL'' ''http://settle.localtest.me:8088''"

definition HOST :: "environ \<Rightarrow> string" where
  "HOST env = getenv env ''INGRESS_HOST'' ''settle.localtest.me''"

record gate_request =
  gr_method :: string
  gr_path :: string
  gr_body :: "json option"

record wire_request =
  wr_url :: string
  wr_method :: string
  wr_headers :: "(string \<times> string) list"
  wr_data :: "string option"

text \<open>What \<open>http\<close> hands to \<open>urlopen\<close>; \<open>bits\<close> are the twelve hexadecimal digits drawn for the request id.\<close>

definition wire :: "environ \<Rightarrow> string \<Rightarrow> gate_request \<Rightarrow> wire_request" where
  "wire env bits q =
     \<lparr>wr_url = INGRESS env @ gr_path q, wr_method = gr_method q,
      wr_headers = [(''Host'', HOST env), (''Content-Type'', ''application/json''), (''X-Request-ID'', ''verify-'' @ bits)],
      wr_data = map_option (dumps None 0) (gr_body q)\<rparr>"

definition list_request :: gate_request where
  "list_request = \<lparr>gr_method = ''GET'', gr_path = ''/settlements?limit=20'', gr_body = None\<rparr>"

definition create_request :: "int \<Rightarrow> int \<Rightarrow> int \<Rightarrow> gate_request" where
  "create_request merchant day amount =
     \<lparr>gr_method = ''POST'', gr_path = ''/settlements'',
      gr_body = Some (JObj [(''merchant_id'', JInt merchant), (''settlement_date'', JStr (date_iso day)), (''amount_minor'', JInt amount)])\<rparr>"

text \<open>The id comes from the answer to the creation, an integer for every answer of the service (\<open>created_id\<close>).\<close>

definition get_request :: "int \<Rightarrow> gate_request" where
  "get_request sid = \<lparr>gr_method = ''GET'', gr_path = ''/settlements/'' @ str_int sid, gr_body = None\<rparr>"

definition execute_request :: "int \<Rightarrow> gate_request" where
  "execute_request sid = \<lparr>gr_method = ''POST'', gr_path = ''/settlements/'' @ str_int sid @ ''/execute'', gr_body = None\<rparr>"

text \<open>
  The requests of pass \<open>k\<close> of the loop: the date moves on by a day in every pass; \<open>created\<close> is the id
  of the new settlement if the creation succeeded, \<open>few\<close> says that fewer than three samples were taken.
\<close>

definition journey_requests :: "int \<Rightarrow> nat \<Rightarrow> int \<Rightarrow> int \<Rightarrow> int option \<Rightarrow> bool \<Rightarrow> gate_request list" where
  "journey_requests first_day k merchant amount created few =
     [list_request, create_request merchant (first_day + int k) amount]
     @ (case created of None \<Rightarrow> [] | Some sid \<Rightarrow> get_request sid # (if few then [execute_request sid] else []))"

subsection \<open>The routes\<close>

text \<open>The decorators, in the order of declaration: method and path.\<close>

definition ROUTES :: "(string \<times> string) list" where
  "ROUTES =
     [(''GET'', ''/livez''), (''GET'', ''/readyz''), (''GET'', ''/healthz''), (''GET'', ''/healthz/deps''), (''GET'', ''/metrics''),
      (''GET'', ''/settlements''), (''GET'', ''/settlements/{settlement_id}''), (''POST'', ''/settlements''),
      (''POST'', ''/settlements/{settlement_id}/execute''), (''GET'', ''/reports/daily'')]"

fun segments :: "string \<Rightarrow> string \<Rightarrow> string list" where
  "segments seg [] = [seg]"
| "segments seg (c # s) = (if c = CHR ''/'' then seg # segments [] s else segments (seg @ [c]) s)"

definition fits :: "string \<Rightarrow> string \<Rightarrow> bool" where
  "fits t p = (if t \<noteq> [] \<and> hd t = CHR ''{'' then p \<noteq> [] else t = p)"

definition route_for :: "string \<Rightarrow> string \<Rightarrow> string option" where
  "route_for method url_path =
     (let p = segments [] (takeWhile (\<lambda>c. c \<noteq> CHR ''?'') url_path)
      in map_option snd (find (\<lambda>(m, t). m = method \<and> list_all2 fits (segments [] t) p) ROUTES))"

lemma segments_plain: "list_all (\<lambda>c. c \<noteq> CHR ''/'') s \<Longrightarrow> segments seg (s @ u) = segments (seg @ s) u"
  by (induction s arbitrary: seg) auto

lemma id_plain: "list_all (\<lambda>c. c \<noteq> CHR ''/'' \<and> c \<noteq> CHR ''?'') (str_int i)"
proof -
  have "list_all (\<lambda>c. c \<noteq> CHR ''/'' \<and> c \<noteq> CHR ''?'') (str_nat n)" for n
    using str_nat_all_digits by (rule list.pred_mono_strong) (auto simp: is_digit_def)
  then show ?thesis by (simp add: str_int_def)
qed

lemma id_segments:
  "segments [] (''/settlements/'' @ str_int i) = [[], ''settlements'', str_int i]"
  "segments [] (''/settlements/'' @ str_int i @ ''/execute'') = [[], ''settlements'', str_int i, ''execute'']"
proof -
  have "list_all (\<lambda>c. c \<noteq> CHR ''/'') (str_int i)" using id_plain by (rule list.pred_mono_strong) simp
  from segments_plain [OF this, of "[]" "[]"] segments_plain [OF this, of "[]" "''/execute''"]
  show "segments [] (''/settlements/'' @ str_int i) = [[], ''settlements'', str_int i]"
    "segments [] (''/settlements/'' @ str_int i @ ''/execute'') = [[], ''settlements'', str_int i, ''execute'']" by simp_all
qed

lemma id_query: "takeWhile (\<lambda>c. c \<noteq> CHR ''?'') (''/settlements/'' @ str_int i) = ''/settlements/'' @ str_int i"
    "takeWhile (\<lambda>c. c \<noteq> CHR ''?'') (''/settlements/'' @ str_int i @ ''/execute'') = ''/settlements/'' @ str_int i @ ''/execute''"
  using id_plain [of i] by (auto simp: takeWhile_eq_all_conv list_all_iff)

text \<open>Each request of a journey reaches the endpoint whose answer the gate takes it for.\<close>

lemma gate_requests_routed:
  "route_for (gr_method list_request) (gr_path list_request) = Some ''/settlements''"
  "route_for (gr_method (create_request m n a)) (gr_path (create_request m n a)) = Some ''/settlements''"
  "route_for (gr_method (get_request i)) (gr_path (get_request i)) = Some ''/settlements/{settlement_id}''"
  "route_for (gr_method (execute_request i)) (gr_path (execute_request i)) = Some ''/settlements/{settlement_id}/execute''"
proof -
  have ne: "str_int i \<noteq> []" by (simp add: str_int_def)
  show "route_for (gr_method list_request) (gr_path list_request) = Some ''/settlements''" by code_simp
  show "route_for (gr_method (create_request m n a)) (gr_path (create_request m n a)) = Some ''/settlements''"
    unfolding create_request_def by code_simp
  show "route_for (gr_method (get_request i)) (gr_path (get_request i)) = Some ''/settlements/{settlement_id}''"
    unfolding route_for_def get_request_def gate_request.simps id_query id_segments Let_def
    using ne by (simp add: ROUTES_def fits_def)
  show "route_for (gr_method (execute_request i)) (gr_path (execute_request i)) = Some ''/settlements/{settlement_id}/execute''"
    unfolding route_for_def execute_request_def gate_request.simps id_query id_segments Let_def
    using ne by (simp add: ROUTES_def fits_def)
qed

text \<open>The service keeps the request id of the gate, and reads the document that the gate sent.\<close>

lemma gate_request_id:
  "q_request_id req = map_of (wr_headers (wire env bits q)) ''X-Request-ID'' \<Longrightarrow> request_id_of req uuid = ''verify-'' @ bits"
  by (simp add: wire_def request_id_of_def)

lemma gate_body_is_read: "gr_body q = Some v \<Longrightarrow> json_ok v \<Longrightarrow> map_option loads (wr_data (wire env bits q)) = Some (Inr v)"
  by (simp add: wire_def loads_dumps)

lemma create_body_ok: "\<exists>v. gr_body (create_request m n a) = Some v \<and> json_ok v"
  by (simp add: create_request_def)

end
