(* ===== verification/Spec2Isabelle.thy ===== *)
theory Spec2Isabelle
  imports Process_Correct Worker_Props Protocol Db Logs Migrate_Correct Lint Expand Budget Release Replay_Evidence Json_Text Dashboard Incident_Logs Worker_Main Process_Settings Gate_Requests
begin

text \<open>
  The verification of settle: a service that accepts settlements over HTTP, queues a payout job
  for each executed one in Redis, and pays the payouts through a partner bank from worker
  processes. This theory imports the whole development and holds the properties that span its
  components. Paths are relative to the repository's root.

  \<^bold>\<open>The program and the theories.\<close>
  \<^item> Prelude: JSON values, exceptions as values, the outcome of a call to an outside service
    (\<open>Done\<close>, \<open>Refused\<close> before its effect, \<open>Lost\<close> after it), Python's \<open>int\<close>, \<open>str\<close> and \<open>strip\<close>.
    Numbers: \<open>float()\<close>, \<open>repr\<close>, fixed-point formats, rounding, dates. Json\_Text: the texts that
    \<open>json.dumps\<close> writes and \<open>json.loads\<close> reads. Csv: \<open>csv.writer\<close> and \<open>csv.reader\<close>.
  \<^item> Config (\<^verbatim>\<open>app/settle/config.py\<close>), Queue (\<^verbatim>\<open>queue.py\<close>, with the contract \<open>redis_service\<close> of
    the Redis commands the code uses), Store (the tables and constraints of
    \<^verbatim>\<open>migrations/0007\<close> and later that settle reads and writes), Metrics (\<^verbatim>\<open>metrics.py\<close>), Db
    (\<^verbatim>\<open>db.py\<close>), Logs (\<^verbatim>\<open>logs.py\<close>), Process\_Settings (\<^verbatim>\<open>app/gunicorn.conf.py\<close>, the version).
  \<^item> Bank (\<^verbatim>\<open>bank.py\<close>: the request, its headers and the classification of answers) and Bankmock
    (\<^verbatim>\<open>app/bankmock/main.py\<close>: ledger and idempotency keys).
  \<^item> Payout (\<^verbatim>\<open>worker.py\<close> from \<open>claim\<close> to \<open>Worker.process\<close>) and Worker (recovery, promotion,
    heartbeat, housekeeping, main loop, drain); Worker\_Loop makes the main loop a step relation,
    Worker\_Main puts a run of the process together, from the wait for the database to the drain.
  \<^item> Api (\<^verbatim>\<open>api.py\<close>: middleware, error handler, probes, settlement endpoints); Api\_Types: the
    types of its answers.
  \<^item> System: API requests, worker threads in atomic pieces, crashes, rescues, promotions and
    operator actions as one transition relation \<open>sys_step\<close> on database, Redis and bank;
    Scenario is a concrete run of it with a crash between payment and record.
  \<^item> Protocol: the abstract payout protocol and the map \<open>stage_of\<close> from the system to it.
  \<^item> Migrate (\<^verbatim>\<open>migrate.py\<close>), Lint (\<^verbatim>\<open>scripts/lint_migrations.py\<close>), Expand (the trigger of
    \<^verbatim>\<open>migrations/0008\<close> and the backfill of \<^verbatim>\<open>0010\<close>), Budget (\<^verbatim>\<open>scripts/check_db_budget.py\<close>),
    Verify (\<^verbatim>\<open>scripts/ci/verify_release.py\<close>), Gate\_Requests (what the gate sends) and
    Release (the gate against the service it asks),
    Dashboard (\<^verbatim>\<open>tools/gen_dashboard.py\<close>).
  \<^item> \<^verbatim>\<open>tools/replay_alerts.py\<close>: Replay (the rules), Replay\_Files (reading the files, the table).
    \<^verbatim>\<open>tools/reconstruct_evidence.py\<close>: Evidence (timeline, series, worker log, finance extract),
    Evidence\_Files (the metrics and finance files as texts), Nginx\_Log, Postgres\_Log, Api\_Log, Ci\_Log,
    Cluster\_Log (events, autoscaler, pods, disk); Log\_Stamps has what the logs share.

  The state of a component is a record or a value passed through its operations; what a call to
  Postgres, Redis or the bank did, the clock and fresh identifiers are arguments, so a theorem
  about all of them covers every pattern of failures.

  \<^bold>\<open>What the lemmas show.\<close>
  \<^item> Payout\_Correct, System\_Correct, System\_Inv, System\_Safety: a payout row only evolves
    (\<open>row_le\<close>), each piece of a thread and each step of the system keeps \<open>sys_inv\<close>, and
    \<open>reachable_inv\<close> carries it to all reachable states. From it follow the properties of this
    theory: no payout reference is paid twice, what is recorded was paid, what is paid was owed,
    and an accepted payout is not lost.
  \<^item> Protocol: the system refines the protocol owed, started, charged, recorded.
  \<^item> Process\_Correct: what \<open>process\<close> does on each branch, and the retry horizon.
    Worker\_Correct, Housekeeping, Worker\_Props: recovery, leases, promotion, the main loop, the
    drain, and which payload ends the housekeeping thread.
  \<^item> Api\_Correct: execution at most once, the list, the report, the answers of the middleware.
  \<^item> Migrate\_Correct: the splitter against a grammar of tokens, atomic files, prefixes, the end of
    every run. Lint: the pattern matcher against a declarative meaning of the patterns.
  \<^item> Json\_Text, Config, Csv: what is written is read back. Process\_Settings: the connection budget
    counts the processes and pools that the settings give. Dashboard: the panels ask for samples that exist.
  \<^item> Evidence\_Props, Burn\_Rate, Replay\_Evidence: the alert replay on the generated files, end to end,
    and the double payments of the evidence. Nginx\_Correct, Worker\_Log, Incident\_Logs: the logs are
    chronologies of their entries, and the two logs of nginx agree.

  \<^bold>\<open>Interfaces.\<close> \<open>redis_service\<close> (Queue) is interpreted by an in-memory store, the contract of a
  bank with idempotency keys \<open>idempotent_bank\<close> (Bankmock) by the bank mock; \<open>payout_system\<close>
  (Protocol) is a Redis with a configuration, and a \<open>simulation\<close> of the protocol. A log whose
  lines are sorted by their stamps is a \<open>stamped_log\<close> (Log\_Stamps), interpreted by the logs of
  Postgres, the API, the workers, the deploy run and the cluster's events. The client's
  lemmas are proved once inside these locales.

  \<^bold>\<open>Loops and fuel.\<close> Loops with a decreasing measure are \<open>function\<close>s with their termination proof
  (the statement splitter, \<open>allowed\<close>, \<open>minutes\<close>, the loop before the migration). Loops that
  wait for an outside event take fuel: the recovery of a list gets its length plus one, which
  always suffices; the wait for the advisory lock ends within 61 rounds of two seconds, the poll
  of the payouts within 30, the drain within the shutdown timeout in steps of a fifth of a
  second; the wait for the database ends when the database answers or the stop flag is set. The
  loops in time of the evidence (\<open>loop_times\<close>) advance by at least 300 ms, 6 s and 20 s over 45 minutes,
  so 9000, 500 and 200 turns suffice. Each is a theorem that the loop returns, under the clock's advance by at least the sleeps.

  \<^bold>\<open>Approximations.\<close> Floating point numbers are reals. Texts held in Redis are compared as the
  documents they hold. Postgres is modelled for the statements of the code, each transaction
  atomic; a float bound to a bigint is taken to be refused.

  \<^bold>\<open>Not modelled.\<close> The routing and decoding of FastAPI, the registry and the rendering of the
  Prometheus client (\<^verbatim>\<open>metrics.render\<close>), gunicorn itself, the creation of threads and of the
  metrics server, and command line parsing: they only call libraries. Of the evidence generator the
  captures that are one fixed text (\<^verbatim>\<open>describe\<close>, \<^verbatim>\<open>rollout history\<close>, \<^verbatim>\<open>du\<close>, \<^verbatim>\<open>dmesg\<close>, Redis, the
  notes, the README). Kubernetes manifests, Terraform and shell scripts are configuration.
\<close>

section \<open>Properties of the whole system\<close>

subsection \<open>Money moves at most once\<close>

text \<open>C1. In every reachable state of the system (any interleaving of API requests, worker
  threads, crashes, lost answers, recoveries from live or dead workers, promotions and
  re-queued dead letters) the bank's ledger holds no payout reference twice: the
  reconciliation endpoint reports no duplicate.\<close>

theorem paid_at_most_once:
  assumes "redis_service R" and "stored R r0 = {}" and "reachable c R ms r0 s"
  shows "duplicates (sy_bank s) = []"
  using redis_service.reachable_inv [OF assms(1) assms(3) assms(2)]
  by (simp add: sys_inv_def bank_ok_def duplicates_none)

theorem paid_at_most_once_witness: "duplicates (sy_bank sc12) = []"
  by (rule paid_at_most_once [OF mem.redis_service_axioms mem_empty_stored sc12_reachable])

subsection \<open>What is paid was owed, what is recorded was paid\<close>

text \<open>C3. A payout row in state \<open>paid\<close> is backed by the ledger: the bank holds an entry, booked
  under the idempotency key of the row, with the payout's reference, merchant, amount and
  currency, and its bank reference is the one the row records.\<close>

theorem paid_is_in_the_ledger:
  assumes "redis_service R" and "stored R r0 = {}" and "reachable c R ms r0 s"
    and "p \<in> set (payouts (sy_db s))" and "p_state p = ''paid''"
  shows "\<exists>k e. p_key p = Some k \<and> booked (sy_bank s) k = Some e \<and> e \<in> set (ledger (sy_bank s))
    \<and> p_bank_ref p = Some (e_bank_ref e) \<and> e_reference e = payout_reference (JInt (p_id p))
    \<and> e_merchant e = p_merchant p \<and> e_amount e = p_amount p \<and> e_currency e = p_currency p"
  by (rule paid_row_booked [OF redis_service.reachable_inv [OF assms(1) assms(3) assms(2)] assms(4,5)])

theorem paid_is_in_the_ledger_witness:
  "\<exists>k e. p_key sc_paid = Some k \<and> booked (sy_bank sc12) k = Some e \<and> e \<in> set (ledger (sy_bank sc12))
    \<and> p_bank_ref sc_paid = Some (e_bank_ref e) \<and> e_reference e = payout_reference (JInt (p_id sc_paid))
    \<and> e_merchant e = p_merchant sc_paid \<and> e_amount e = p_amount sc_paid \<and> e_currency e = p_currency sc_paid"
  by (rule paid_is_in_the_ledger [OF mem.redis_service_axioms mem_empty_stored sc12_reachable])
     (simp_all add: sc12_def sc_sys_def sc_db_def sc_paid_def)

text \<open>C4. The bank is never paid for nothing: every entry of its ledger carries the reference,
  merchant, amount and currency of a payout row that holds its key, and that payout was made
  from an executing settlement with the same merchant, amount and currency.\<close>

theorem ledger_entries_are_owed:
  assumes "redis_service R" and "stored R r0 = {}" and "reachable c R ms r0 s" and "e \<in> set (ledger (sy_bank s))"
  shows "\<exists>p \<in> set (payouts (sy_db s)). \<exists>t \<in> set (settlements (sy_db s)).
    e_reference e = payout_reference (JInt (p_id p)) \<and> e_merchant e = p_merchant p \<and> e_amount e = p_amount p
    \<and> e_currency e = p_currency p \<and> p_key p \<noteq> None \<and> from_settlement t p"
proof -
  note inv = redis_service.reachable_inv [OF assms(1) assms(3) assms(2)]
  then have bank: "bank_ok (sy_db s) (sy_bank s)" and ok: "db_ok (sy_db s)" by (simp_all add: sys_inv_def)
  from bank assms(4) obtain k where "booked (sy_bank s) k = Some e" unfolding bank_ok_def by blast
  with bank obtain p where p: "payout_row (sy_db s) (p_id p) = Some p" "p_key p = Some k" "entry_for p e"
    unfolding bank_ok_def by blast
  then have mem: "p \<in> set (payouts (sy_db s))" using payout_row_some by blast
  with ok obtain t where "t \<in> set (settlements (sy_db s))" "from_settlement t p" unfolding db_ok_def by blast
  with p mem show ?thesis by (intro bexI [of _ p] bexI [of _ t]) (simp_all add: entry_for_def)
qed

theorem ledger_entries_are_owed_witness:
  "\<exists>p \<in> set (payouts (sy_db sc12)). \<exists>t \<in> set (settlements (sy_db sc12)).
    e_reference sc_entry = payout_reference (JInt (p_id p)) \<and> e_merchant sc_entry = p_merchant p
    \<and> e_amount sc_entry = p_amount p \<and> e_currency sc_entry = p_currency p \<and> p_key p \<noteq> None \<and> from_settlement t p"
  by (rule ledger_entries_are_owed [OF mem.redis_service_axioms mem_empty_stored sc12_reachable])
     (simp add: sc12_def sc_sys_def sc_bank_def)

definition paid_for :: "db \<Rightarrow> bank \<Rightarrow> settlement \<Rightarrow> entry list" where
  "paid_for d b t = filter (\<lambda>e. \<exists>p \<in> set (payouts d). p_settlement p = s_id t
     \<and> e_reference e = payout_reference (JInt (p_id p))) (ledger b)"

lemma distinct_filter_ref: "distinct (map f es) \<Longrightarrow> length (filter (\<lambda>e. f e = x) es) \<le> 1"
  by (induction es) (auto simp: image_iff filter_empty_conv)

lemma paid_for_single:
  assumes db: "db_ok d" and bank: "bank_ok d b" and t: "t \<in> set (settlements d)"
  shows "paid_for d b t = [] \<or> (\<exists>e. paid_for d b t = [e] \<and> e_amount e = s_amount t)"
proof (cases "payout_of d t")
  case None
  then have "paid_for d b t = []"
    by (auto simp: paid_for_def payout_of_def find_None_iff filter_empty_conv)
  then show ?thesis ..
next
  case (Some p)
  then have p: "p \<in> set (payouts d)" "p_settlement p = s_id t" by (auto simp: payout_of_def dest: find_some_mem)
  have only: "q = p" if "q \<in> set (payouts d)" "p_settlement q = s_id t" for q
    using distinct_key_eq [of p_settlement "payouts d" q p] db p that by (simp add: db_ok_def)
  have pf: "paid_for d b t = filter (\<lambda>e. e_reference e = payout_reference (JInt (p_id p))) (ledger b)"
    unfolding paid_for_def by (rule filter_cong [OF refl]) (use only p in blast)
  have amount: "e_amount e = s_amount t" if e: "e \<in> set (ledger b)" "e_reference e = payout_reference (JInt (p_id p))" for e
  proof -
    from bank e(1) obtain k where "booked b k = Some e" unfolding bank_ok_def by blast
    with bank obtain q where q: "payout_row d (p_id q) = Some q" "entry_for q e" unfolding bank_ok_def by blast
    from q(2) e(2) have "p_id q = p_id p" by (simp add: entry_for_def payout_reference_def)
    then have qp: "q = p" by (rule row_id_inject [OF q(1) payout_row_mem [OF db p(1)]])
    from db p(1) obtain s where s: "s \<in> set (settlements d)" "from_settlement s p" unfolding db_ok_def by blast
    have "s_id s = s_id t" using s(2) p(2) by (simp add: from_settlement_def)
    then have "s = t" using distinct_key_eq [of s_id "settlements d" s t] db s(1) t by (simp add: db_ok_def)
    with s(2) q(2) qp show ?thesis by (simp add: entry_for_def from_settlement_def)
  qed
  have "length (paid_for d b t) \<le> 1" unfolding pf by (rule distinct_filter_ref) (use bank in \<open>simp add: bank_ok_def\<close>)
  then consider "paid_for d b t = []" | e where "paid_for d b t = [e]"
    by (cases "paid_for d b t") (auto simp: le_Suc_eq)
  then show ?thesis
  proof cases
    case (2 e)
    then have "e \<in> set (paid_for d b t)" by simp
    then have "e_amount e = s_amount t" unfolding pf by (intro amount) simp_all
    with 2 show ?thesis by blast
  qed simp
qed

text \<open>C5. No settlement is overpaid: all the ledger's entries for the payouts of one settlement add
  up to at most its amount.\<close>

theorem settlement_never_overpaid:
  assumes "redis_service R" and "stored R r0 = {}" and "reachable c R ms r0 s" and "t \<in> set (settlements (sy_db s))"
  shows "sum_list (map e_amount (paid_for (sy_db s) (sy_bank s) t)) \<le> s_amount t"
proof -
  note inv = redis_service.reachable_inv [OF assms(1) assms(3) assms(2)]
  then have "db_ok (sy_db s)" "bank_ok (sy_db s) (sy_bank s)" by (simp_all add: sys_inv_def)
  moreover then have "0 \<le> s_amount t" using assms(4) by (simp add: db_ok_def)
  ultimately show ?thesis using paid_for_single assms(4) by fastforce
qed

theorem settlement_never_overpaid_witness:
  "sum_list (map e_amount (paid_for (sy_db sc12) (sy_bank sc12) (sc_settlement ''executing''))) \<le> 250"
  using settlement_never_overpaid [OF mem.redis_service_axioms mem_empty_stored sc12_reachable, of "sc_settlement ''executing''"]
  by (simp add: sc12_def sc_sys_def sc_db_def sc_settlement_def)

subsection \<open>No accepted payout is lost\<close>

text \<open>C2. A payout whose execution request was answered with 202 is, in every later state, either
  paid or still named by a job in Redis: in the queue, in a processing list, among the retries
  or among the dead letters. No crash, lost answer, recovery or failed re-queue drops it.\<close>

theorem accepted_is_not_lost:
  assumes "redis_service R" and "stored R r0 = {}" and "reachable c R ms r0 s" and "i \<in> sy_accepted s"
  shows "\<exists>p. payout_row (sy_db s) i = Some p \<and> (p_state p = ''paid''
    \<or> (\<exists>x. job_pid x = Some i \<and> ((\<exists>k. list_key k \<and> x \<in> set (lrange R (sy_redis s) k)) \<or> zscores R (sy_redis s) RETRY x \<noteq> None)))"
proof -
  have "accepted_ok R (sy_db s) (sy_redis s) (sy_accepted s)"
    using redis_service.reachable_inv [OF assms(1) assms(3) assms(2)] by (simp add: sys_inv_def)
  with assms(4) show ?thesis unfolding accepted_ok_def stored_def by blast
qed

theorem accepted_is_not_lost_witness:
  "\<exists>p. payout_row (sy_db sc12) 5 = Some p \<and> (p_state p = ''paid''
    \<or> (\<exists>x. job_pid x = Some 5 \<and> ((\<exists>k. list_key k \<and> x \<in> set (lrange mem_redis (sy_redis sc12) k))
         \<or> zscores mem_redis (sy_redis sc12) RETRY x \<noteq> None)))"
  by (rule accepted_is_not_lost [OF mem.redis_service_axioms mem_empty_stored sc12_reachable])
     (simp add: sc12_def sc_sys_def)

subsection \<open>The jobs of a reachable state can be processed\<close>

text \<open>C6. Every job a reachable state holds in Redis is a JSON object of an existing payout with the
  payout's merchant, amount and currency, and whichever way its execution goes (any bank, any
  database failure, any worker) an exception escapes \<open>process\<close> only when the Redis transaction
  that re-queues the job failed.\<close>

theorem reachable_jobs_are_handled:
  assumes "redis_service R" and "stored R r0 = {}" and "reachable c R ms r0 s" and "x \<in> stored R (sy_redis s)"
  shows "good_job (sy_db s) x \<and> (fst (process c R post wid ev x w) \<noteq> None \<longrightarrow> ev_requeue ev \<noteq> Done)"
proof -
  have good: "good_job (sy_db s) x"
    using redis_service.reachable_inv [OF assms(1) assms(3) assms(2)] assms(4) by (simp add: sys_inv_def)
  then obtain job p where x: "x = Json (JObj job)" "job_for p job" by (auto simp: good_job_def)
  then obtain n where n: "json_int (dict_get job ''attempt'' (JInt 0)) = Inr n" by (auto simp: job_for_def dict_get_def)
  have "fst (process c R post wid ev x w) = None" if "ev_requeue ev = Done"
    using process_leaves [OF n that, of c R post wid w] by (cases "process c R post wid ev x w") (simp add: x(1))
  with good show ?thesis by auto
qed

theorem reachable_jobs_are_handled_witness:
  "good_job (sy_db sc12) sc_job \<and> fst (process default_config mem_redis (bank_post Done False [] 0) ''c'' (sc_env ''K3'') sc_job
      (sy_world sc12)) = None"
proof -
  have "sc_job \<in> stored mem_redis (sy_redis sc12)"
    by (auto simp: sc12_def sc_sys_def stored_def mem_redis_def m_list_def sc_redis_def
        intro!: exI [of _ "processing_key ''b''"])
  from reachable_jobs_are_handled [OF mem.redis_service_axioms mem_empty_stored sc12_reachable this,
      where post = "bank_post Done False [] 0" and wid = "''c''" and ev = "sc_env ''K3''" and w = "sy_world sc12"]
  show ?thesis by simp
qed

end
